(* ===== verification/Prelude.thy ===== *)
theory Prelude
  imports Main "HOL-Library.Word" "HOL-Library.Multiset" "HOL-Library.Monad_Syntax"
    "HOL-Library.Sublist"
begin

text \<open>
  Shared vocabulary of the development: the machine integers of the Rust sources, the result
  type of fallible functions, and bytes of memory with the partial reads and writes the packet
  code performs on them. The lemmas here are about lists, words and memory only; no
  component of doggy-dns is modelled in this theory.

  A partial operation answers \<^term>\<open>None\<close> where the code would touch memory it does not own,
  so "never \<^term>\<open>None\<close>" is memory safety. A fallible Rust function answers \<open>Inl\<close> for \<open>Err\<close> and
  \<open>Inr\<close> for \<open>Ok\<close>.
\<close>

unbundle bit_operations_syntax

named_theorems mem_simps "reads and writes of byte memory"

named_theorems frame_simps "what an operation leaves unchanged"

type_synonym u8 = "8 word"
type_synonym u16 = "16 word"
type_synonym u32 = "32 word"
type_synonym u64 = "64 word"

type_synonym bytes = "u8 list"

type_synonym ('e, 'a) result = "'e + 'a"

section \<open>Byte memory\<close>

definition rd_bytes :: "bytes \<Rightarrow> nat \<Rightarrow> nat \<Rightarrow> bytes option" where
  "rd_bytes m off n = (if off + n \<le> length m then Some (take n (drop off m)) else None)"

definition rd_u8 :: "bytes \<Rightarrow> nat \<Rightarrow> u8 option" where
  "rd_u8 m off = (if off < length m then Some (m ! off) else None)"

definition wr_bytes :: "bytes \<Rightarrow> nat \<Rightarrow> bytes \<Rightarrow> bytes option" where
  "wr_bytes m off bs =
     (if off + length bs \<le> length m
      then Some (take off m @ bs @ drop (off + length bs) m) else None)"

lemma rd_bytes_Some [mem_simps]:
  "off + n \<le> length m \<Longrightarrow> rd_bytes m off n = Some (take n (drop off m))"
  by (simp add: rd_bytes_def)

lemma rd_u8_Some [mem_simps]: "off < length m \<Longrightarrow> rd_u8 m off = Some (m ! off)"
  by (simp add: rd_u8_def)

lemma wr_bytes_Some [mem_simps]:
  "off + length bs \<le> length m \<Longrightarrow>
     wr_bytes m off bs = Some (take off m @ bs @ drop (off + length bs) m)"
  by (simp add: wr_bytes_def)

lemma wr_bytes_length [frame_simps]: "wr_bytes m off bs = Some m' \<Longrightarrow> length m' = length m"
  by (auto simp: wr_bytes_def split: if_splits)

lemma wr_bytes_nth:
  assumes "wr_bytes m off bs = Some m'" and "i < length m"
  shows "m' ! i = (if off \<le> i \<and> i < off + length bs then bs ! (i - off) else m ! i)"
  using assms by (auto simp: wr_bytes_def nth_append min_def split: if_splits)

section \<open>Little-endian words\<close>

text \<open>The value of a byte string read little-endian, unbounded and as a 64-bit word
  (\<open>u64::from_le_bytes\<close>, or an eight-byte load on the little-endian BPF target).\<close>

fun le_int :: "bytes \<Rightarrow> int" where
  "le_int [] = 0"
| "le_int (b # bs) = uint b + 256 * le_int bs"

definition from_le_bytes :: "bytes \<Rightarrow> u64" where
  "from_le_bytes bs = word_of_int (le_int bs)"

lemma le_int_nonneg [simp]: "0 \<le> le_int bs"
  by (induction bs) auto

lemma le_int_bound: "le_int bs < 256 ^ length bs"
proof (induction bs)
  case Nil
  then show ?case by simp
next
  case (Cons b bs)
  have "uint b \<le> 255" using uint_lt2p [of b] by simp
  with Cons show ?case by simp
qed

lemma le_int_append: "le_int (xs @ ys) = le_int xs + 256 ^ length xs * le_int ys"
  by (induction xs) (auto simp: algebra_simps)

lemma le_int_replicate_0 [simp]: "le_int (replicate n 0) = 0"
  by (induction n) auto

lemma from_le_bytes_pad: "from_le_bytes (bs @ replicate n 0) = from_le_bytes bs"
  by (simp add: from_le_bytes_def le_int_append)

end
