(* ===== verification/Byte_Words.thy ===== *)
theory Byte_Words
  imports Prelude
begin

text \<open>
  Words as strings of bytes: the algebra behind byte-parallel ("SWAR") code. A 64-bit word is
  the little-endian value of its eight bytes, the bitwise operations act byte by byte, and
  subtraction does too as long as no byte borrows. Masks and constants that repeat one byte are
  \<^term>\<open>rep\<close>. The arithmetic is done on unbounded integers and transferred to words once.
\<close>

section \<open>Prepending a byte\<close>

lemma byte_cons_concat: "0 \<le> x \<Longrightarrow> x < 256 \<Longrightarrow> x + 256 * y = concat_bit 8 x (y::int)"
  by (simp add: concat_bit_eq take_bit_int_eq_self push_bit_eq_mult)

lemma bit_byte_cons:
  "0 \<le> x \<Longrightarrow> x < 256 \<Longrightarrow> bit (x + 256 * y) n = (if n < 8 then bit x n else bit (y::int) (n - 8))"
  by (simp add: byte_cons_concat bit_concat_bit_iff)

lemma byte_and_bounds: "0 \<le> x \<Longrightarrow> x < 256 \<Longrightarrow> 0 \<le> x AND y \<and> x AND (y::int) < 256"
  using AND_upper1 [of x y] by auto

lemma byte_or_bounds:
  "0 \<le> x \<Longrightarrow> x < 256 \<Longrightarrow> 0 \<le> y \<Longrightarrow> y < 256 \<Longrightarrow> 0 \<le> x OR y \<and> x OR (y::int) < 256"
  using OR_upper [of x 8 y] by auto

lemma or_lower: "0 \<le> y \<Longrightarrow> 0 \<le> x \<Longrightarrow> y \<le> x OR (y::int)"
  by (simp add: or.commute [of x y] or_greater_eq)

lemma byte_cons_and:
  assumes "0 \<le> x" "x < 256" "0 \<le> x'" "x' < 256"
  shows "(x + 256 * y) AND (x' + 256 * y') = (x AND x') + 256 * (y AND (y'::int))"
proof (rule bit_eqI)
  fix n
  have "0 \<le> x AND x' \<and> x AND x' < 256" using assms byte_and_bounds by blast
  then show "bit ((x + 256 * y) AND (x' + 256 * y')) n = bit ((x AND x') + 256 * (y AND y')) n"
    using assms by (simp add: bit_and_iff bit_byte_cons)
qed

lemma byte_cons_and3:
  assumes "0 \<le> a" "a < 256" "0 \<le> b" "b < 256" "0 \<le> c" "c < 256"
  shows "(a + 256 * x) AND ((b + 256 * y) AND (c + 256 * z)) =
         (a AND (b AND c)) + 256 * (x AND (y AND (z::int)))"
  using assms byte_and_bounds [of b c] by (simp only: byte_cons_and)

lemma byte_cons_or:
  assumes "0 \<le> x" "x < 256" "0 \<le> x'" "x' < 256"
  shows "(x + 256 * y) OR (x' + 256 * y') = (x OR x') + 256 * (y OR (y'::int))"
proof (rule bit_eqI)
  fix n
  have "0 \<le> x OR x' \<and> x OR x' < 256" using assms byte_or_bounds by blast
  then show "bit ((x + 256 * y) OR (x' + 256 * y')) n = bit ((x OR x') + 256 * (y OR y')) n"
    using assms by (simp add: bit_or_iff bit_byte_cons)
qed

lemma byte_cons_not: "NOT (x + 256 * y) = (255 - x) + 256 * NOT (y::int)"
  by (simp add: not_int_def)

lemma uint_byte_bounds [simp]: "uint (b :: u8) < 256"
  using uint_lt2p [of b] by simp

section \<open>Repeated bytes and per-byte comparison masks\<close>

fun rep :: "int \<Rightarrow> nat \<Rightarrow> int" where
  "rep c 0 = 0"
| "rep c (Suc n) = c + 256 * rep c n"

text \<open>\<^term>\<open>ge_mask c w n\<close> raises bit 7 of every byte of \<open>w\<close> that is at least \<open>c\<close> and below 128.\<close>

definition ge_mask :: "int \<Rightarrow> int \<Rightarrow> nat \<Rightarrow> int" where
  "ge_mask c w n = ((w OR rep 128 n) - rep c n) AND NOT w AND rep 128 n"

definition ge_byte :: "int \<Rightarrow> int \<Rightarrow> int" where
  "ge_byte c x = ((x OR 128) - c) AND ((255 - x) AND 128)"

lemma ge_mask_Cons:
  assumes "0 \<le> x" "x < 256" "0 \<le> c" "c \<le> 128"
  shows "ge_mask c (x + 256 * y) (Suc n) = ge_byte c x + 256 * ge_mask c y n"
proof -
  have o: "0 \<le> x OR 128" "x OR 128 < 256" "128 \<le> x OR (128::int)"
    using byte_or_bounds [of x 128] or_lower [of 128 x] assms by auto
  have s: "(x OR 128) + 256 * (y OR rep 128 n) - (c + 256 * rep c n) =
     ((x OR 128) - c) + 256 * ((y OR rep 128 n) - rep c n)" by simp
  have "ge_mask c (x + 256 * y) (Suc n) =
    (((x OR 128) - c) + 256 * ((y OR rep 128 n) - rep c n)) AND
     (((255 - x) + 256 * NOT y) AND (128 + 256 * rep 128 n))"
    using assms by (simp only: ge_mask_def byte_cons_or byte_cons_not s rep.simps)
  also have "\<dots> = ge_byte c x + 256 * ge_mask c y n"
    unfolding ge_byte_def ge_mask_def using assms o by (intro byte_cons_and3) auto
  finally show ?thesis .
qed

lemma ge_byte_table:
  "list_all (\<lambda>x. ge_byte 65 x = (if 65 \<le> x \<and> x < 128 then 128 else 0) \<and>
                 ge_byte 91 x = (if 91 \<le> x \<and> x < 128 then 128 else 0)) (map int [0..<256])"
  by code_simp

lemma byte_in_table:
  assumes "list_all P (map int [0..<256])" and "0 \<le> x" and "x < 256"
  shows "P x"
proof -
  have "x = int (nat x)" and "nat x \<in> set [0..<256]" using assms(2,3) by auto
  then have "x \<in> set (map int [0..<256])" by (metis imageI set_map)
  with assms(1) show ?thesis by (auto simp: list_all_iff)
qed

lemmas ge_byte_eq = byte_in_table [OF ge_byte_table]

section \<open>The first zero byte\<close>

definition zero_mask :: "int \<Rightarrow> nat \<Rightarrow> int" where
  "zero_mask w n = (w - rep 1 n) AND NOT w AND rep 128 n"

lemma dec_byte_table:
  "list_all (\<lambda>x. 0 < x \<longrightarrow> (x - 1) AND ((255 - x) AND 128) = 0) (map int [0..<256])"
  by code_simp

lemma zero_mask_Cons_nz:
  assumes "0 < x" "x < 256"
  shows "zero_mask (x + 256 * y) (Suc n) = 256 * zero_mask y n"
proof -
  have s: "x + 256 * y - (1 + 256 * rep 1 n) = (x - 1) + 256 * (y - rep 1 n)" by simp
  have "zero_mask (x + 256 * y) (Suc n) =
    ((x - 1) + 256 * (y - rep 1 n)) AND (((255 - x) + 256 * NOT y) AND (128 + 256 * rep 128 n))"
    by (simp only: zero_mask_def byte_cons_not rep.simps s)
  also have "\<dots> = ((x - 1) AND ((255 - x) AND 128)) + 256 * zero_mask y n"
    unfolding zero_mask_def using assms by (intro byte_cons_and3) auto
  also have "(x - 1) AND ((255 - x) AND 128) = 0"
    using byte_in_table [OF dec_byte_table, of x] assms by simp
  finally show ?thesis by simp
qed

lemma zero_mask_Cons_z: "\<exists>m\<ge>0. zero_mask (0 + 256 * y) (Suc n) = 128 + 256 * m"
proof -
  have nn: "0 \<le> rep 128 n" by (induction n) auto
  have s: "0 + 256 * y - (1 + 256 * rep 1 n) = 255 + 256 * (y - rep 1 n - 1)" by simp
  have "zero_mask (0 + 256 * y) (Suc n) =
    (255 + 256 * (y - rep 1 n - 1)) AND (((255 - 0) + 256 * NOT y) AND (128 + 256 * rep 128 n))"
    by (simp only: zero_mask_def byte_cons_not rep.simps s)
  also have "\<dots> = (255 AND ((255 - 0) AND 128)) +
      256 * ((y - rep 1 n - 1) AND (NOT y AND rep 128 n))"
    by (intro byte_cons_and3) auto
  finally show ?thesis using nn by (intro exI [of _ "(y - rep 1 n - 1) AND (NOT y AND rep 128 n)"]) simp
qed

text \<open>\<^term>\<open>zero_mask\<close> is zero when no byte is; otherwise its lowest set bit is bit 7 of the first
  zero byte (the bits above it are not specified).\<close>

lemma zero_mask_none: "0 \<notin> set bs \<Longrightarrow> zero_mask (le_int bs) (length bs) = 0"
proof (induction bs)
  case (Cons b bs)
  then have "uint b \<noteq> 0" by (auto simp: uint_0_iff)
  then have "0 < uint b" by (simp add: order.strict_iff_order)
  with Cons show ?case by (simp add: zero_mask_Cons_nz)
qed (simp add: zero_mask_def)

lemma zero_mask_first:
  "0 \<notin> set xs \<Longrightarrow>
     \<exists>m\<ge>0. zero_mask (le_int (xs @ 0 # ys)) (length (xs @ 0 # ys)) = 2 ^ (8 * length xs + 7) * (2 * m + 1)"
proof (induction xs)
  case Nil
  obtain m where "m \<ge> 0" "zero_mask (0 + 256 * le_int ys) (Suc (length ys)) = 128 + 256 * m"
    using zero_mask_Cons_z by blast
  then show ?case by (intro exI [of _ m]) simp
next
  case (Cons b xs)
  then have "uint b \<noteq> 0" by (auto simp: uint_0_iff)
  then have "0 < uint b" by (simp add: order.strict_iff_order)
  moreover from Cons obtain m where "m \<ge> 0"
    "zero_mask (le_int (xs @ 0 # ys)) (length (xs @ 0 # ys)) = 2 ^ (8 * length xs + 7) * (2 * m + 1)"
    by auto
  ultimately show ?case
    by (intro exI [of _ m]) (simp add: zero_mask_Cons_nz power_add)
qed

lemma zero_mask_bounds: "0 \<le> zero_mask w n \<and> zero_mask w n < 256 ^ n"
proof -
  have b: "0 \<le> rep 128 n \<and> rep 128 n < 256 ^ n" by (induction n) auto
  then have "(w - rep 1 n) AND NOT w AND rep 128 n \<le> rep 128 n"
    by (metis AND_upper2' and.assoc order_refl)
  with b show ?thesis by (simp add: zero_mask_def)
qed

text \<open>Isolating the lowest set bit.\<close>

lemma lowest_bit_odd: "(2 * q + 1) AND - (2 * q + 1) = (1::int)"
proof -
  have "- (2 * q + 1) = 2 * NOT q + 1" by (simp add: not_int_def)
  then show ?thesis
    by (simp add: and_int_rec [of "2 * q + 1"])
qed

lemma lowest_bit: "(2 ^ p * (2 * q + 1)) AND - (2 ^ p * (2 * q + 1)) = (2 ^ p :: int)"
proof -
  have "(2 ^ p * (2 * q + 1)) AND - (2 ^ p * (2 * q + 1)) =
        push_bit p (2 * q + 1) AND push_bit p (- (2 * q + 1))"
    by (simp add: push_bit_eq_mult algebra_simps)
  also have "\<dots> = push_bit p ((2 * q + 1) AND - (2 * q + 1))"
    by (simp only: push_bit_and)
  finally show ?thesis by (simp only: lowest_bit_odd) (simp add: push_bit_eq_mult)
qed

end
