(* ===== verification/Xdp_Types.thy ===== *)
theory Xdp_Types
  imports Byte_Words
begin

text \<open>
  The data both sides of the XDP fast path share through BPF maps
  (\<open>crates/doggy-dns-xdp/src/types.rs\<close>, mirrored by
  \<open>xdp/doggy-dns-xdp-ebpf/src/types.rs\<close>): cache keys and values, the runtime configuration and
  the per-CPU counters, with the constructors of cache values. The \<open>repr(C)\<close> layout rule is
  modelled so that the compile-time size assertions of both crates are facts.
\<close>

section \<open>Map layout types\<close>

definition FLAG_NEGATIVE :: u16 where
  "FLAG_NEGATIVE = 0x01"

definition MAX_RESPONSE_SIZE :: nat where
  "MAX_RESPONSE_SIZE = 512"

record cache_key =
  name_hash :: u64
  qtype_class :: u32
  key_pad :: u32

record cache_value =
  resp_data :: bytes
  resp_len :: u16
  cv_flags :: u16
  cv_pad :: u32
  expires_at :: u64

record xdp_runtime_config =
  dns_port :: u16

record xdp_stats =
  hit :: u64
  negative_hit :: u64
  miss :: u64
  expired :: u64
  drop_count :: u64

definition zero_stats :: xdp_stats where
  "zero_stats = \<lparr>hit = 0, negative_hit = 0, miss = 0, expired = 0, drop_count = 0\<rparr>"

section \<open>\<open>repr(C)\<close> layout\<close>

text \<open>A field is its size and alignment. Fields are laid out in order, each at the next multiple
  of its alignment, and the struct is padded to its largest alignment.\<close>

definition align_up :: "nat \<Rightarrow> nat \<Rightarrow> nat" where
  "align_up a n = (n + a - 1) div a * a"

definition repr_c_size :: "(nat \<times> nat) list \<Rightarrow> nat" where
  "repr_c_size fs =
     align_up (foldr (\<lambda>(_, a) m. max a m) fs 1)
       (foldl (\<lambda>off (sz, a). align_up a off + sz) 0 fs)"

definition cache_key_size :: nat where
  "cache_key_size = repr_c_size [(8, 8), (4, 4), (4, 4)]"

definition cache_value_size :: nat where
  "cache_value_size = repr_c_size [(MAX_RESPONSE_SIZE, 1), (2, 2), (2, 2), (4, 4), (8, 8)]"

definition xdp_runtime_config_size :: nat where
  "xdp_runtime_config_size = repr_c_size [(2, 2)]"

definition xdp_stats_size :: nat where
  "xdp_stats_size = repr_c_size [(8, 8), (8, 8), (8, 8), (8, 8), (8, 8)]"

lemma layout_sizes [simp]:
  "cache_key_size = 16" "cache_value_size = 528"
  "xdp_runtime_config_size = 2" "xdp_stats_size = 40"
  by code_simp+

section \<open>Cache values\<close>

definition from_response :: "bytes \<Rightarrow> u64 \<Rightarrow> bool \<Rightarrow> cache_value" where
  "from_response resp expires negative =
     (let len = min (length resp) MAX_RESPONSE_SIZE
      in \<lparr>resp_data = take len resp @ replicate (MAX_RESPONSE_SIZE - len) 0,
          resp_len = of_nat len,
          cv_flags = (if negative then FLAG_NEGATIVE else 0),
          cv_pad = 0,
          expires_at = expires\<rparr>)"

definition new_positive :: "bytes \<Rightarrow> u64 \<Rightarrow> cache_value" where
  "new_positive resp expires = from_response resp expires False"

definition new_negative :: "bytes \<Rightarrow> u64 \<Rightarrow> cache_value" where
  "new_negative resp expires = from_response resp expires True"

definition is_negative :: "cache_value \<Rightarrow> bool" where
  "is_negative v = (cv_flags v AND FLAG_NEGATIVE \<noteq> 0)"

text \<open>The type invariant of a map value: its data field is exactly 512 bytes. Every value a BPF
  map of this layout holds satisfies it.\<close>

definition cache_value_wf :: "cache_value \<Rightarrow> bool" where
  "cache_value_wf v = (length (resp_data v) = MAX_RESPONSE_SIZE)"

lemma from_response_wf [simp]: "cache_value_wf (from_response resp e n)"
  by (simp add: cache_value_wf_def from_response_def Let_def)

lemma from_response_len [simp]:
  "unat (resp_len (from_response resp e n)) = min (length resp) MAX_RESPONSE_SIZE"
  by (simp add: from_response_def Let_def MAX_RESPONSE_SIZE_def unat_of_nat)

lemma from_response_data:
  "take (unat (resp_len (from_response resp e n))) (resp_data (from_response resp e n)) =
     take MAX_RESPONSE_SIZE resp"
  by (auto simp: from_response_def Let_def MAX_RESPONSE_SIZE_def unat_of_nat min_def)

lemma from_response_expires [simp]: "expires_at (from_response resp e n) = e"
  by (simp add: from_response_def Let_def)

lemma is_negative_from_response [simp]: "is_negative (from_response resp e n) = n"
  by (simp add: from_response_def Let_def is_negative_def FLAG_NEGATIVE_def)

end
