(* ===== verification/Xdp_Layout.thy ===== *)
theory Xdp_Layout
  imports Xdp_Types
begin

text \<open>
  The bytes in the shared maps. Userspace hands the kernel the memory of its \<open>repr(C)\<close> structs
  (\<open>crates/doggy-dns-xdp/src/types.rs\<close>, \<open>pod_impls.rs\<close>), and the eBPF program reads that memory through structs of its
  own, mirrored by hand in \<open>xdp/doggy-dns-xdp-ebpf/src/types.rs\<close>. Each side has its table of fields here, in
  the order of its source; the layout rule places them, and the theorem is that either side reads what the
  other wrote.
\<close>

section \<open>Placing fields\<close>

record field =
  fd_name :: string
  fd_size :: nat
  fd_align :: nat

definition struct_size :: "field list \<Rightarrow> nat" where
  "struct_size fs = repr_c_size (map (\<lambda>f. (fd_size f, fd_align f)) fs)"

text \<open>A struct in memory: every field at its place, with the bytes its name stands for, and zeros in the gaps.\<close>

fun write_fields :: "nat \<Rightarrow> field list \<Rightarrow> (string \<Rightarrow> bytes) \<Rightarrow> bytes" where
  "write_fields off [] val = []"
| "write_fields off (f # fs) val = (let o' = align_up (fd_align f) off in
     replicate (o' - off) 0 @ val (fd_name f) @ write_fields (o' + fd_size f) fs val)"

definition struct_bytes :: "field list \<Rightarrow> (string \<Rightarrow> bytes) \<Rightarrow> bytes" where
  "struct_bytes fs val = (let body = write_fields 0 fs val in body @ replicate (struct_size fs - length body) 0)"

text \<open>An access by name: the bytes at the place of the first field of that name.\<close>

fun read_from :: "nat \<Rightarrow> field list \<Rightarrow> string \<Rightarrow> bytes \<Rightarrow> bytes" where
  "read_from off [] n mem = []"
| "read_from off (f # fs) n mem = (let o' = align_up (fd_align f) off in
     if fd_name f = n then take (fd_size f) (drop o' mem) else read_from (o' + fd_size f) fs n mem)"

definition read_field :: "field list \<Rightarrow> string \<Rightarrow> bytes \<Rightarrow> bytes" where
  "read_field fs n mem = read_from 0 fs n mem"

definition fields_fit :: "field list \<Rightarrow> (string \<Rightarrow> bytes) \<Rightarrow> bool" where
  "fields_fit fs val = list_all (\<lambda>f. length (val (fd_name f)) = fd_size f \<and> 0 < fd_align f) fs"

lemma align_up_ge: "0 < a \<Longrightarrow> n \<le> align_up a n"
proof -
  assume a: "0 < a"
  have "n + a - 1 = (n + a - 1) div a * a + (n + a - 1) mod a" by simp
  moreover have "(n + a - 1) mod a \<le> a - 1" using a mod_less_divisor [of a "n + a - 1"] by linarith
  ultimately show ?thesis using a unfolding align_up_def by linarith
qed

text \<open>What was written under a name is read under it, whatever precedes the struct's rest.\<close>

lemma read_written:
  "fields_fit fs val \<Longrightarrow> n \<in> fd_name ` set fs \<Longrightarrow> length pre = off \<Longrightarrow>
     read_from off fs n (pre @ write_fields off fs val @ rest) = val n"
proof (induction off fs val arbitrary: pre rule: write_fields.induct)
  case (2 off f fs val)
  let ?o = "align_up (fd_align f) off"
  have f: "length (val (fd_name f)) = fd_size f" "0 < fd_align f" "fields_fit fs val" using 2(2) by (auto simp: fields_fit_def)
  have o: "off \<le> ?o" using align_up_ge [OF f(2)] .
  show ?case
  proof (cases "fd_name f = n")
    case True
    with 2(4) o f(1) show ?thesis by (auto simp: Let_def)
  next
    case False
    let ?pre = "pre @ replicate (?o - off) 0 @ val (fd_name f)"
    have "length ?pre = ?o + fd_size f" using 2(4) o f(1) by simp
    from 2(1) [OF refl f(3) _ this] 2(3) False show ?thesis by (auto simp: Let_def)
  qed
qed simp

lemma read_field_struct_bytes:
  "fields_fit fs val \<Longrightarrow> n \<in> fd_name ` set fs \<Longrightarrow> read_field fs n (struct_bytes fs val) = val n"
  unfolding read_field_def struct_bytes_def Let_def
  using read_written [of fs val n "[]" 0 "replicate (struct_size fs - length (write_fields 0 fs val)) 0"]
  by (simp only: list.size append_Nil)

section \<open>Little-endian fields\<close>

fun to_le :: "nat \<Rightarrow> int \<Rightarrow> bytes" where
  "to_le 0 x = []"
| "to_le (Suc n) x = word_of_int x # to_le n (x div 256)"

lemma length_to_le [simp]: "length (to_le n x) = n"
  by (induction n x rule: to_le.induct) simp_all

lemma le_int_to_le: "0 \<le> x \<Longrightarrow> x < 256 ^ n \<Longrightarrow> le_int (to_le n x) = x"
proof (induction n x rule: to_le.induct)
  case (2 n x)
  then have "x div 256 < 256 ^ n" by (simp add: div_less_iff_less_mult ac_simps)
  with 2 show ?case by (simp add: uint_word_of_int)
qed simp

definition le_word :: "bytes \<Rightarrow> 'w::len word" where
  "le_word bs = word_of_int (le_int bs)"

lemma le_word_to_le [simp]:
  "le_word (to_le 2 (uint (a :: u16))) = a" "le_word (to_le 4 (uint (b :: u32))) = b" "le_word (to_le 8 (uint (c :: u64))) = c"
  using unsigned_less [of a, where 'a = int] unsigned_less [of b, where 'a = int] unsigned_less [of c, where 'a = int]
  by (simp_all add: le_word_def le_int_to_le)

section \<open>The two tables\<close>

definition fld :: "string \<Rightarrow> nat \<Rightarrow> nat \<Rightarrow> field" where
  "fld name sz al = \<lparr>fd_name = name, fd_size = sz, fd_align = al\<rparr>"

definition user_cache_key :: "field list" where
  "user_cache_key = [fld ''name_hash'' 8 8, fld ''qtype_class'' 4 4, fld ''_pad'' 4 4]"

definition user_cache_value :: "field list" where
  "user_cache_value = [fld ''resp_data'' MAX_RESPONSE_SIZE 1, fld ''resp_len'' 2 2, fld ''flags'' 2 2, fld ''_pad'' 4 4, fld ''expires_at'' 8 8]"

definition user_runtime_config :: "field list" where
  "user_runtime_config = [fld ''dns_port'' 2 2]"

definition user_stats :: "field list" where
  "user_stats = [fld ''hit'' 8 8, fld ''negative_hit'' 8 8, fld ''miss'' 8 8, fld ''expired'' 8 8, fld ''drop'' 8 8]"

definition kernel_cache_key :: "field list" where
  "kernel_cache_key = [fld ''name_hash'' 8 8, fld ''qtype_class'' 4 4, fld ''_pad'' 4 4]"

definition kernel_cache_value :: "field list" where
  "kernel_cache_value = [fld ''resp_data'' 512 1, fld ''resp_len'' 2 2, fld ''flags'' 2 2, fld ''_pad'' 4 4, fld ''expires_at'' 8 8]"

definition kernel_runtime_config :: "field list" where
  "kernel_runtime_config = [fld ''dns_port'' 2 2]"

definition kernel_stats :: "field list" where
  "kernel_stats = [fld ''hit'' 8 8, fld ''negative_hit'' 8 8, fld ''miss'' 8 8, fld ''expired'' 8 8, fld ''drop'' 8 8]"

definition kernel_FLAG_NEGATIVE :: u16 where
  "kernel_FLAG_NEGATIVE = 0x01"

section \<open>Writing on one side, reading on the other\<close>

text \<open>The values of a struct by field name, as each side's source assigns and reads them.\<close>

definition key_fields :: "cache_key \<Rightarrow> string \<Rightarrow> bytes" where
  "key_fields k n = (
     if n = ''name_hash'' then to_le 8 (uint (name_hash k))
     else if n = ''qtype_class'' then to_le 4 (uint (qtype_class k))
     else if n = ''_pad'' then to_le 4 (uint (key_pad k)) else [])"

definition key_bytes :: "cache_key \<Rightarrow> bytes" where
  "key_bytes k = struct_bytes user_cache_key (key_fields k)"

definition kernel_key :: "bytes \<Rightarrow> cache_key" where
  "kernel_key mem = \<lparr>name_hash = le_word (read_field kernel_cache_key ''name_hash'' mem),
     qtype_class = le_word (read_field kernel_cache_key ''qtype_class'' mem), key_pad = le_word (read_field kernel_cache_key ''_pad'' mem)\<rparr>"

definition value_fields :: "cache_value \<Rightarrow> string \<Rightarrow> bytes" where
  "value_fields v n = (
     if n = ''resp_data'' then resp_data v
     else if n = ''resp_len'' then to_le 2 (uint (resp_len v))
     else if n = ''flags'' then to_le 2 (uint (cv_flags v))
     else if n = ''_pad'' then to_le 4 (uint (cv_pad v))
     else if n = ''expires_at'' then to_le 8 (uint (expires_at v)) else [])"

definition value_bytes :: "cache_value \<Rightarrow> bytes" where
  "value_bytes v = struct_bytes user_cache_value (value_fields v)"

definition kernel_value :: "bytes \<Rightarrow> cache_value" where
  "kernel_value mem = \<lparr>resp_data = read_field kernel_cache_value ''resp_data'' mem,
     resp_len = le_word (read_field kernel_cache_value ''resp_len'' mem), cv_flags = le_word (read_field kernel_cache_value ''flags'' mem),
     cv_pad = le_word (read_field kernel_cache_value ''_pad'' mem), expires_at = le_word (read_field kernel_cache_value ''expires_at'' mem)\<rparr>"

definition config_fields :: "xdp_runtime_config \<Rightarrow> string \<Rightarrow> bytes" where
  "config_fields c n = (if n = ''dns_port'' then to_le 2 (uint (dns_port c)) else [])"

definition config_bytes :: "xdp_runtime_config \<Rightarrow> bytes" where
  "config_bytes c = struct_bytes user_runtime_config (config_fields c)"

definition kernel_config :: "bytes \<Rightarrow> xdp_runtime_config" where
  "kernel_config mem = \<lparr>dns_port = le_word (read_field kernel_runtime_config ''dns_port'' mem)\<rparr>"

definition stats_fields :: "xdp_stats \<Rightarrow> string \<Rightarrow> bytes" where
  "stats_fields s n = (
     if n = ''hit'' then to_le 8 (uint (hit s))
     else if n = ''negative_hit'' then to_le 8 (uint (negative_hit s))
     else if n = ''miss'' then to_le 8 (uint (miss s))
     else if n = ''expired'' then to_le 8 (uint (expired s))
     else if n = ''drop'' then to_le 8 (uint (drop_count s)) else [])"

definition kernel_stats_bytes :: "xdp_stats \<Rightarrow> bytes" where
  "kernel_stats_bytes s = struct_bytes kernel_stats (stats_fields s)"

definition user_read_stats :: "bytes \<Rightarrow> xdp_stats" where
  "user_read_stats mem = \<lparr>hit = le_word (read_field user_stats ''hit'' mem),
     negative_hit = le_word (read_field user_stats ''negative_hit'' mem), miss = le_word (read_field user_stats ''miss'' mem),
     expired = le_word (read_field user_stats ''expired'' mem), drop_count = le_word (read_field user_stats ''drop'' mem)\<rparr>"

lemma tables_agree:
  "user_cache_key = kernel_cache_key" "user_cache_value = kernel_cache_value" "user_runtime_config = kernel_runtime_config"
  "user_stats = kernel_stats"
  by (simp_all add: user_cache_key_def kernel_cache_key_def user_cache_value_def kernel_cache_value_def MAX_RESPONSE_SIZE_def
      user_runtime_config_def kernel_runtime_config_def user_stats_def kernel_stats_def)

lemmas table_defs = kernel_cache_key_def kernel_cache_value_def kernel_runtime_config_def kernel_stats_def fld_def

lemma length_write_fields:
  "fields_fit fs val \<Longrightarrow> length (write_fields off fs val) + off = foldl (\<lambda>off f. align_up (fd_align f) off + fd_size f) off fs"
proof (induction off fs val rule: write_fields.induct)
  case (2 off f fs val)
  then have "length (val (fd_name f)) = fd_size f" "off \<le> align_up (fd_align f) off" "fields_fit fs val"
    using align_up_ge by (auto simp: fields_fit_def)
  with 2(1) [OF refl] show ?case by (simp add: Let_def)
qed simp

lemma length_struct_bytes:
  assumes "fields_fit fs val" and "foldl (\<lambda>off f. align_up (fd_align f) off + fd_size f) 0 fs \<le> struct_size fs"
  shows "length (struct_bytes fs val) = struct_size fs"
  using length_write_fields [OF assms(1), of 0] assms(2) by (simp add: struct_bytes_def Let_def)

lemma values_fit:
  "fields_fit kernel_cache_key (key_fields k)" "cache_value_wf v \<Longrightarrow> fields_fit kernel_cache_value (value_fields v)"
  "fields_fit kernel_runtime_config (config_fields c)" "fields_fit kernel_stats (stats_fields s)"
  by (simp_all add: fields_fit_def table_defs key_fields_def value_fields_def config_fields_def stats_fields_def
      cache_value_wf_def MAX_RESPONSE_SIZE_def)

lemma table_sizes:
  "struct_size kernel_cache_key = 16" "struct_size kernel_cache_value = 528" "struct_size kernel_runtime_config = 2"
  "struct_size kernel_stats = 40"
  by code_simp+

lemma table_ends:
  "foldl (\<lambda>off f. align_up (fd_align f) off + fd_size f) 0 kernel_cache_key \<le> 16"
  "foldl (\<lambda>off f. align_up (fd_align f) off + fd_size f) 0 kernel_cache_value \<le> 528"
  "foldl (\<lambda>off f. align_up (fd_align f) off + fd_size f) 0 kernel_runtime_config \<le> 2"
  "foldl (\<lambda>off f. align_up (fd_align f) off + fd_size f) 0 kernel_stats \<le> 40"
  by code_simp+

lemma table_names:
  "fd_name ` set kernel_cache_key = {''name_hash'', ''qtype_class'', ''_pad''}"
  "fd_name ` set kernel_cache_value = {''resp_data'', ''resp_len'', ''flags'', ''_pad'', ''expires_at''}"
  "fd_name ` set kernel_runtime_config = {''dns_port''}"
  "fd_name ` set kernel_stats = {''hit'', ''negative_hit'', ''miss'', ''expired'', ''drop''}"
  by (simp_all add: table_defs)

text \<open>C6. The two hand-written copies of the map types are one layout: the memory userspace writes for a key, a value or the
  configuration, field by field where its own struct places each name, has the asserted size, and the kernel, which looks
  every name up in its own struct, reads from it exactly the values that were written; userspace reads the
  kernel's counters back the same way, and the negative flag is the same bit.\<close>

theorem map_layout_agrees:
  assumes "cache_value_wf v"
  shows "kernel_key (key_bytes k) = k \<and> length (key_bytes k) = 16 \<and>
    kernel_value (value_bytes v) = v \<and> length (value_bytes v) = 528 \<and>
    kernel_config (config_bytes c) = c \<and> length (config_bytes c) = 2 \<and>
    user_read_stats (kernel_stats_bytes s) = s \<and> length (kernel_stats_bytes s) = 40 \<and>
    kernel_FLAG_NEGATIVE = FLAG_NEGATIVE"
proof -
  note fit = values_fit(1) values_fit(2) [OF assms] values_fit(3,4)
  note read = fit [THEN read_field_struct_bytes]
  have "kernel_key (key_bytes k) = k"
    by (simp add: kernel_key_def key_bytes_def tables_agree(1) read(1) table_names, simp add: key_fields_def)
  moreover have "kernel_value (value_bytes v) = v"
    by (simp add: kernel_value_def value_bytes_def tables_agree(2) read(2) table_names, simp add: value_fields_def)
  moreover have "kernel_config (config_bytes c) = c"
    by (simp add: kernel_config_def config_bytes_def tables_agree(3) read(3) table_names, simp add: config_fields_def)
  moreover have "user_read_stats (kernel_stats_bytes s) = s"
    by (simp add: user_read_stats_def kernel_stats_bytes_def tables_agree(4) read(4) table_names, simp add: stats_fields_def)
  moreover have "length (key_bytes k) = 16" "length (value_bytes v) = 528" "length (config_bytes c) = 2" "length (kernel_stats_bytes s) = 40"
    unfolding key_bytes_def value_bytes_def config_bytes_def kernel_stats_bytes_def tables_agree
    by (subst length_struct_bytes; simp add: fit table_sizes table_ends)+
  ultimately show ?thesis by (simp add: kernel_FLAG_NEGATIVE_def FLAG_NEGATIVE_def)
qed

theorem map_layout_agrees_witness:
  "kernel_value (value_bytes (new_negative [1, 2, 3] 77)) = new_negative [1, 2, 3] 77 \<and>
   length (value_bytes (new_negative [1, 2, 3] 77)) = 528"
  using map_layout_agrees [of "new_negative [1, 2, 3] 77"] by (simp add: new_negative_def)

end
