(* ===== verification/Xdp_Build.thy ===== *)
theory Xdp_Build
  imports Xdp_Types
begin

text \<open>
  Two small parts around the eBPF object: its build script (\<open>crates/doggy-dns-xdp/build.rs\<close>), which decides
  whether the object embedded into the binary is out of date, and the bridge that forwards the kernel's log
  records (\<open>src/kernel_log/bridge.rs\<close>). Files are trees with modification times; cargo and the log
  decoder are arguments.
\<close>

section \<open>The build script\<close>

text \<open>\<^term>\<open>None\<close> is a time or metadata that cannot be read. A directory that cannot be listed has no entries.\<close>

datatype node = File "int option" | Dir "int option" "node list"

fun last_modified :: "node \<Rightarrow> int option" where
  "last_modified (File t) = t"
| "last_modified (Dir t entries) = (case t of
       None \<Rightarrow> None
     | Some newest \<Rightarrow> Some (fold (\<lambda>found newest. case found of Some time \<Rightarrow> max newest time | None \<Rightarrow> newest)
         (map last_modified entries) newest))"

record elf_file =
  elf_len :: nat
  elf_time :: "int option"

definition needs_rebuild :: "elf_file option \<Rightarrow> node option list \<Rightarrow> bool" where
  "needs_rebuild elf inputs = (case elf of
       None \<Rightarrow> True
     | Some m \<Rightarrow>
         if elf_len m = 0 then True
         else (case elf_time m of
                 None \<Rightarrow> True
               | Some t \<Rightarrow> list_ex (\<lambda>i. case Option.bind i last_modified of Some x \<Rightarrow> x > t | None \<Rightarrow> False) inputs))"

datatype build_note = Warn_stale | Warn_skipped

text \<open>\<open>built\<close> is the object a successful cargo run leaves, \<^term>\<open>None\<close> for a run that fails or cannot start; \<open>placeholder_time\<close> is
  the clock when the empty stand-in is written.\<close>

definition build_main ::
  "elf_file option \<Rightarrow> node option list \<Rightarrow> elf_file option \<Rightarrow> int option \<Rightarrow> elf_file option \<times> build_note list" where
  "build_main elf inputs built placeholder_time =
     (if needs_rebuild elf inputs then
        (case built of
           Some new \<Rightarrow> (Some new, [])
         | None \<Rightarrow>
             if (case elf of Some m \<Rightarrow> elf_len m > 0 | None \<Rightarrow> False) then (elf, [Warn_stale])
             else (Some \<lparr>elf_len = 0, elf_time = placeholder_time\<rparr>, [Warn_skipped]))
      else (elf, []))"

text \<open>The times the script can see: those of the entries below directories whose own time is readable.\<close>

fun visible_times :: "node \<Rightarrow> int set" where
  "visible_times (File t) = set_option t"
| "visible_times (Dir t entries) = (case t of None \<Rightarrow> {} | Some x \<Rightarrow> insert x (\<Union>e \<in> set entries. visible_times e))"

lemma fold_newest:
  "fold (\<lambda>found newest. case found of Some time \<Rightarrow> max newest time | None \<Rightarrow> newest) xs (n :: int) \<le> t \<longleftrightarrow>
     n \<le> t \<and> (\<forall>x. Some x \<in> set xs \<longrightarrow> x \<le> t)"
  by (induction xs arbitrary: n) (auto split: option.splits)

lemma last_modified_bound:
  "(case last_modified n of Some x \<Rightarrow> x \<le> t | None \<Rightarrow> True) \<longleftrightarrow> (\<forall>x \<in> visible_times n. x \<le> t)"
proof (induction n)
  case (Dir d entries)
  have "(\<forall>x. Some x \<in> last_modified ` set entries \<longrightarrow> x \<le> t) \<longleftrightarrow>
      (\<forall>e \<in> set entries. case last_modified e of Some x \<Rightarrow> x \<le> t | None \<Rightarrow> True)"
    by (auto simp: image_iff split: option.splits) metis
  also have "\<dots> \<longleftrightarrow> (\<forall>e \<in> set entries. \<forall>y \<in> visible_times e. y \<le> t)" using Dir by simp
  finally show ?case by (cases d) (simp_all add: fold_newest)
qed (simp split: option.splits)

text \<open>The object is kept exactly when it is there, not the empty stand-in, and no input the script can see is newer; and a
  failed build never replaces a usable object by the stand-in.\<close>

theorem needs_rebuild_iff:
  "(\<not> needs_rebuild elf inputs \<longleftrightarrow> (\<exists>m t. elf = Some m \<and> elf_len m \<noteq> 0 \<and> elf_time m = Some t \<and>
      (\<forall>n. Some n \<in> set inputs \<longrightarrow> (\<forall>x \<in> visible_times n. x \<le> t)))) \<and>
   (elf = Some m \<and> 0 < elf_len m \<and> (\<forall>new. built = Some new \<longrightarrow> 0 < elf_len new) \<longrightarrow>
      (\<exists>m'. fst (build_main elf inputs built now) = Some m' \<and> 0 < elf_len m'))"
proof -
  have ex: "list_ex (\<lambda>i. case Option.bind i last_modified of Some x \<Rightarrow> x > t | None \<Rightarrow> False) inputs \<longleftrightarrow>
      \<not> (\<forall>n. Some n \<in> set inputs \<longrightarrow> (\<forall>x \<in> visible_times n. x \<le> t))" for t
  proof -
    have "(case Option.bind i last_modified of Some x \<Rightarrow> x > t | None \<Rightarrow> False) \<longleftrightarrow>
        (\<exists>n. i = Some n \<and> \<not> (\<forall>x \<in> visible_times n. x \<le> t))" for i
      unfolding last_modified_bound [symmetric] by (cases i) (auto split: option.splits)
    then show ?thesis by (auto simp: list_ex_iff)
  qed
  show ?thesis
    by (cases elf) (auto simp: needs_rebuild_def ex build_main_def split: option.splits)
qed

section \<open>The log bridge\<close>

datatype log_level = Error | Warn | Info | Debug | Trace

record log_record =
  lr_level :: log_level
  lr_target :: string
  lr_args :: string

record tracing_event =
  te_level :: log_level
  te_target :: string
  te_message :: string

definition tracing_log_enabled :: "'m \<Rightarrow> bool" where
  "tracing_log_enabled metadata = True"

definition tracing_log :: "log_record \<Rightarrow> tracing_event" where
  "tracing_log r = \<lparr>te_level = lr_level r, te_target = ''doggy_dns_xdp::kernel'', te_message = lr_target r @ '': '' @ lr_args r\<rparr>"

datatype drain_note = Forwarded tracing_event | Warn_register | Warn_read

text \<open>One entry for each time the task waits for the ring: the records found there, or \<^term>\<open>None\<close> for a failed wait. The result says
  whether the task has returned.\<close>

fun log_drain :: "log_record list option list \<Rightarrow> drain_note list \<times> bool" where
  "log_drain [] = ([], False)"
| "log_drain (None # waits) = ([Warn_read], True)"
| "log_drain (Some recs # waits) = (case log_drain waits of (notes, ended) \<Rightarrow> (map (Forwarded \<circ> tracing_log) recs @ notes, ended))"

definition spawn_log_flush :: "bool \<Rightarrow> log_record list option list \<Rightarrow> drain_note list \<times> bool" where
  "spawn_log_flush registered waits = (if registered then log_drain waits else ([Warn_register], True))"

text \<open>Every record that was in the ring before a wait failed is forwarded once, in order, under its own level; the task ends
  with the first failed wait, after one warning.\<close>

lemma log_drain_spec:
  "log_drain (map Some batches @ None # rest) = (map (Forwarded \<circ> tracing_log) (concat batches) @ [Warn_read], True)"
  "log_drain (map Some batches) = (map (Forwarded \<circ> tracing_log) (concat batches), False)"
  by (induction batches) simp_all

end
