(* ===== verification/Xdp_Stats.thy ===== *)
theory Xdp_Stats
  imports Xdp_Types
begin

text \<open>
  The counters the XDP program keeps, read and reported by userspace
  (\<open>crates/doggy-dns-xdp/src/stats.rs\<close>, \<open>stats/reader.rs\<close>): the difference of two snapshots, the sum
  over CPUs and the periodic poller. The poller is a step function over what its loop observes: a
  tick with the result of the map read, or the stop signal with the result of the last read.
\<close>

section \<open>Deltas\<close>

record xdp_stats_delta =
  d_hit :: u64
  d_negative_hit :: u64
  d_miss :: u64
  d_expired :: u64
  d_drop :: u64
  d_reset :: bool

definition entries :: "xdp_stats_delta \<Rightarrow> (string \<times> u64) list" where
  "entries d = filter (\<lambda>(_, count). count > 0)
     [(''hit'', d_hit d), (''negative_hit'', d_negative_hit d), (''miss'', d_miss d),
      (''expired'', d_expired d), (''drop'', d_drop d)]"

definition delta_step :: "u64 \<Rightarrow> u64 \<Rightarrow> u64 \<times> bool" where
  "delta_step current previous =
     (if current \<ge> previous then (current - previous, False) else (current, True))"

definition delta_from :: "xdp_stats \<Rightarrow> xdp_stats \<Rightarrow> xdp_stats_delta" where
  "delta_from self previous =
     (let (h, h_reset) = delta_step (hit self) (hit previous);
          (n, n_reset) = delta_step (negative_hit self) (negative_hit previous);
          (m, m_reset) = delta_step (miss self) (miss previous);
          (e, e_reset) = delta_step (expired self) (expired previous);
          (d, d_reset) = delta_step (drop_count self) (drop_count previous)
      in \<lparr>d_hit = h, d_negative_hit = n, d_miss = m, d_expired = e, d_drop = d,
          d_reset = h_reset \<or> n_reset \<or> m_reset \<or> e_reset \<or> d_reset\<rparr>)"

text \<open>The new baseline and the calls made to the sink; the debug line on a reset is the flag.\<close>

definition emit_delta :: "xdp_stats \<Rightarrow> xdp_stats \<Rightarrow> xdp_stats \<times> (string \<times> u64) list \<times> bool" where
  "emit_delta previous current =
     (let delta = delta_from current previous in (current, entries delta, d_reset delta))"

section \<open>Snapshots and the poller\<close>

definition add_slot :: "xdp_stats \<Rightarrow> xdp_stats \<Rightarrow> xdp_stats" where
  "add_slot acc v =
     \<lparr>hit = hit acc + hit v, negative_hit = negative_hit acc + negative_hit v,
      miss = miss acc + miss v, expired = expired acc + expired v,
      drop_count = drop_count acc + drop_count v\<rparr>"

text \<open>\<^term>\<open>None\<close> is a failed read of the map, \<open>Some slots\<close> one value per CPU.\<close>

definition snapshot :: "xdp_stats list option \<Rightarrow> xdp_stats option" where
  "snapshot values = map_option (foldl add_slot zero_stats) values"

datatype poll_log = Reset_debug | Read_failed_warn | Read_failed_debug

record poller =
  previous :: xdp_stats
  warned :: bool
  sunk :: "(string \<times> u64) list"
  poll_logs :: "poll_log list"

definition poller_init :: poller where
  "poller_init = \<lparr>previous = zero_stats, warned = False, sunk = [], poll_logs = []\<rparr>"

definition poller_emit :: "xdp_stats \<Rightarrow> poller \<Rightarrow> poller" where
  "poller_emit current p =
     (let (prev', calls, reset) = emit_delta (previous p) current
      in p\<lparr>previous := prev', sunk := sunk p @ calls,
           poll_logs := poll_logs p @ (if reset then [Reset_debug] else [])\<rparr>)"

definition poller_tick :: "xdp_stats list option \<Rightarrow> poller \<Rightarrow> poller" where
  "poller_tick values p = (case snapshot values of
       Some current \<Rightarrow> poller_emit current (p\<lparr>warned := False\<rparr>)
     | None \<Rightarrow> if warned p then p\<lparr>poll_logs := poll_logs p @ [Read_failed_debug]\<rparr>
               else p\<lparr>poll_logs := poll_logs p @ [Read_failed_warn], warned := True\<rparr>)"

definition poller_stop :: "xdp_stats list option \<Rightarrow> poller \<Rightarrow> poller" where
  "poller_stop values p = (case snapshot values of
       Some current \<Rightarrow> poller_emit current p
     | None \<Rightarrow> p)"

text \<open>The whole task: the reads of its ticks, in order, and the read after the stop signal.\<close>

definition stats_poller :: "xdp_stats list option list \<Rightarrow> xdp_stats list option \<Rightarrow> poller" where
  "stats_poller ticks final = poller_stop final (fold poller_tick ticks poller_init)"

section \<open>Nothing is lost or counted twice\<close>

text \<open>What the sink was told under one label in total.\<close>

definition sunk_total :: "string \<Rightarrow> (string \<times> u64) list \<Rightarrow> nat" where
  "sunk_total l calls = (\<Sum>(k, c) \<leftarrow> calls. if k = l then unat c else 0)"

text \<open>What the CPUs have counted together in the slots of one read, without wrap-around.\<close>

definition cpu_sum :: "(xdp_stats \<Rightarrow> u64) \<Rightarrow> xdp_stats list \<Rightarrow> nat" where
  "cpu_sum get slots = (\<Sum>s \<leftarrow> slots. unat (get s))"

text \<open>The slots of the successful reads, in order.\<close>

definition slot_reads :: "xdp_stats list option list \<Rightarrow> xdp_stats list list" where
  "slot_reads reads = List.map_filter id reads"

lemma cpu_sum_mono: "list_all2 (\<lambda>x y. get x \<le> get y) xs ys \<Longrightarrow> cpu_sum get xs \<le> cpu_sum get ys"
  by (induction rule: list_all2_induct) (simp_all add: cpu_sum_def word_le_nat_alt add_mono)

lemma snapshots_of_slots: "List.map_filter snapshot reads = map (foldl add_slot zero_stats) (slot_reads reads)"
  by (induction reads) (auto simp: slot_reads_def snapshot_def map_filter_simps split: option.splits)

lemma sunk_total_append [simp]: "sunk_total l (xs @ ys) = sunk_total l xs + sunk_total l ys"
  by (simp add: sunk_total_def)

text \<open>The contract of one counter: its field, its label, and that \<open>entries\<close> reports exactly its
  step. The five counters are five interpretations.\<close>

locale counter =
  fixes get :: "xdp_stats \<Rightarrow> u64" and label :: string
  assumes reported: "sunk_total label (entries (delta_from c p)) = unat (fst (delta_step (get c) (get p)))"
    and zero: "get zero_stats = 0"
    and adds: "get (add_slot a b) = get a + get b"
begin

lemma get_total: "get (foldl add_slot a slots) = get a + of_nat (cpu_sum get slots)"
  by (induction slots arbitrary: a) (simp_all add: cpu_sum_def adds add.assoc)

lemma unat_total: "cpu_sum get slots < 2 ^ 64 \<Longrightarrow> unat (get (foldl add_slot zero_stats slots)) = cpu_sum get slots"
  by (simp add: get_total zero unat_of_nat)

lemma emit_monotone:
  "get (previous p) \<le> get c \<Longrightarrow> sunk_total label (sunk (poller_emit c p)) + unat (get (previous p)) = sunk_total label (sunk p) + unat (get c)"
  by (simp add: poller_emit_def emit_delta_def Let_def reported delta_step_def unat_sub word_le_nat_alt)

lemma emit_reset:
  "get c < get (previous p) \<Longrightarrow> sunk_total label (sunk (poller_emit c p)) = sunk_total label (sunk p) + unat (get c)"
  by (simp add: poller_emit_def emit_delta_def Let_def reported delta_step_def linorder_not_le [symmetric])

lemma previous_emit [simp]: "previous (poller_emit c p) = c"
  by (simp add: poller_emit_def emit_delta_def Let_def)

text \<open>The invariant: with non-decreasing reads, the sink has been told exactly the last read value.\<close>

lemma emit_inv:
  assumes "sunk_total label (sunk p) = unat (get (previous p))" and "get (previous p) \<le> get c"
  shows "sunk_total label (sunk (poller_emit c p)) = unat (get (previous (poller_emit c p)))"
  using emit_monotone [OF assms(2)] assms(1) by simp

lemma ticks_inv:
  assumes "sorted (map get (previous p # List.map_filter snapshot ticks))"
    and "sunk_total label (sunk p) = unat (get (previous p))"
  shows "sunk_total label (sunk (fold poller_tick ticks p)) = unat (get (previous (fold poller_tick ticks p))) \<and>
         previous (fold poller_tick ticks p) = last (previous p # List.map_filter snapshot ticks)"
  using assms
proof (induction ticks arbitrary: p)
  case Nil
  then show ?case by (simp add: map_filter_def)
next
  case (Cons t ticks)
  show ?case
  proof (cases "snapshot t")
    case None
    then have "previous (poller_tick t p) = previous p" "sunk_total label (sunk (poller_tick t p)) = sunk_total label (sunk p)"
      by (simp_all add: poller_tick_def)
    with Cons(1) [of "poller_tick t p"] Cons(2,3) None show ?thesis by (simp add: map_filter_simps)
  next
    case (Some c)
    let ?p = "poller_tick t p"
    have p: "?p = poller_emit c (p\<lparr>warned := False\<rparr>)" using Some by (simp add: poller_tick_def)
    have "get (previous p) \<le> get c" using Cons(2) Some by (simp add: map_filter_simps)
    then have "sunk_total label (sunk ?p) = unat (get (previous ?p))" unfolding p using Cons(3) by (intro emit_inv) auto
    moreover have "previous ?p = c" by (simp add: p)
    ultimately show ?thesis using Cons(1) [of ?p] Cons(2) Some by (simp add: map_filter_simps)
  qed
qed

lemma poller_exact:
  assumes "sorted (map get (zero_stats # List.map_filter snapshot (ticks @ [final])))"
  shows "sunk_total label (sunk (stats_poller ticks final)) = unat (get (last (zero_stats # List.map_filter snapshot (ticks @ [final]))))"
proof -
  have f: "List.map_filter snapshot (ticks @ [final]) = List.map_filter snapshot ticks @ List.map_filter snapshot [final]"
    by (simp add: map_filter_def)
  let ?p = "fold poller_tick ticks poller_init"
  have init: "previous poller_init = zero_stats" "sunk_total label (sunk poller_init) = unat (get zero_stats)"
    by (simp_all add: poller_init_def sunk_total_def zero)
  have s: "sorted (map get (previous poller_init # List.map_filter snapshot ticks))"
    using assms by (simp add: f init sorted_append)
  have p: "sunk_total label (sunk ?p) = unat (get (previous ?p))"
    "previous ?p = last (zero_stats # List.map_filter snapshot ticks)"
    using ticks_inv [OF s] init by simp_all
  show ?thesis
  proof (cases "snapshot final")
    case None
    then show ?thesis using p by (simp add: stats_poller_def poller_stop_def f map_filter_simps)
  next
    case (Some c)
    have "get (previous ?p) \<le> get c"
      using assms Some by (auto simp: p(2) f map_filter_simps sorted_append)
    from emit_inv [OF p(1) this] Some show ?thesis
      by (simp add: stats_poller_def poller_stop_def f map_filter_simps)
  qed
qed

lemma reads_grow:
  assumes "sorted_wrt (list_all2 (\<lambda>x y. get x \<le> get y)) reads" and "reads = [] \<or> cpu_sum get (last reads) < 2 ^ 64"
  shows "sorted (map get (zero_stats # map (foldl add_slot zero_stats) reads))"
proof -
  have "cpu_sum get x \<le> cpu_sum get (last reads)" if "x \<in> set reads" for x
    using that assms(1) by (cases reads rule: rev_cases) (auto simp: sorted_wrt_append intro: cpu_sum_mono)
  with assms(2) have fits: "cpu_sum get x < 2 ^ 64" if "x \<in> set reads" for x
    using that by (cases "reads = []") (auto intro: le_less_trans)
  have "sorted_wrt (\<lambda>x y. get (foldl add_slot zero_stats x) \<le> get (foldl add_slot zero_stats y)) reads"
    using sorted_wrt_mono_rel [OF _ assms(1), of "\<lambda>x y. get (foldl add_slot zero_stats x) \<le> get (foldl add_slot zero_stats y)"]
      fits cpu_sum_mono by (auto simp: word_le_nat_alt unat_total)
  then show ?thesis by (simp add: sorted_map sorted_wrt_map zero)
qed

lemma poller_sum:
  assumes "sorted_wrt (list_all2 (\<lambda>x y. get x \<le> get y)) (slot_reads (ticks @ [final]))"
    and "cpu_sum get (last ([] # slot_reads (ticks @ [final]))) < 2 ^ 64"
  shows "sunk_total label (sunk (stats_poller ticks final)) = cpu_sum get (last ([] # slot_reads (ticks @ [final])))"
proof -
  let ?rs = "slot_reads (ticks @ [final])"
  have "sorted (map get (zero_stats # map (foldl add_slot zero_stats) ?rs))"
    by (rule reads_grow [OF assms(1)]) (use assms(2) in \<open>auto split: if_splits\<close>)
  then have "sunk_total label (sunk (stats_poller ticks final)) = unat (get (last (zero_stats # map (foldl add_slot zero_stats) ?rs)))"
    using poller_exact [of ticks final] by (simp only: snapshots_of_slots)
  also have "last (zero_stats # map (foldl add_slot zero_stats) ?rs) = foldl add_slot zero_stats (last ([] # ?rs))"
    by (simp add: last_map)
  finally show ?thesis using assms(2) by (simp add: unat_total)
qed

end

lemma sunk_total_entries:
  "sunk_total l (entries d) =
     (if l = ''hit'' then unat (d_hit d) else if l = ''negative_hit'' then unat (d_negative_hit d)
      else if l = ''miss'' then unat (d_miss d) else if l = ''expired'' then unat (d_expired d)
      else if l = ''drop'' then unat (d_drop d) else 0)"
  by (auto simp: sunk_total_def entries_def word_gt_0)

lemma delta_from_fields:
  "d_hit (delta_from c p) = fst (delta_step (hit c) (hit p))"
  "d_negative_hit (delta_from c p) = fst (delta_step (negative_hit c) (negative_hit p))"
  "d_miss (delta_from c p) = fst (delta_step (miss c) (miss p))"
  "d_expired (delta_from c p) = fst (delta_step (expired c) (expired p))"
  "d_drop (delta_from c p) = fst (delta_step (drop_count c) (drop_count p))"
  by (simp_all add: delta_from_def Let_def split: prod.splits)

interpretation hit_counter: counter hit "''hit''"
  by unfold_locales (simp_all add: sunk_total_entries delta_from_fields zero_stats_def add_slot_def)

interpretation negative_counter: counter negative_hit "''negative_hit''"
  by unfold_locales (simp_all add: sunk_total_entries delta_from_fields zero_stats_def add_slot_def)

interpretation miss_counter: counter miss "''miss''"
  by unfold_locales (simp_all add: sunk_total_entries delta_from_fields zero_stats_def add_slot_def)

interpretation expired_counter: counter expired "''expired''"
  by unfold_locales (simp_all add: sunk_total_entries delta_from_fields zero_stats_def add_slot_def)

interpretation drop_counter: counter drop_count "''drop''"
  by unfold_locales (simp_all add: sunk_total_entries delta_from_fields zero_stats_def add_slot_def)


section \<open>Properties\<close>

text \<open>No counter of a CPU has gone back from one read to another.\<close>

definition slots_grow :: "xdp_stats list \<Rightarrow> xdp_stats list \<Rightarrow> bool" where
  "slots_grow = list_all2 (\<lambda>x y. hit x \<le> hit y \<and> negative_hit x \<le> negative_hit y \<and> miss x \<le> miss y \<and> expired x \<le> expired y \<and>
     drop_count x \<le> drop_count y)"

text \<open>C32. The poller reports every event up to its last successful read exactly once. Take what it read from the map, one slot
  for each CPU, with counters that never go back and totals below 2 to the 64. Whatever reads failed in
  between, the total reported under each label when the task ends is the sum of that counter over all CPUs in the
  last successful read. A failed window is made up by the next successful read; what the kernel counts after the last
  successful one is not reported.\<close>

theorem poller_reports_exactly:
  fixes ticks final
  defines "slots \<equiv> last ([] # slot_reads (ticks @ [final]))"
  assumes "sorted_wrt slots_grow (slot_reads (ticks @ [final]))"
    and "\<forall>get \<in> {hit, negative_hit, miss, expired, drop_count}. (\<Sum>s \<leftarrow> slots. unat (get s)) < 2 ^ 64"
  shows "sunk_total ''hit'' (sunk (stats_poller ticks final)) = (\<Sum>s \<leftarrow> slots. unat (hit s)) \<and>
     sunk_total ''negative_hit'' (sunk (stats_poller ticks final)) = (\<Sum>s \<leftarrow> slots. unat (negative_hit s)) \<and>
     sunk_total ''miss'' (sunk (stats_poller ticks final)) = (\<Sum>s \<leftarrow> slots. unat (miss s)) \<and>
     sunk_total ''expired'' (sunk (stats_poller ticks final)) = (\<Sum>s \<leftarrow> slots. unat (expired s)) \<and>
     sunk_total ''drop'' (sunk (stats_poller ticks final)) = (\<Sum>s \<leftarrow> slots. unat (drop_count s))"
proof -
  have g: "sorted_wrt (list_all2 (\<lambda>x y. get x \<le> get y)) (slot_reads (ticks @ [final]))"
    if "get \<in> {hit, negative_hit, miss, expired, drop_count}" for get
    by (rule sorted_wrt_mono_rel [OF _ assms(2)]) (use that in \<open>auto simp: slots_grow_def elim!: list_all2_mono\<close>)
  show ?thesis
    using assms(3) unfolding slots_def cpu_sum_def [symmetric]
    by (intro conjI hit_counter.poller_sum negative_counter.poller_sum miss_counter.poller_sum
        expired_counter.poller_sum drop_counter.poller_sum g) simp_all
qed

theorem poller_reports_exactly_witness:
  "let s1 = zero_stats\<lparr>hit := 3\<rparr>; s2 = zero_stats\<lparr>hit := 5, miss := 2\<rparr>;
       p = stats_poller [Some [s1, zero_stats], None, Some [s1, s1]] (Some [s2, s2])
   in sunk_total ''hit'' (sunk p) = 10 \<and> sunk_total ''miss'' (sunk p) = 4"
  using poller_reports_exactly [of "[Some [zero_stats\<lparr>hit := 3\<rparr>, zero_stats], None, Some [zero_stats\<lparr>hit := 3\<rparr>, zero_stats\<lparr>hit := 3\<rparr>]]"
      "Some [zero_stats\<lparr>hit := 5, miss := 2\<rparr>, zero_stats\<lparr>hit := 5, miss := 2\<rparr>]"]
  by (simp add: slot_reads_def slots_grow_def map_filter_simps zero_stats_def Let_def)

text \<open>A delta flags a reset exactly when some counter went backwards, and then that counter's
  delta is its new value; no reported delta ever underflows: it never exceeds the value read.\<close>

theorem delta_from_reset:
  "d_reset (delta_from c p) =
     (hit c < hit p \<or> negative_hit c < negative_hit p \<or> miss c < miss p \<or> expired c < expired p \<or>
      drop_count c < drop_count p) \<and>
   list_all (\<lambda>(get, dget). unat (dget (delta_from c p)) =
        (if get p \<le> get c then unat (get c) - unat (get p) else unat (get c)))
     [(hit, d_hit), (negative_hit, d_negative_hit), (miss, d_miss), (expired, d_expired), (drop_count, d_drop)]"
proof
  show "d_reset (delta_from c p) =
     (hit c < hit p \<or> negative_hit c < negative_hit p \<or> miss c < miss p \<or> expired c < expired p \<or>
      drop_count c < drop_count p)"
    by (simp add: delta_from_def delta_step_def Let_def linorder_not_le [symmetric])
qed (auto simp: delta_from_fields delta_step_def unat_sub)

end
