(* ===== verification/Rust_Str.thy ===== *)
theory Rust_Str
  imports Prelude
begin

text \<open>
  The parts of Rust's string library the sources use, on strings as their UTF-8 bytes: trimming and
  splitting at Unicode white space, lines, ASCII case, prefixes and decimal numbers.
\<close>

section \<open>Characters\<close>

abbreviation cc :: "char \<Rightarrow> nat" where
  "cc c \<equiv> of_char c"

definition lower_char :: "char \<Rightarrow> char" where
  "lower_char c = (if 65 \<le> cc c \<and> cc c \<le> 90 then char_of (cc c + 32) else c)"

definition to_lower :: "string \<Rightarrow> string" where
  "to_lower s = map lower_char s"

text \<open>The length of the white-space character a string starts with, 0 if it starts with none: the
  ASCII ones, U+0085, U+00A0, U+1680, U+2000 to U+200A, U+2028, U+2029, U+202F, U+205F, U+3000.\<close>

definition ws1 :: "char \<Rightarrow> bool" where
  "ws1 a = (cc a = 32 \<or> (9 \<le> cc a \<and> cc a \<le> 13))"

definition ws2 :: "char \<Rightarrow> char \<Rightarrow> bool" where
  "ws2 a b = (cc a = 0xC2 \<and> (cc b = 0x85 \<or> cc b = 0xA0))"

definition ws3 :: "char \<Rightarrow> char \<Rightarrow> char \<Rightarrow> bool" where
  "ws3 a b c =
     ((cc a = 0xE1 \<and> cc b = 0x9A \<and> cc c = 0x80) \<or>
      (cc a = 0xE2 \<and> cc b = 0x80 \<and> ((0x80 \<le> cc c \<and> cc c \<le> 0x8A) \<or> cc c = 0xA8 \<or> cc c = 0xA9 \<or> cc c = 0xAF)) \<or>
      (cc a = 0xE2 \<and> cc b = 0x81 \<and> cc c = 0x9F) \<or> (cc a = 0xE3 \<and> cc b = 0x80 \<and> cc c = 0x80))"

fun ws_len :: "string \<Rightarrow> nat" where
  "ws_len [] = 0"
| "ws_len [a] = (if ws1 a then 1 else 0)"
| "ws_len [a, b] = (if ws1 a then 1 else if ws2 a b then 2 else 0)"
| "ws_len (a # b # c # s) = (if ws1 a then 1 else if ws2 a b then 2 else if ws3 a b c then 3 else 0)"

lemma ws_len_le: "ws_len s \<le> length s"
  by (cases s rule: ws_len.cases) auto

section \<open>UTF-8\<close>

text \<open>\<open>str::from_utf8\<close>: well-formed UTF-8 (no overlong forms, no surrogates, at most U+10FFFF).\<close>

definition cont :: "u8 \<Rightarrow> bool" where
  "cont b = (0x80 \<le> b \<and> b \<le> 0xBF)"

fun utf8_valid :: "bytes \<Rightarrow> bool" where
  "utf8_valid [] = True"
| "utf8_valid (a # r) =
     (if a < 0x80 then utf8_valid r
      else if 0xC2 \<le> a \<and> a \<le> 0xDF then
        (case r of b # r1 \<Rightarrow> cont b \<and> utf8_valid r1 | _ \<Rightarrow> False)
      else if 0xE0 \<le> a \<and> a \<le> 0xEF then
        (case r of b # c # r2 \<Rightarrow>
             (if a = 0xE0 then 0xA0 \<le> b \<and> b \<le> 0xBF else if a = 0xED then 0x80 \<le> b \<and> b \<le> 0x9F else cont b) \<and>
             cont c \<and> utf8_valid r2
         | _ \<Rightarrow> False)
      else if 0xF0 \<le> a \<and> a \<le> 0xF4 then
        (case r of b # c # d # r3 \<Rightarrow>
             (if a = 0xF0 then 0x90 \<le> b \<and> b \<le> 0xBF else if a = 0xF4 then 0x80 \<le> b \<and> b \<le> 0x8F else cont b) \<and>
             cont c \<and> cont d \<and> utf8_valid r3
         | _ \<Rightarrow> False)
      else False)"

section \<open>Trimming and splitting\<close>

function trim_start :: "string \<Rightarrow> string" where
  "trim_start s = (if ws_len s = 0 then s else trim_start (drop (ws_len s) s))"
  by pat_completeness auto
termination
proof (relation "measure length")
  fix s :: string
  assume "ws_len s \<noteq> 0"
  with ws_len_le [of s] show "(drop (ws_len s) s, s) \<in> measure length" by (cases s) auto
qed simp

declare trim_start.simps [simp del]

definition ws_len_end :: "string \<Rightarrow> nat" where
  "ws_len_end s =
     (if 1 \<le> length s \<and> ws_len (drop (length s - 1) s) = 1 then 1
      else if 2 \<le> length s \<and> ws_len (drop (length s - 2) s) = 2 then 2
      else if 3 \<le> length s \<and> ws_len (drop (length s - 3) s) = 3 then 3 else 0)"

function trim_end :: "string \<Rightarrow> string" where
  "trim_end s = (if ws_len_end s = 0 then s else trim_end (take (length s - ws_len_end s) s))"
  by pat_completeness auto
termination
  by (relation "measure length") (auto simp: ws_len_end_def split: if_splits)

declare trim_end.simps [simp del]

definition trim :: "string \<Rightarrow> string" where
  "trim s = trim_end (trim_start s)"

fun word_span :: "string \<Rightarrow> string \<times> string" where
  "word_span [] = ([], [])"
| "word_span (c # s) =
     (if ws_len (c # s) > 0 then ([], c # s) else let (w, r) = word_span s in (c # w, r))"

lemma word_span_length: "word_span s = (w, r) \<Longrightarrow> length w + length r = length s"
  by (induction s arbitrary: w r) (auto split: if_splits prod.splits)

lemma trim_start_length: "length (trim_start s) \<le> length s"
proof (induction s rule: trim_start.induct)
  case (1 s)
  then show ?case by (cases "ws_len s = 0") (auto simp: trim_start.simps [of s])
qed

lemma trim_start_ws: "ws_len (trim_start s) = 0"
proof (induction s rule: trim_start.induct)
  case (1 s)
  then show ?case by (cases "ws_len s = 0") (auto simp: trim_start.simps [of s])
qed

lemma word_span_nonempty: "s \<noteq> [] \<Longrightarrow> ws_len s = 0 \<Longrightarrow> fst (word_span s) \<noteq> []"
  by (cases s) (auto split: prod.splits)

function split_whitespace :: "string \<Rightarrow> string list" where
  "split_whitespace s =
     (let t = trim_start s in
      if t = [] then [] else let (w, r) = word_span t in w # split_whitespace r)"
  by pat_completeness auto
termination
proof (relation "measure length")
  fix s t p w r
  assume "t = trim_start s" "t \<noteq> []" "p = word_span t" "(w, r) = p"
  then have "length w + length r = length t" "w \<noteq> []"
    using word_span_length [of t w r] word_span_nonempty [of t] trim_start_ws [of s] by (auto dest: sym)
  then have "length r < length t" by (cases w) auto
  with trim_start_length [of s] \<open>t = trim_start s\<close> show "(r, s) \<in> measure length"
    by simp
qed simp

declare split_whitespace.simps [simp del]

text \<open>\<open>str::split\<close> at one character: one more piece than there are separators.\<close>

fun split_on :: "char \<Rightarrow> string \<Rightarrow> string list" where
  "split_on sep [] = [[]]"
| "split_on sep (c # s) =
     (if c = sep then [] # split_on sep s
      else case split_on sep s of [] \<Rightarrow> [[c]] | p # ps \<Rightarrow> (c # p) # ps)"

lemma split_on_nonempty [simp]: "split_on sep s \<noteq> []"
  by (induction s) (auto split: list.splits)

definition strip_cr :: "string \<Rightarrow> string" where
  "strip_cr l = (if l \<noteq> [] \<and> last l = CHR 0x0D then butlast l else l)"

definition lines :: "string \<Rightarrow> string list" where
  "lines s = (let ps = split_on (CHR 0x0A) s in
     map strip_cr (butlast ps) @ (if last ps = [] then [] else [last ps]))"

definition starts_with :: "string \<Rightarrow> string \<Rightarrow> bool" where
  "starts_with p s = (take (length p) s = p)"

definition ends_with :: "string \<Rightarrow> string \<Rightarrow> bool" where
  "ends_with p s = (length p \<le> length s \<and> drop (length s - length p) s = p)"

definition strip_prefix :: "string \<Rightarrow> string \<Rightarrow> string option" where
  "strip_prefix p s = (if starts_with p s then Some (drop (length p) s) else None)"

definition contains_char :: "char \<Rightarrow> string \<Rightarrow> bool" where
  "contains_char c s = (c \<in> set s)"

fun contains_str :: "string \<Rightarrow> string \<Rightarrow> bool" where
  "contains_str p [] = (p = [])"
| "contains_str p (c # s) = (starts_with p (c # s) \<or> contains_str p s)"

text \<open>The decimal form of a number.\<close>

function show_nat :: "nat \<Rightarrow> string" where
  "show_nat n = (if n < 10 then [char_of (48 + n)] else show_nat (n div 10) @ [char_of (48 + n mod 10)])"
  by pat_completeness auto
termination
  by (relation "measure id") auto

declare show_nat.simps [simp del]

section \<open>Facts\<close>

lemma trim_end_ws: "ws_len_end (trim_end s) = 0"
proof (induction s rule: trim_end.induct)
  case (1 s)
  then show ?case by (cases "ws_len_end s = 0") (auto simp: trim_end.simps [of s])
qed

lemma trim_end_prefix: "prefix (trim_end s) s"
proof (induction s rule: trim_end.induct)
  case (1 s)
  show ?case
  proof (cases "ws_len_end s = 0")
    case False
    have "prefix (trim_end (take (length s - ws_len_end s) s)) s"
      using prefix_order.trans [OF 1 [OF False] take_is_prefix] .
    with False show ?thesis by (simp add: trim_end.simps [of s])
  qed (simp add: trim_end.simps [of s])
qed

text \<open>Trimming takes no more from the front once it has been done.\<close>

lemma ws_len_take: "ws_len s = 0 \<Longrightarrow> ws_len (take n s) = 0"
  by (cases s rule: ws_len.cases) (auto simp: take_Cons' split: if_splits)

lemma trim_ws: "ws_len (trim s) = 0" "ws_len_end (trim s) = 0"
proof -
  obtain r where "trim_start s = trim s @ r" using trim_end_prefix [of "trim_start s"] by (auto simp: trim_def prefix_def)
  then have "trim s = take (length (trim s)) (trim_start s)" by simp
  then show "ws_len (trim s) = 0" by (metis ws_len_take trim_start_ws)
  show "ws_len_end (trim s) = 0" by (simp add: trim_def trim_end_ws)
qed

lemma trim_idem [simp]: "trim (trim s) = trim s"
  using trim_ws [of s] by (simp add: trim_def [of "trim s"] trim_start.simps [of "trim s"] trim_end.simps [of "trim s"])

lemma trim_Nil [simp]: "trim [] = []"
  by (simp add: trim_def trim_start.simps [of "[]"] trim_end.simps [of "[]"] ws_len_end_def)

lemma split_on_join: "concat (map (\<lambda>p. p @ [sep]) (split_on sep s)) = s @ [sep]"
  by (induction s) (auto split: list.splits)

lemma split_on_sep: "p \<in> set (split_on sep s) \<Longrightarrow> sep \<notin> set p"
proof (induction s arbitrary: p)
  case (Cons c s)
  obtain q qs where "split_on sep s = q # qs" by (cases "split_on sep s") auto
  with Cons show ?case by (auto split: if_splits)
qed simp

end
