(* ===== verification/Ip_Parse.thy ===== *)
theory Ip_Parse
  imports Rust_Str Byte_Words
begin

text \<open>
  Parsing of IP addresses and socket addresses as the standard library does it
  (\<open>str::parse::<IpAddr>\<close>, \<open>str::parse::<SocketAddr>\<close>): a recursive-descent parser over the bytes whose
  readers either consume what they read or leave the input alone. An address is its bytes in network
  order. \<open>socket_addr\<close> of \<open>crates/doggy-dns-basic/src/net.rs\<close> is on top.
\<close>

type_synonym 'a reader = "string \<Rightarrow> ('a \<times> string) option"

datatype ip_addr = IpV4 bytes | IpV6 bytes

section \<open>Readers\<close>

definition to_digit :: "nat \<Rightarrow> char \<Rightarrow> nat option" where
  "to_digit radix c =
     (let d = (if 48 \<le> cc c \<and> cc c \<le> 57 then cc c - 48
               else if 97 \<le> cc c \<and> cc c \<le> 122 then cc c - 87
               else if 65 \<le> cc c \<and> cc c \<le> 90 then cc c - 55 else radix)
      in if d < radix then Some d else None)"

fun digit_run :: "nat \<Rightarrow> string \<Rightarrow> nat list \<times> string" where
  "digit_run radix [] = ([], [])"
| "digit_run radix (c # s) = (case to_digit radix c of
       None \<Rightarrow> ([], c # s)
     | Some d \<Rightarrow> let (ds, r) = digit_run radix s in (d # ds, r))"

text \<open>\<open>bound\<close> is the maximum of the number type.\<close>

definition read_number :: "nat \<Rightarrow> nat option \<Rightarrow> int \<Rightarrow> bool \<Rightarrow> int reader" where
  "read_number radix max_digits bound allow_zero_prefix s =
     (let (ds, r) = digit_run radix s; n = fold (\<lambda>d acc. acc * int radix + int d) ds 0 in
      if ds = [] \<or> (case max_digits of None \<Rightarrow> False | Some m \<Rightarrow> m < length ds) \<or> bound < n
         \<or> (\<not> allow_zero_prefix \<and> hd ds = 0 \<and> 1 < length ds)
      then None else Some (n, r))"

definition read_given_char :: "char \<Rightarrow> string \<Rightarrow> string option" where
  "read_given_char c s = (case s of [] \<Rightarrow> None | d # r \<Rightarrow> if d = c then Some r else None)"

definition read_separator :: "char \<Rightarrow> nat \<Rightarrow> 'a reader \<Rightarrow> 'a reader" where
  "read_separator sep index inner s =
     (if 0 < index then Option.bind (read_given_char sep s) inner else inner s)"

fun read_octets :: "nat \<Rightarrow> nat \<Rightarrow> int list reader" where
  "read_octets 0 i s = Some ([], s)"
| "read_octets (Suc n) i s =
     (case read_separator (CHR ''.'') i (read_number 10 (Some 3) 255 False) s of
        None \<Rightarrow> None
      | Some (g, r) \<Rightarrow> map_option (\<lambda>(gs, r'). (g # gs, r')) (read_octets n (Suc i) r))"

definition read_ipv4 :: "int list reader" where
  "read_ipv4 = read_octets 4 0"

text \<open>Up to \<open>n\<close> groups, the \<open>i\<close>-th onwards; the flag says that an embedded IPv4 address ended them.\<close>

fun pair_up :: "int list \<Rightarrow> int list" where
  "pair_up (a # b # xs) = (a * 256 + b) # pair_up xs"
| "pair_up xs = []"

fun read_groups :: "nat \<Rightarrow> nat \<Rightarrow> string \<Rightarrow> int list \<times> bool \<times> string" where
  "read_groups 0 i s = ([], False, s)"
| "read_groups (Suc n) i s =
     (case (if 0 < n then read_separator (CHR '':'') i read_ipv4 s else None) of
        Some (v4, r) \<Rightarrow> (pair_up v4, True, r)
      | None \<Rightarrow>
          (case read_separator (CHR '':'') i (read_number 16 (Some 4) 65535 True) s of
             None \<Rightarrow> ([], False, s)
           | Some (g, r) \<Rightarrow> let (gs, v4, r') = read_groups n (Suc i) r in (g # gs, v4, r')))"

definition read_ipv6 :: "int list reader" where
  "read_ipv6 s =
     (let (front, front_v4, r) = read_groups 8 0 s in
      if length front = 8 then Some (front, r)
      else if front_v4 then None
      else Option.bind (read_given_char (CHR '':'') r) (\<lambda>r1.
           Option.bind (read_given_char (CHR '':'') r1) (\<lambda>r2.
             let (back, _, r3) = read_groups (7 - length front) 0 r2
             in Some (front @ replicate (8 - length front - length back) 0 @ back, r3))))"

definition v4_of :: "int list \<Rightarrow> ip_addr" where
  "v4_of gs = IpV4 (map of_int gs)"

definition v6_of :: "int list \<Rightarrow> ip_addr" where
  "v6_of gs = IpV6 (concat (map (\<lambda>g. [of_int (g div 256), of_int (g mod 256)]) gs))"

definition read_ip_addr :: "ip_addr reader" where
  "read_ip_addr s = (case read_ipv4 s of
       Some (gs, r) \<Rightarrow> Some (v4_of gs, r)
     | None \<Rightarrow> map_option (\<lambda>(gs, r). (v6_of gs, r)) (read_ipv6 s))"

definition read_port :: "int reader" where
  "read_port s = Option.bind (read_given_char (CHR '':'') s) (read_number 10 None 65535 True)"

definition read_socket_v4 :: "(ip_addr \<times> int) reader" where
  "read_socket_v4 s = Option.bind (read_ipv4 s) (\<lambda>(gs, r).
     map_option (\<lambda>(p, r'). ((v4_of gs, p), r')) (read_port r))"

text \<open>A scope id is read and dropped: the callers keep the address and the port.\<close>

definition skip_scope_id :: "string \<Rightarrow> string" where
  "skip_scope_id s = (case Option.bind (read_given_char (CHR ''%'') s) (read_number 10 None (2 ^ 32 - 1) True) of
       None \<Rightarrow> s | Some (_, r) \<Rightarrow> r)"

definition read_socket_v6 :: "(ip_addr \<times> int) reader" where
  "read_socket_v6 s =
     Option.bind (read_given_char (CHR ''['') s) (\<lambda>r.
     Option.bind (read_ipv6 r) (\<lambda>(gs, r1).
     Option.bind (read_given_char (CHR '']'') (skip_scope_id r1)) (\<lambda>r2.
     map_option (\<lambda>(p, r3). ((v6_of gs, p), r3)) (read_port r2))))"

definition read_socket_addr :: "(ip_addr \<times> int) reader" where
  "read_socket_addr s = (case read_socket_v4 s of Some x \<Rightarrow> Some x | None \<Rightarrow> read_socket_v6 s)"

text \<open>The whole text has to be read.\<close>

definition parse_with :: "'a reader \<Rightarrow> string \<Rightarrow> 'a option" where
  "parse_with rd s = (case rd s of Some (a, []) \<Rightarrow> Some a | _ \<Rightarrow> None)"

definition parse_ip_addr :: "string \<Rightarrow> ip_addr option" where
  "parse_ip_addr = parse_with read_ip_addr"

definition parse_socket_addr :: "string \<Rightarrow> (ip_addr \<times> int) option" where
  "parse_socket_addr = parse_with read_socket_addr"

section \<open>Bind addresses\<close>

definition strip_suffix_char :: "char \<Rightarrow> string \<Rightarrow> string option" where
  "strip_suffix_char c s = (if s \<noteq> [] \<and> last s = c then Some (butlast s) else None)"

definition socket_addr :: "string \<Rightarrow> u16 \<Rightarrow> (ip_addr \<times> u16) option" where
  "socket_addr host port =
     (let host = trim host;
          literal = (case Option.bind (strip_prefix ''['' host) (strip_suffix_char (CHR '']'')) of
                       Some l \<Rightarrow> l | None \<Rightarrow> host)
      in map_option (\<lambda>ip. (ip, port)) (parse_ip_addr literal))"

section \<open>Addresses are well formed\<close>

definition ip_wf :: "ip_addr \<Rightarrow> bool" where
  "ip_wf ip = (case ip of IpV4 bs \<Rightarrow> length bs = 4 | IpV6 bs \<Rightarrow> length bs = 16)"

lemma read_octets_length: "read_octets n i s = Some (gs, r) \<Longrightarrow> length gs = n"
  by (induction n arbitrary: i s gs r) (auto split: option.splits prod.splits)

lemma pair_up_length: "length (pair_up gs) = length gs div 2"
  by (induction gs rule: pair_up.induct) auto

lemma read_groups_length: "read_groups n i s = (gs, v4, r) \<Longrightarrow> length gs \<le> n"
proof (induction n arbitrary: i s gs v4 r)
  case (Suc n)
  have "length q = 4" if "read_separator (CHR '':'') i read_ipv4 s = Some (q, r')" for q r'
    using that read_octets_length [of 4 0]
    by (auto simp: read_separator_def read_ipv4_def read_given_char_def bind_eq_Some_conv split: if_splits list.splits)
  with Suc show ?case
    by (fastforce simp: pair_up_length split: option.splits prod.splits if_splits)
qed simp

lemma read_ipv6_length: "read_ipv6 s = Some (gs, r) \<Longrightarrow> length gs = 8"
proof -
  assume a: "read_ipv6 s = Some (gs, r)"
  obtain f v r1 where f: "read_groups 8 0 s = (f, v, r1)" by (cases "read_groups 8 0 s")
  then have l: "length f \<le> 8" by (rule read_groups_length)
  show ?thesis
  proof (cases "length f = 8")
    case False
    with a f obtain r2 where "\<not> v" and g: "(case read_groups (7 - length f) 0 r2 of (b, _, r3) \<Rightarrow>
        Some (f @ replicate (8 - length f - length b) 0 @ b, r3)) = Some (gs, r)"
      by (auto simp: read_ipv6_def bind_eq_Some_conv Let_def split: if_splits)
    obtain b v' r3 where b: "read_groups (7 - length f) 0 r2 = (b, v', r3)" by (cases "read_groups (7 - length f) 0 r2")
    with g have "gs = f @ replicate (8 - length f - length b) 0 @ b" by simp
    with l False read_groups_length [OF b] show ?thesis by simp
  qed (use a f in \<open>simp add: read_ipv6_def\<close>)
qed

lemma parse_ip_addr_wf: "parse_ip_addr s = Some ip \<Longrightarrow> ip_wf ip"
  by (auto simp: parse_ip_addr_def parse_with_def read_ip_addr_def read_ipv4_def v4_of_def v6_of_def ip_wf_def
      length_concat comp_def sum_list_triv dest!: read_octets_length read_ipv6_length split: option.splits list.splits)

section \<open>Dotted quads\<close>

definition dotted :: "u8 \<Rightarrow> u8 \<Rightarrow> u8 \<Rightarrow> u8 \<Rightarrow> string" where
  "dotted a b c d = show_nat (unat a) @ ''.'' @ show_nat (unat b) @ ''.'' @ show_nat (unat c) @ ''.'' @ show_nat (unat d)"

lemma to_digit_char: "d < 10 \<Longrightarrow> to_digit 10 (char_of (48 + d)) = Some d"
  by (simp add: to_digit_def Let_def)

lemma show_nat_chars: "c \<in> set (show_nat n) \<Longrightarrow> \<exists>d::nat. d < 10 \<and> c = char_of (48 + d)"
proof (induction n rule: show_nat.induct)
  case (1 n)
  show ?case
  proof (cases "n < 10")
    case False
    with 1 have "c \<in> set (show_nat (n div 10)) \<or> c = char_of (48 + n mod 10)"
      by (auto simp: show_nat.simps [of n])
    with False 1 show ?thesis by (metis mod_less_divisor zero_less_numeral)
  qed (use 1 in \<open>auto simp: show_nat.simps [of n]\<close>)
qed

lemma show_nat_nonempty [simp]: "show_nat n \<noteq> []"
  by (subst show_nat.simps) auto

lemma show_nat_value:
  "fold (\<lambda>d acc. acc * 10 + int d) (map (the \<circ> to_digit 10) (show_nat n)) 0 = int n"
proof (induction n rule: show_nat.induct)
  case (1 n)
  have "int (n div 10) * 10 + int (n mod 10) = int n" by presburger
  with 1 show ?case
    by (cases "n < 10") (auto simp: show_nat.simps [of n] to_digit_char)
qed

lemma show_nat_length: "n < 10 ^ Suc k \<Longrightarrow> length (show_nat n) \<le> Suc k"
proof (induction k arbitrary: n)
  case (Suc k)
  show ?case
  proof (cases "n < 10")
    case False
    have "n div 10 < 10 ^ Suc k" using Suc.prems by (simp add: less_mult_imp_div_less)
    then show ?thesis using Suc.IH [of "n div 10"] False by (simp add: show_nat.simps [of n])
  qed (simp add: show_nat.simps [of n])
next
  case 0
  then show ?case by (simp add: show_nat.simps [of n])
qed

lemma show_nat_hd: "10 \<le> n \<Longrightarrow> to_digit 10 (hd (show_nat n)) \<noteq> Some 0"
proof (induction n rule: show_nat.induct)
  case (1 n)
  show ?case
  proof (cases "n div 10 < 10")
    case True
    with 1 have "show_nat n = char_of (48 + n div 10) # [char_of (48 + n mod 10)]"
      by (simp add: show_nat.simps [of n] show_nat.simps [of "n div 10"])
    with 1 True show ?thesis by (simp add: to_digit_char)
  qed (use 1 in \<open>simp add: show_nat.simps [of n]\<close>)
qed

lemma digit_run_append:
  "\<forall>c\<in>set s. to_digit k c \<noteq> None \<Longrightarrow>
     digit_run k (s @ r) = (map (the \<circ> to_digit k) s @ fst (digit_run k r), snd (digit_run k r))"
  by (induction s) (auto split: prod.splits)

lemma read_number_show:
  assumes "n < 256" "digit_run 10 r = ([], r)"
  shows "read_number 10 (Some 3) 255 False (show_nat n @ r) = Some (int n, r)"
proof -
  have "to_digit 10 c \<noteq> None" if "c \<in> set (show_nat n)" for c
    using show_nat_chars [OF that] by (auto simp: to_digit_char)
  then have run: "digit_run 10 (show_nat n @ r) = (map (the \<circ> to_digit 10) (show_nat n), r)"
    using assms(2) by (subst digit_run_append) auto
  have z: "\<not> (hd (map (the \<circ> to_digit 10) (show_nat n)) = 0 \<and> 1 < length (show_nat n))"
  proof (cases "n < 10")
    case True
    then show ?thesis by (simp add: show_nat.simps [of n])
  next
    case False
    obtain d where "to_digit 10 (hd (show_nat n)) = Some d"
      using show_nat_chars [of "hd (show_nat n)" n] by (auto simp: to_digit_char)
    with show_nat_hd [of n] False show ?thesis by (auto simp: hd_map)
  qed
  from assms(1) run z show_nat_value [of n] show_nat_length [of n 2] show ?thesis
    by (simp add: read_number_def)
qed

lemma read_ipv4_dotted: "read_ipv4 (dotted a b c d) = Some (map uint [a, b, c, d], [])"
proof -
  have lt: "unat x < 256" for x :: u8 using unsigned_less [of x, where 'a = nat] by simp
  have dot: "digit_run 10 (CHR ''.'' # r) = ([], CHR ''.'' # r)" for r by (simp add: to_digit_def)
  have num: "read_number 10 (Some 3) 255 False (show_nat (unat x) @ CHR ''.'' # r) = Some (uint x, CHR ''.'' # r)"
    and num0: "read_number 10 (Some 3) 255 False (show_nat (unat x)) = Some (uint x, [])" for x :: u8 and r
    using read_number_show [OF lt dot, of x r] read_number_show [OF lt, of "[]" x] by simp_all
  have four: "(4 :: nat) = Suc (Suc (Suc (Suc 0)))" by simp
  show ?thesis
    unfolding read_ipv4_def dotted_def four
    by (simp add: read_separator_def read_given_char_def num num0)
qed

lemma ws_len_ascii: "\<forall>c\<in>set s. cc c < 128 \<and> \<not> ws1 c \<Longrightarrow> ws_len s = 0"
  by (cases s rule: ws_len.cases) (auto simp: ws2_def ws3_def)

lemma trim_ascii: "\<forall>c\<in>set s. cc c < 128 \<and> \<not> ws1 c \<Longrightarrow> trim s = s"
proof -
  assume a: "\<forall>c\<in>set s. cc c < 128 \<and> \<not> ws1 c"
  then have "ws_len (drop k s) = 0" for k by (intro ws_len_ascii) (auto dest: in_set_dropD)
  then show ?thesis using ws_len_ascii [OF a]
    by (simp add: trim_def trim_start.simps [of s] trim_end.simps [of s] ws_len_end_def)
qed

lemma dotted_chars: "ch \<in> set (dotted a b c d) \<Longrightarrow> cc ch < 128 \<and> \<not> ws1 ch \<and> ch \<noteq> CHR ''[''"
proof -
  have "cc (char_of (48 + k) :: char) < 128 \<and> \<not> ws1 (char_of (48 + k)) \<and> char_of (48 + k) \<noteq> CHR ''[''"
    if "k < 10" for k :: nat
    using that by (auto simp: ws1_def dest!: arg_cong [of _ "CHR ''[''" cc])
  then show "ch \<in> set (dotted a b c d) \<Longrightarrow> cc ch < 128 \<and> \<not> ws1 ch \<and> ch \<noteq> CHR ''[''"
    by (auto simp: dotted_def ws1_def dest!: show_nat_chars)
qed

lemma parse_ip_dotted: "parse_ip_addr (dotted a b c d) = Some (IpV4 [a, b, c, d])"
  by (simp add: parse_ip_addr_def parse_with_def read_ip_addr_def read_ipv4_dotted v4_of_def)

text \<open>Every dotted IPv4 address, bare or in brackets, is accepted as a bind address and paired with the
  configured port, and whatever else is accepted is a 4-byte or 16-byte address with that same port.\<close>

theorem socket_addr_spec:
  "socket_addr (dotted a b c d) port = Some (IpV4 [a, b, c, d], port) \<and>
   socket_addr (''['' @ dotted a b c d @ '']'') port = Some (IpV4 [a, b, c, d], port) \<and>
   (case socket_addr host port of None \<Rightarrow> True | Some (ip, p) \<Rightarrow> ip_wf ip \<and> p = port)"
proof (intro conjI)
  let ?d = "dotted a b c d"
  have t: "trim ?d = ?d" by (rule trim_ascii) (auto dest: dotted_chars)
  have br: "trim (''['' @ ?d @ '']'') = ''['' @ ?d @ '']''"
    by (rule trim_ascii) (auto simp: ws1_def dest: dotted_chars)
  have n: "strip_prefix ''['' ?d = None"
    using dotted_chars [of "hd ?d" a b c d] by (cases ?d) (auto simp: strip_prefix_def starts_with_def)
  show "socket_addr ?d port = Some (IpV4 [a, b, c, d], port)"
    by (simp add: socket_addr_def t n parse_ip_dotted)
  show "socket_addr (''['' @ ?d @ '']'') port = Some (IpV4 [a, b, c, d], port)"
    unfolding socket_addr_def br
    by (simp add: strip_prefix_def starts_with_def strip_suffix_char_def parse_ip_dotted)
  show "case socket_addr host port of None \<Rightarrow> True | Some (ip, p) \<Rightarrow> ip_wf ip \<and> p = port"
    by (auto simp: socket_addr_def Let_def intro: parse_ip_addr_wf split: option.splits)
qed

end
