(* ===== verification/Basic_Env.thy ===== *)
theory Basic_Env
  imports Rust_Str
begin

text \<open>
  Environment references in the configuration (\<open>crates/doggy-dns-basic/src/env.rs\<close>): the scanner for
  \<open>${NAME}\<close>, its loop as recursion on what is left of the text, and the walk over a parsed TOML document.
  The loop is specified by templates: literal text and names in alternation.
\<close>

section \<open>One string\<close>

datatype env_error = Unterminated | Empty_reference | Not_set string

text \<open>\<open>str::find\<close> with the slices around the match: what precedes the first occurrence, what follows it.\<close>

fun split_at_str :: "string \<Rightarrow> string \<Rightarrow> (string \<times> string) option" where
  "split_at_str p [] = (if p = [] then Some ([], []) else None)"
| "split_at_str p (c # s) =
     (if starts_with p (c # s) then Some ([], drop (length p) (c # s))
      else map_option (\<lambda>(a, b). (c # a, b)) (split_at_str p s))"

lemma split_at_str_length:
  "split_at_str p s = Some (a, b) \<Longrightarrow> length a + length p + length b = length s"
proof (induction s arbitrary: a)
  case (Cons c s)
  show ?case
  proof (cases "starts_with p (c # s)")
    case True
    then have "length p \<le> length (c # s)" unfolding starts_with_def by (metis length_take min.cobounded1 min_def)
    with True Cons show ?thesis by auto
  qed (use Cons in \<open>auto split: prod.splits\<close>)
qed (auto split: if_splits)

function expand_loop :: "(string \<Rightarrow> string option) \<Rightarrow> string \<Rightarrow> string \<Rightarrow> (env_error, string) result" where
  "expand_loop lookup output rest = (case split_at_str ''${'' rest of
       None \<Rightarrow> Inr (output @ rest)
     | Some (before, after) \<Rightarrow>
         (case split_at_str ''}'' after of
            None \<Rightarrow> Inl Unterminated
          | Some (name, rest') \<Rightarrow>
              if name = [] then Inl Empty_reference
              else case lookup name of
                None \<Rightarrow> Inl (Not_set name)
              | Some resolved \<Rightarrow> expand_loop lookup (output @ before @ resolved) rest'))"
  by pat_completeness auto
termination
  by (relation "measure (\<lambda>(_, _, rest). length rest)") (auto dest!: split_at_str_length)

declare expand_loop.simps [simp del]

definition expand_env :: "(string \<Rightarrow> string option) \<Rightarrow> string \<Rightarrow> (env_error, string) result" where
  "expand_env lookup value = expand_loop lookup [] value"

section \<open>A document\<close>

text \<open>A double is its IEEE 754 bits.\<close>

type_synonym f64 = u64

datatype toml_value =
    T_String string
  | T_Integer int
  | T_Float f64
  | T_Boolean bool
  | T_Datetime string
  | T_Array "toml_value list"
  | T_Table "(string \<times> toml_value) list"

definition child_path :: "string \<Rightarrow> string \<Rightarrow> string" where
  "child_path path key = (if path = [] then key else path @ ''.'' @ key)"

definition item_path :: "string \<Rightarrow> nat \<Rightarrow> string" where
  "item_path path i = path @ ''['' @ show_nat i @ '']''"

text \<open>The first error ends the walk, with the path of its value.\<close>

fun expand_value :: "(string \<Rightarrow> string option) \<Rightarrow> string \<Rightarrow> toml_value \<Rightarrow> (string \<times> env_error, toml_value) result"
and expand_table :: "(string \<Rightarrow> string option) \<Rightarrow> string \<Rightarrow> (string \<times> toml_value) list \<Rightarrow>
   (string \<times> env_error, (string \<times> toml_value) list) result"
and expand_items :: "(string \<Rightarrow> string option) \<Rightarrow> string \<Rightarrow> nat \<Rightarrow> toml_value list \<Rightarrow>
   (string \<times> env_error, toml_value list) result" where
  "expand_value lookup path (T_String text) = (case expand_env lookup text of
       Inl e \<Rightarrow> Inl (path, e) | Inr expanded \<Rightarrow> Inr (T_String expanded))"
| "expand_value lookup path (T_Table kvs) = (case expand_table lookup path kvs of
       Inl e \<Rightarrow> Inl e | Inr kvs' \<Rightarrow> Inr (T_Table kvs'))"
| "expand_value lookup path (T_Array items) = (case expand_items lookup path 0 items of
       Inl e \<Rightarrow> Inl e | Inr items' \<Rightarrow> Inr (T_Array items'))"
| "expand_value lookup path other = Inr other"
| "expand_table lookup path [] = Inr []"
| "expand_table lookup path ((key, child) # kvs) = (case expand_value lookup (child_path path key) child of
       Inl e \<Rightarrow> Inl e
     | Inr child' \<Rightarrow> (case expand_table lookup path kvs of Inl e \<Rightarrow> Inl e | Inr kvs' \<Rightarrow> Inr ((key, child') # kvs')))"
| "expand_items lookup path i [] = Inr []"
| "expand_items lookup path i (item # items) = (case expand_value lookup (item_path path i) item of
       Inl e \<Rightarrow> Inl e
     | Inr item' \<Rightarrow> (case expand_items lookup path (Suc i) items of Inl e \<Rightarrow> Inl e | Inr items' \<Rightarrow> Inr (item' # items')))"

definition expand_env_in_value :: "(string \<Rightarrow> string option) \<Rightarrow> toml_value \<Rightarrow> (string \<times> env_error, toml_value) result" where
  "expand_env_in_value lookup v = expand_value lookup [] v"

section \<open>Templates\<close>

definition wf_ref :: "string \<times> string \<Rightarrow> bool" where
  "wf_ref = (\<lambda>(lit, name). \<not> contains_str ''${'' lit \<and> name \<noteq> [] \<and> CHR ''}'' \<notin> set name)"

definition render :: "(string \<times> string) list \<Rightarrow> string \<Rightarrow> string" where
  "render refs tail = concat (map (\<lambda>(lit, name). lit @ ''${'' @ name @ ''}'') refs) @ tail"

definition substitute :: "(string \<Rightarrow> string option) \<Rightarrow> (string \<times> string) list \<Rightarrow> string" where
  "substitute lookup refs = concat (map (\<lambda>(lit, name). lit @ the (lookup name)) refs)"

lemma split_ref_iff:
  "split_at_str ''${'' s = Some (a, b) \<longleftrightarrow> s = a @ ''${'' @ b \<and> \<not> contains_str ''${'' a"
proof (induction s arbitrary: a)
  case (Cons c s)
  show ?case
  proof (cases "starts_with ''${'' (c # s)")
    case True
    then obtain t where t: "c # s = ''${'' @ t"
      unfolding starts_with_def by (metis append_take_drop_id)
    have "c # s \<noteq> a @ ''${'' @ b \<or> contains_str ''${'' a" if "a \<noteq> []"
    proof (cases a)
      case (Cons d ds)
      with t show ?thesis by (cases ds) (auto simp: starts_with_def)
    qed (use that in simp)
    with t show ?thesis by (cases a) (auto simp: starts_with_def)
  next
    case False
    show ?thesis
    proof (cases a)
      case Nil
      with False show ?thesis by (auto simp: starts_with_def split: prod.splits)
    next
      case (Cons d ds)
      have "contains_str ''${'' (d # ds) \<longleftrightarrow> contains_str ''${'' ds" if "c # s = (d # ds) @ ''${'' @ b"
        using that False by (cases ds) (auto simp: starts_with_def)
      with False Cons Cons.IH [of ds] show ?thesis by (auto split: prod.splits)
    qed
  qed
qed auto

lemma split_ref_none: "split_at_str ''${'' s = None \<longleftrightarrow> \<not> contains_str ''${'' s"
  by (induction s) (auto split: prod.splits)

lemma split_brace_iff: "split_at_str ''}'' s = Some (a, b) \<longleftrightarrow> s = a @ ''}'' @ b \<and> CHR ''}'' \<notin> set a"
proof (induction s arbitrary: a)
  case (Cons c s)
  then show ?case by (cases a) (auto simp: starts_with_def split: prod.splits)
qed simp

lemma expand_loop_render:
  "list_all wf_ref refs \<Longrightarrow> list_all (\<lambda>(_, n). lookup n \<noteq> None) refs \<Longrightarrow> \<not> contains_str ''${'' tail \<Longrightarrow>
     expand_loop lookup out (render refs tail) = Inr (out @ substitute lookup refs @ tail)"
proof (induction refs arbitrary: out)
  case Nil
  then show ?case by (simp add: expand_loop.simps [of lookup out] render_def substitute_def split_ref_none [THEN iffD2])
next
  case (Cons r refs)
  obtain l n v where r: "r = (l, n)" "lookup n = Some v" using Cons.prems by (cases r) auto
  have "split_at_str ''${'' (render (r # refs) tail) = Some (l, n @ ''}'' @ render refs tail)"
    using Cons.prems r by (simp add: split_ref_iff render_def wf_ref_def)
  moreover have "split_at_str ''}'' (n @ ''}'' @ render refs tail) = Some (n, render refs tail)"
    using Cons.prems r by (simp only: split_brace_iff) (simp add: wf_ref_def)
  ultimately show ?case
    using Cons r by (simp add: expand_loop.simps [of lookup out] wf_ref_def substitute_def)
qed

lemma expand_loop_ok:
  "expand_loop lookup out s = Inr res \<Longrightarrow> \<exists>refs tail. s = render refs tail \<and> list_all wf_ref refs \<and>
     list_all (\<lambda>(_, n). lookup n \<noteq> None) refs \<and> \<not> contains_str ''${'' tail \<and> res = out @ substitute lookup refs @ tail"
proof (induction lookup out s rule: expand_loop.induct)
  case (1 lookup out s)
  show ?case
  proof (cases "split_at_str ''${'' s")
    case None
    with 1 show ?thesis
      by (intro exI [of _ "[]"] exI [of _ s]) (simp add: expand_loop.simps [of lookup out s] render_def substitute_def split_ref_none)
  next
    case (Some ba)
    obtain b a where ba: "ba = (b, a)" by (cases ba)
    with Some 1(2) obtain n r v where n: "split_at_str ''}'' a = Some (n, r)" "n \<noteq> []" "lookup n = Some v"
      "expand_loop lookup (out @ b @ v) r = Inr res"
      by (auto simp: expand_loop.simps [of lookup out s] split: option.splits prod.splits if_splits)
    from 1(1) [OF Some ba [symmetric] n(1) refl n(2,3,4)] obtain refs tail where
      t: "r = render refs tail" "list_all wf_ref refs" "list_all (\<lambda>(_, n). lookup n \<noteq> None) refs"
      "\<not> contains_str ''${'' tail" "res = (out @ b @ v) @ substitute lookup refs @ tail" by blast
    have "s = b @ ''${'' @ a" "\<not> contains_str ''${'' b" "a = n @ ''}'' @ r" "CHR ''}'' \<notin> set n"
      using Some ba n(1) by (simp_all add: split_ref_iff split_brace_iff)
    with t n show ?thesis
      by (intro exI [of _ "(b, n) # refs"] exI [of _ tail]) (simp add: render_def substitute_def wf_ref_def)
  qed
qed

text \<open>C39. Expansion of environment references is substitution into a template, once: it succeeds exactly on
  the texts that are literals and closed, named references to set variables in alternation, its result
  is the literals with the values in their place, and a value is never itself scanned for references.\<close>

theorem expand_env_iff:
  "expand_env lookup s = Inr res \<longleftrightarrow>
     (\<exists>refs tail. s = render refs tail \<and> list_all wf_ref refs \<and> list_all (\<lambda>(_, n). lookup n \<noteq> None) refs \<and>
        \<not> contains_str ''${'' tail \<and> res = substitute lookup refs @ tail)"
  using expand_loop_ok [of lookup "[]" s res] expand_loop_render [of _ lookup _ "[]"]
  by (auto simp: expand_env_def)

section \<open>The walk over a document\<close>

fun toml_strings :: "toml_value \<Rightarrow> string list"
and table_strings :: "(string \<times> toml_value) list \<Rightarrow> string list"
and items_strings :: "toml_value list \<Rightarrow> string list" where
  "toml_strings (T_String s) = [s]"
| "toml_strings (T_Table kvs) = table_strings kvs"
| "toml_strings (T_Array xs) = items_strings xs"
| "toml_strings other = []"
| "table_strings [] = []"
| "table_strings ((k, v) # kvs) = toml_strings v @ table_strings kvs"
| "items_strings [] = []"
| "items_strings (x # xs) = toml_strings x @ items_strings xs"

fun map_strings :: "(string \<Rightarrow> string) \<Rightarrow> toml_value \<Rightarrow> toml_value"
and map_table :: "(string \<Rightarrow> string) \<Rightarrow> (string \<times> toml_value) list \<Rightarrow> (string \<times> toml_value) list"
and map_items :: "(string \<Rightarrow> string) \<Rightarrow> toml_value list \<Rightarrow> toml_value list" where
  "map_strings f (T_String s) = T_String (f s)"
| "map_strings f (T_Table kvs) = T_Table (map_table f kvs)"
| "map_strings f (T_Array xs) = T_Array (map_items f xs)"
| "map_strings f other = other"
| "map_table f [] = []"
| "map_table f ((k, v) # kvs) = (k, map_strings f v) # map_table f kvs"
| "map_items f [] = []"
| "map_items f (x # xs) = map_strings f x # map_items f xs"

definition expands :: "(string \<Rightarrow> string option) \<Rightarrow> string \<Rightarrow> bool" where
  "expands lookup s = (\<not> isl (expand_env lookup s))"

lemma result_bind_Inr:
  "(case x of Inl e \<Rightarrow> Inl e | Inr a \<Rightarrow> k a) = Inr r \<longleftrightarrow> (\<exists>a. x = Inr a \<and> k a = Inr r)"
  by (cases x) auto

lemma expand_walk:
  "expand_value lookup path v = Inr v' \<longleftrightarrow>
     list_all (expands lookup) (toml_strings v) \<and> v' = map_strings (projr \<circ> expand_env lookup) v"
  "expand_table lookup path kvs = Inr kvs' \<longleftrightarrow>
     list_all (expands lookup) (table_strings kvs) \<and> kvs' = map_table (projr \<circ> expand_env lookup) kvs"
  "expand_items lookup path i xs = Inr xs' \<longleftrightarrow>
     list_all (expands lookup) (items_strings xs) \<and> xs' = map_items (projr \<circ> expand_env lookup) xs"
proof (induction lookup path v and lookup path kvs and lookup path i xs arbitrary: v' and kvs' and xs'
    rule: expand_value_expand_table_expand_items.induct)
  case (1 lookup path t)
  then show ?case by (auto simp: expands_def split: sum.splits)
next
  case (6 lookup path key child kvs)
  then show ?case by (simp add: result_bind_Inr) blast
next
  case (8 lookup path i item items)
  then show ?case by (simp add: result_bind_Inr) blast
qed (auto simp: result_bind_Inr)

text \<open>Over a document the expansion touches string values only, every one of them and nothing else: keys,
  order, numbers and structure stay, and it fails as soon as one string does.\<close>

theorem expand_env_in_value_iff:
  "expand_env_in_value lookup v = Inr v' \<longleftrightarrow>
     list_all (expands lookup) (toml_strings v) \<and> v' = map_strings (projr \<circ> expand_env lookup) v"
  by (simp add: expand_env_in_value_def expand_walk)

end
