(* ===== verification/Basic_Config.thy ===== *)
theory Basic_Config
  imports Ip_Parse Basic_Env
begin

text \<open>
  The configuration tree of \<open>crates/doggy-dns-basic/src\<close>: one record per struct, in the order of the
  files (\<open>server.rs\<close>, \<open>middleware.rs\<close>, \<open>plugin.rs\<close>, \<open>remote.rs\<close>, \<open>observability.rs\<close>, \<open>xdp.rs\<close>, \<open>control.rs\<close>,
  \<open>lib.rs\<close>) with the default values. \<open>usize\<close> is 64 bits; a \<open>BTreeMap\<close> is its entries in key order.
\<close>

type_synonym i32 = "32 word"

section \<open>Server\<close>

record tls_config =
  tls_enabled :: bool
  tls_port :: u16
  tls_cert_path :: string
  tls_key_path :: string

definition default_tls_port :: u16 where "default_tls_port = 853"

record https_config =
  https_enabled :: bool
  https_port :: u16
  https_cert_path :: string
  https_key_path :: string

definition default_https_port :: u16 where "default_https_port = 443"

record server_config =
  listen_addr :: string
  server_port :: u16
  tcp_timeout :: u64
  shutdown_timeout :: u64
  worker_threads :: u64
  rotate_answers :: bool
  reuseport_listen_num :: u16
  cpu_affinity :: "u64 list option"
  server_tls :: "tls_config option"
  server_https :: "https_config option"

text \<open>A server section with only its two required fields.\<close>

definition default_server :: "string \<Rightarrow> u16 \<Rightarrow> server_config" where
  "default_server addr port = \<lparr>listen_addr = addr, server_port = port, tcp_timeout = 10, shutdown_timeout = 5,
     worker_threads = 1, rotate_answers = True, reuseport_listen_num = 1, cpu_affinity = None,
     server_tls = None, server_https = None\<rparr>"

section \<open>Middleware, remote configuration\<close>

record middleware_config =
  mw_logging :: bool
  mw_log_format :: "string option"

record remote_config =
  rc_enabled :: bool
  rc_server_addr :: string
  rc_namespace :: string
  rc_group :: string
  rc_data_id :: string

definition default_middleware :: middleware_config where
  "default_middleware = \<lparr>mw_logging = False, mw_log_format = None\<rparr>"

definition default_remote :: remote_config where
  "default_remote = \<lparr>rc_enabled = False, rc_server_addr = [], rc_namespace = [], rc_group = [], rc_data_id = []\<rparr>"

section \<open>Plugins\<close>

datatype plugin_kind = Nacos | Native | Forward

record plugin_config =
  pl_kind :: plugin_kind
  pl_enabled :: bool
  pl_server_addr :: "string option"
  pl_namespace :: "string option"
  pl_group :: "string option"
  pl_dns_zone :: "string option"
  pl_service_pattern :: "string option"
  pl_ttl :: u32
  pl_cache_size :: u32
  pl_min_ttl :: u32
  pl_max_ttl :: u32
  pl_upstream :: "string list option"

definition default_plugin :: "plugin_kind \<Rightarrow> plugin_config" where
  "default_plugin kind = \<lparr>pl_kind = kind, pl_enabled = True, pl_server_addr = None, pl_namespace = None,
     pl_group = None, pl_dns_zone = None, pl_service_pattern = None, pl_ttl = 6, pl_cache_size = 4096,
     pl_min_ttl = 10, pl_max_ttl = 300, pl_upstream = None\<rparr>"

section \<open>Observability\<close>

datatype observability_backend = OpenObserve | OtelCollector | Vector_Backend | Custom

definition default_endpoint :: "observability_backend \<Rightarrow> string option" where
  "default_endpoint b = (case b of
       OpenObserve \<Rightarrow> Some ''http://127.0.0.1:5080/api/default''
     | OtelCollector \<Rightarrow> Some ''http://127.0.0.1:4318''
     | Vector_Backend \<Rightarrow> Some ''http://127.0.0.1:4318''
     | Custom \<Rightarrow> None)"

definition supports_profiles :: "observability_backend \<Rightarrow> bool" where
  "supports_profiles b = (b \<noteq> Vector_Backend)"

datatype observability_protocol = HttpProtobuf

datatype metrics_temporality = Cumulative | Delta

record basic_auth_config =
  ba_username :: string
  ba_password :: string

record logs_config =
  logs_enabled :: bool
  logs_level :: string
  logs_stdout :: bool
  logs_endpoint :: "string option"

record metrics_config =
  metrics_enabled :: bool
  metrics_interval_secs :: u64
  metrics_temporality :: metrics_temporality
  metrics_endpoint :: "string option"

record traces_config =
  traces_enabled :: bool
  sample_ratio :: f64
  max_queue_size :: u64
  max_export_batch_size :: u64
  scheduled_delay_ms :: u64
  traces_endpoint :: "string option"

record profiles_config =
  profiles_enabled :: bool
  profiles_interval_secs :: u64
  profiles_duration_secs :: u64
  frequency_hz :: i32
  profiles_endpoint :: "string option"

record observability_config =
  ob_enabled :: bool
  ob_backend :: observability_backend
  ob_endpoint :: string
  ob_protocol :: observability_protocol
  ob_service_name :: "string option"
  ob_environment :: "string option"
  ob_timeout_secs :: u64
  ob_headers :: "(string \<times> string) list"
  ob_basic_auth :: "basic_auth_config option"
  ob_resource_attributes :: "(string \<times> string) list"
  ob_logs :: logs_config
  ob_metrics :: metrics_config
  ob_traces :: traces_config
  ob_profiles :: profiles_config

text \<open>The default functions of the deserialiser; 0.05 is the double \<open>0x3FA999999999999A\<close>.\<close>

definition default_true :: bool where [simp]: "default_true = True"
definition default_observability_timeout :: u64 where [simp]: "default_observability_timeout = 10"
definition default_logs_level :: string where [simp]: "default_logs_level = ''warn''"
definition default_metrics_interval :: u64 where [simp]: "default_metrics_interval = 15"
definition default_sample_ratio :: f64 where [simp]: "default_sample_ratio = 0x3FA999999999999A"
definition default_trace_queue_size :: u64 where [simp]: "default_trace_queue_size = 8192"
definition default_trace_batch_size :: u64 where [simp]: "default_trace_batch_size = 512"
definition default_trace_scheduled_delay :: u64 where [simp]: "default_trace_scheduled_delay = 2000"
definition default_profiles_interval :: u64 where [simp]: "default_profiles_interval = 60"
definition default_profiles_duration :: u64 where [simp]: "default_profiles_duration = 10"
definition default_profiles_frequency :: i32 where [simp]: "default_profiles_frequency = 99"

definition default_logs :: logs_config where
  "default_logs = \<lparr>logs_enabled = True, logs_level = default_logs_level, logs_stdout = True, logs_endpoint = None\<rparr>"

definition default_metrics :: metrics_config where
  "default_metrics = \<lparr>metrics_enabled = True, metrics_interval_secs = default_metrics_interval, metrics_temporality = Cumulative,
     metrics_endpoint = None\<rparr>"

definition default_traces :: traces_config where
  "default_traces = \<lparr>traces_enabled = True, sample_ratio = default_sample_ratio, max_queue_size = default_trace_queue_size,
     max_export_batch_size = default_trace_batch_size, scheduled_delay_ms = default_trace_scheduled_delay, traces_endpoint = None\<rparr>"

definition default_profiles :: profiles_config where
  "default_profiles = \<lparr>profiles_enabled = False, profiles_interval_secs = default_profiles_interval, profiles_duration_secs = default_profiles_duration,
     frequency_hz = default_profiles_frequency, profiles_endpoint = None\<rparr>"

definition default_observability :: observability_config where
  "default_observability = \<lparr>ob_enabled = False, ob_backend = OpenObserve, ob_endpoint = [], ob_protocol = HttpProtobuf,
     ob_service_name = None, ob_environment = None, ob_timeout_secs = default_observability_timeout, ob_headers = [], ob_basic_auth = None,
     ob_resource_attributes = [], ob_logs = default_logs, ob_metrics = default_metrics, ob_traces = default_traces,
     ob_profiles = default_profiles\<rparr>"

section \<open>XDP and control plane\<close>

record xdp_config =
  xdp_enabled :: bool
  xdp_interface :: string
  attach_mode :: string
  cache_size :: u32
  negative_ttl :: u64
  pin_path :: string

definition default_xdp :: xdp_config where
  "default_xdp = \<lparr>xdp_enabled = False, xdp_interface = [], attach_mode = ''auto'', cache_size = 65536, negative_ttl = 30,
     pin_path = ''/sys/fs/bpf/doggy-dns/dns_cache''\<rparr>"

record control_config =
  ctl_enabled :: bool
  ctl_listen_addr :: string
  ctl_port :: u16
  ctl_token :: "string option"
  ctl_allowed_hosts :: "string list"
  ctl_endpoints :: "string list"

definition CONTROL_ENDPOINTS :: "string list" where
  "CONTROL_ENDPOINTS = [''mcp'', ''healthz'', ''readyz'']"

definition default_control :: control_config where
  "default_control = \<lparr>ctl_enabled = False, ctl_listen_addr = ''127.0.0.1'', ctl_port = 19090, ctl_token = None,
     ctl_allowed_hosts = [], ctl_endpoints = CONTROL_ENDPOINTS\<rparr>"

section \<open>The whole configuration\<close>

record doggy_dns_config =
  cfg_server :: server_config
  cfg_middleware :: middleware_config
  cfg_plugins :: "plugin_config list"
  cfg_remote :: remote_config
  cfg_observability :: observability_config
  cfg_xdp :: xdp_config
  cfg_control :: control_config

definition default_config :: "string \<Rightarrow> u16 \<Rightarrow> doggy_dns_config" where
  "default_config addr port = \<lparr>cfg_server = default_server addr port, cfg_middleware = default_middleware,
     cfg_plugins = [], cfg_remote = default_remote, cfg_observability = default_observability,
     cfg_xdp = default_xdp, cfg_control = default_control\<rparr>"

end
