(* ===== verification/Basic_Validate.thy ===== *)
theory Basic_Validate
  imports Basic_Config
begin

text \<open>
  Validation of the configuration (\<open>crates/doggy-dns-basic/src/validate.rs\<close>) and its loading
  (\<open>load.rs\<close>). A validator is the list of its \<open>ensure!\<close> checks in program order, each the error it
  would raise or nothing; the result is the first error. The checks are pure, so those after the
  first failing one do not matter. The host (its platform, and which paths exist) is a record.
\<close>

section \<open>Checks\<close>

named_theorems check_simps

type_synonym 'e check = "'e option"

definition ensure :: "bool \<Rightarrow> 'e \<Rightarrow> 'e check" where
  "ensure b e = (if b then None else Some e)"

fun first_error :: "'e check list \<Rightarrow> ('e, unit) result" where
  "first_error [] = Inr ()"
| "first_error (c # cs) = (case c of Some e \<Rightarrow> Inl e | None \<Rightarrow> first_error cs)"

abbreviation passes :: "'e check list \<Rightarrow> bool" where
  "passes cs \<equiv> first_error cs = Inr ()"

text \<open>A loop that inserts into a \<open>HashSet\<close> and refuses what is already there.\<close>

fun check_unique :: "('a \<Rightarrow> 'e) \<Rightarrow> 'a set \<Rightarrow> 'a list \<Rightarrow> 'e check list" where
  "check_unique err seen [] = []"
| "check_unique err seen (x # xs) = ensure (x \<notin> seen) (err x) # check_unique err (insert x seen) xs"

lemma passes_iff [check_simps]: "passes cs \<longleftrightarrow> list_all (\<lambda>c. c = None) cs"
  by (induction cs) (auto split: option.splits)

lemma ensure_None [check_simps]: "ensure b e = None \<longleftrightarrow> b"
  by (simp add: ensure_def)

lemma list_all_concat [check_simps]: "list_all P (concat xss) \<longleftrightarrow> list_all (list_all P) xss"
  by (induction xss) auto

lemma list_all_None_map [check_simps]:
  "list_all (\<lambda>c. c = None) (map (map_option f) cs) \<longleftrightarrow> list_all (\<lambda>c. c = None) cs"
  by (induction cs) auto

lemma check_unique_passes [check_simps]:
  "list_all (\<lambda>c. c = None) (check_unique err seen xs) \<longleftrightarrow> distinct xs \<and> set xs \<inter> seen = {}"
  by (induction xs arbitrary: seen) (auto simp: ensure_None)

declare first_error.simps [simp del]

section \<open>Errors\<close>

datatype plugin_error =
    P_field_required string
  | P_zone_empty
  | P_zone_long
  | P_zone_empty_label
  | P_zone_label_long string
  | P_zone_label_chars string
  | P_zone_duplicate string
  | P_pattern_blank
  | P_ttl u32 u32
  | P_upstream_empty
  | P_upstream_entry string

datatype url_error = U_scheme | U_whitespace | U_query | U_v1 | U_v1_signal string

datatype obs_error =
    O_service_name
  | O_no_signal
  | O_url string url_error
  | O_timeout
  | O_log_level
  | O_metrics_interval
  | O_sample_ratio
  | O_queue_size
  | O_batch_size
  | O_scheduled_delay
  | O_profiles_interval
  | O_profiles_duration
  | O_profiles_frequency
  | O_profiles_platform
  | O_basic_auth

datatype config_error =
    E_worker_threads
  | E_reuseport_zero
  | E_reuseport_platform
  | E_affinity_empty
  | E_affinity_length nat u64
  | E_affinity_duplicate u64
  | E_tls_cert string
  | E_tls_key string
  | E_https_cert string
  | E_https_key string
  | E_remote_server_addr
  | E_remote_data_id
  | E_no_plugin_enabled
  | E_plugin nat plugin_kind plugin_error
  | E_observability obs_error
  | E_xdp_cache_size
  | E_xdp_negative_ttl
  | E_xdp_attach_mode
  | E_xdp_pin_dir
  | E_xdp_pin_dot
  | E_control_addr string
  | E_control_no_endpoints
  | E_control_unknown string
  | E_control_duplicate string

record host =
  host_linux :: bool
  host_macos :: bool
  path_exists :: "string \<Rightarrow> bool"

section \<open>Plugins\<close>

definition is_blank :: "string \<Rightarrow> bool" where
  "is_blank s = (trim s = [])"

definition zone_char :: "char \<Rightarrow> bool" where
  "zone_char c = ((48 \<le> cc c \<and> cc c \<le> 57) \<or> (65 \<le> cc c \<and> cc c \<le> 90) \<or> (97 \<le> cc c \<and> cc c \<le> 122)
     \<or> c = CHR ''-'' \<or> c = CHR ''_'')"

definition validate_dns_zone :: "string \<Rightarrow> plugin_error check list" where
  "validate_dns_zone zone =
     [ensure (zone \<noteq> []) P_zone_empty, ensure (length zone \<le> 253) P_zone_long] @
     concat (map (\<lambda>part.
       [ensure (part \<noteq> []) P_zone_empty_label,
        ensure (length part \<le> 63) (P_zone_label_long part),
        ensure (list_all zone_char part) (P_zone_label_chars part)]) (split_on (CHR ''.'') zone))"

definition validate_resolver_ttls :: "plugin_config \<Rightarrow> plugin_error check list" where
  "validate_resolver_ttls p = [ensure (pl_min_ttl p \<le> pl_max_ttl p) (P_ttl (pl_min_ttl p) (pl_max_ttl p))]"

definition validate_upstream :: "plugin_config \<Rightarrow> plugin_error check list" where
  "validate_upstream p = (case pl_upstream p of
       None \<Rightarrow> []
     | Some upstream \<Rightarrow>
         ensure (upstream \<noteq> []) P_upstream_empty #
         map (\<lambda>a. ensure (parse_socket_addr a \<noteq> None \<or> parse_ip_addr a \<noteq> None) (P_upstream_entry a)) upstream)"

definition nacos_required :: "plugin_config \<Rightarrow> (string \<times> string option) list" where
  "nacos_required p = [(''server_addr'', pl_server_addr p), (''namespace'', pl_namespace p),
     (''group'', pl_group p), (''dns_zone'', pl_dns_zone p)]"

definition configured_zone :: "plugin_config \<Rightarrow> string" where
  "configured_zone p =
     (let configured = (case pl_dns_zone p of Some z \<Rightarrow> z | None \<Rightarrow> []) in
      case strip_suffix_char (CHR ''.'') configured of Some z \<Rightarrow> z | None \<Rightarrow> configured)"

text \<open>One enabled plugin, given the zones seen before it.\<close>

definition validate_plugin :: "string set \<Rightarrow> plugin_config \<Rightarrow> plugin_error check list" where
  "validate_plugin zones p = (case pl_kind p of
       Nacos \<Rightarrow>
         map (\<lambda>(field, value). ensure (case value of Some v \<Rightarrow> \<not> is_blank v | None \<Rightarrow> False) (P_field_required field))
           (nacos_required p) @
         validate_dns_zone (configured_zone p) @
         [ensure (to_lower (configured_zone p) \<notin> zones) (P_zone_duplicate (to_lower (configured_zone p)))] @
         (case pl_service_pattern p of Some pat \<Rightarrow> [ensure (\<not> is_blank pat) P_pattern_blank] | None \<Rightarrow> [])
     | Native \<Rightarrow> validate_resolver_ttls p
     | Forward \<Rightarrow> validate_resolver_ttls p @ validate_upstream p)"

fun plugin_loop :: "nat \<Rightarrow> string set \<Rightarrow> plugin_config list \<Rightarrow> config_error check list" where
  "plugin_loop i zones [] = []"
| "plugin_loop i zones (p # ps) =
     (if \<not> pl_enabled p then plugin_loop (Suc i) zones ps
      else map (map_option (E_plugin i (pl_kind p))) (validate_plugin zones p) @
           plugin_loop (Suc i)
             (if pl_kind p = Nacos then insert (to_lower (configured_zone p)) zones else zones) ps)"

definition validate_plugins :: "plugin_config list \<Rightarrow> config_error check list" where
  "validate_plugins ps =
     (if ps = [] then []
      else ensure (list_ex pl_enabled ps) E_no_plugin_enabled # plugin_loop 0 {} ps)"

section \<open>Observability\<close>

fun contains_whitespace :: "string \<Rightarrow> bool" where
  "contains_whitespace [] = False"
| "contains_whitespace (c # s) = (0 < ws_len (c # s) \<or> contains_whitespace s)"

definition trim_end_slashes :: "string \<Rightarrow> string" where
  "trim_end_slashes s = rev (dropWhile (\<lambda>c. c = CHR ''/'') (rev s))"

definition validate_observability_url :: "string \<Rightarrow> bool \<Rightarrow> url_error check list" where
  "validate_observability_url raw allow_signal_path =
     (let value = trim raw in
      [ensure (starts_with ''http://'' value \<or> starts_with ''https://'' value) U_scheme,
       ensure (\<not> contains_whitespace value) U_whitespace] @
      (if \<not> allow_signal_path then
         [ensure (\<not> contains_char (CHR ''?'') value \<and> \<not> contains_char (CHR ''#'') value) U_query,
          ensure (\<not> ends_with ''/v1'' (trim_end_slashes value)) U_v1] @
         map (\<lambda>signal. ensure (\<not> ends_with (''/v1/'' @ signal) value) (U_v1_signal signal))
           [''logs'', ''metrics'', ''traces'', ''profiles'']
       else []))"

definition url_checks :: "string \<Rightarrow> string \<Rightarrow> bool \<Rightarrow> obs_error check list" where
  "url_checks name value allow =
     (if \<not> is_blank value then map (map_option (O_url name)) (validate_observability_url value allow) else [])"

text \<open>\<open>is_finite() && (0.0..=1.0).contains()\<close> on the bits: zero of either sign, or up to the bits of 1.0.\<close>

definition in_unit_interval :: "f64 \<Rightarrow> bool" where
  "in_unit_interval x = (x \<le> 0x3FF0000000000000 \<or> x = 0x8000000000000000)"

definition validate_observability :: "host \<Rightarrow> observability_config \<Rightarrow> obs_error check list" where
  "validate_observability h c =
     (if \<not> ob_enabled c then []
      else
        (case ob_service_name c of Some n \<Rightarrow> [ensure (\<not> is_blank n) O_service_name] | None \<Rightarrow> []) @
        [ensure (logs_enabled (ob_logs c) \<or> metrics_enabled (ob_metrics c) \<or> traces_enabled (ob_traces c)
           \<or> profiles_enabled (ob_profiles c)) O_no_signal] @
        url_checks ''observability.endpoint'' (ob_endpoint c) False @
        concat (map (\<lambda>(name, endpoint). case endpoint of Some e \<Rightarrow> url_checks name e True | None \<Rightarrow> [])
          [(''observability.logs.endpoint'', logs_endpoint (ob_logs c)),
           (''observability.metrics.endpoint'', metrics_endpoint (ob_metrics c)),
           (''observability.traces.endpoint'', traces_endpoint (ob_traces c)),
           (''observability.profiles.endpoint'', profiles_endpoint (ob_profiles c))]) @
        [ensure (ob_timeout_secs c > 0) O_timeout,
         ensure (to_lower (logs_level (ob_logs c)) \<in> {''trace'', ''debug'', ''info'', ''warn'', ''error''}) O_log_level,
         ensure (metrics_interval_secs (ob_metrics c) > 0) O_metrics_interval,
         ensure (in_unit_interval (sample_ratio (ob_traces c))) O_sample_ratio,
         ensure (max_queue_size (ob_traces c) > 0) O_queue_size,
         ensure (max_export_batch_size (ob_traces c) > 0 \<and>
           max_export_batch_size (ob_traces c) \<le> max_queue_size (ob_traces c)) O_batch_size,
         ensure (scheduled_delay_ms (ob_traces c) > 0) O_scheduled_delay,
         ensure (profiles_interval_secs (ob_profiles c) > 0) O_profiles_interval,
         ensure (profiles_duration_secs (ob_profiles c) > 0 \<and>
           profiles_duration_secs (ob_profiles c) \<le> profiles_interval_secs (ob_profiles c)) O_profiles_duration,
         ensure (1 \<le> sint (frequency_hz (ob_profiles c)) \<and> sint (frequency_hz (ob_profiles c)) \<le> 1000) O_profiles_frequency] @
        (if profiles_enabled (ob_profiles c) then [ensure (host_linux h \<or> host_macos h) O_profiles_platform] else []) @
        (case ob_basic_auth c of
           Some a \<Rightarrow> [ensure (\<not> is_blank (ba_username a) \<and> ba_password a \<noteq> []) O_basic_auth]
         | None \<Rightarrow> []))"

section \<open>The whole configuration\<close>

definition validate_server :: "host \<Rightarrow> server_config \<Rightarrow> config_error check list" where
  "validate_server h s =
     [ensure (worker_threads s > 0) E_worker_threads,
      ensure (reuseport_listen_num s \<ge> 1) E_reuseport_zero] @
     (if reuseport_listen_num s > 1 then [ensure (host_linux h) E_reuseport_platform] else []) @
     (case cpu_affinity s of
        None \<Rightarrow> []
      | Some affinity \<Rightarrow>
          [ensure (affinity \<noteq> []) E_affinity_empty,
           ensure (length affinity = unat (worker_threads s)) (E_affinity_length (length affinity) (worker_threads s))] @
          check_unique E_affinity_duplicate {} affinity) @
     (case server_tls s of
        None \<Rightarrow> []
      | Some t \<Rightarrow> if tls_enabled t then
            [ensure (path_exists h (tls_cert_path t)) (E_tls_cert (tls_cert_path t)),
             ensure (path_exists h (tls_key_path t)) (E_tls_key (tls_key_path t))] else []) @
     (case server_https s of
        None \<Rightarrow> []
      | Some t \<Rightarrow> if https_enabled t then
            [ensure (path_exists h (https_cert_path t)) (E_https_cert (https_cert_path t)),
             ensure (path_exists h (https_key_path t)) (E_https_key (https_key_path t))] else [])"

definition validate_remote :: "remote_config \<Rightarrow> config_error check list" where
  "validate_remote r =
     (if rc_enabled r then
        [ensure (rc_server_addr r \<noteq> []) E_remote_server_addr, ensure (rc_data_id r \<noteq> []) E_remote_data_id]
      else [])"

definition validate_xdp :: "xdp_config \<Rightarrow> config_error check list" where
  "validate_xdp x =
     (if xdp_enabled x then
        [ensure (cache_size x > 0) E_xdp_cache_size,
         ensure (negative_ttl x > 0) E_xdp_negative_ttl,
         ensure (attach_mode x = ''auto'' \<or> attach_mode x = ''manual'') E_xdp_attach_mode,
         ensure (starts_with ''/sys/fs/bpf/'' (pin_path x)) E_xdp_pin_dir,
         ensure (\<not> contains_char (CHR ''.'') (pin_path x)) E_xdp_pin_dot]
      else [])"

fun endpoint_loop :: "string set \<Rightarrow> string list \<Rightarrow> config_error check list" where
  "endpoint_loop seen [] = []"
| "endpoint_loop seen (e # es) =
     [ensure (e \<in> set CONTROL_ENDPOINTS) (E_control_unknown e), ensure (e \<notin> seen) (E_control_duplicate e)] @
     endpoint_loop (insert e seen) es"

definition validate_control :: "control_config \<Rightarrow> config_error check list" where
  "validate_control c =
     (if ctl_enabled c then
        [ensure (socket_addr (ctl_listen_addr c) (ctl_port c) \<noteq> None) (E_control_addr (ctl_listen_addr c)),
         ensure (ctl_endpoints c \<noteq> []) E_control_no_endpoints] @
        endpoint_loop {} (ctl_endpoints c)
      else [])"

definition validate_config :: "host \<Rightarrow> doggy_dns_config \<Rightarrow> (config_error, unit) result" where
  "validate_config h c = first_error
     (validate_server h (cfg_server c) @
      validate_remote (cfg_remote c) @
      validate_plugins (cfg_plugins c) @
      map (map_option E_observability) (validate_observability h (cfg_observability c)) @
      validate_xdp (cfg_xdp c) @
      validate_control (cfg_control c))"

section \<open>Loading\<close>

datatype load_config_error =
    L_read | L_toml | L_env "string \<times> env_error" | L_shape | L_invalid config_error

text \<open>The TOML parser and the typed deserialiser are the library's; \<open>environment\<close> is \<open>std::env::var\<close>.\<close>

definition parse_config ::
  "(string \<Rightarrow> toml_value option) \<Rightarrow> (toml_value \<Rightarrow> doggy_dns_config option) \<Rightarrow> (string \<Rightarrow> string option) \<Rightarrow> host \<Rightarrow>
     string \<Rightarrow> (load_config_error, doggy_dns_config) result" where
  "parse_config from_str try_into environment h content = (case from_str content of
       None \<Rightarrow> Inl L_toml
     | Some document \<Rightarrow>
         (case expand_env_in_value environment document of
            Inl e \<Rightarrow> Inl (L_env e)
          | Inr document' \<Rightarrow>
              (case try_into document' of
                 None \<Rightarrow> Inl L_shape
               | Some config \<Rightarrow>
                   (case validate_config h config of Inl e \<Rightarrow> Inl (L_invalid e) | Inr _ \<Rightarrow> Inr config))))"

definition load_config ::
  "(string \<Rightarrow> string option) \<Rightarrow> (string \<Rightarrow> toml_value option) \<Rightarrow> (toml_value \<Rightarrow> doggy_dns_config option) \<Rightarrow>
     (string \<Rightarrow> string option) \<Rightarrow> host \<Rightarrow> string \<Rightarrow> (load_config_error, doggy_dns_config \<times> string) result" where
  "load_config read_file from_str try_into environment h path = (case read_file path of
       None \<Rightarrow> Inl L_read
     | Some content \<Rightarrow>
         (case parse_config from_str try_into environment h content of
            Inl e \<Rightarrow> Inl e | Inr config \<Rightarrow> Inr (config, content)))"

section \<open>What a valid configuration guarantees\<close>

definition zone_ok :: "string \<Rightarrow> bool" where
  "zone_ok z = (z \<noteq> [] \<and> length z \<le> 253 \<and>
     list_all (\<lambda>l. l \<noteq> [] \<and> length l \<le> 63 \<and> list_all zone_char l) (split_on (CHR ''.'') z))"

definition given :: "string option \<Rightarrow> bool" where
  "given v = (\<exists>s. v = Some s \<and> trim s \<noteq> [])"

definition plugin_ok :: "plugin_config \<Rightarrow> bool" where
  "plugin_ok p = (case pl_kind p of
       Nacos \<Rightarrow> given (pl_server_addr p) \<and> given (pl_namespace p) \<and> given (pl_group p) \<and> given (pl_dns_zone p) \<and>
         zone_ok (configured_zone p) \<and> (pl_service_pattern p = None \<or> given (pl_service_pattern p))
     | Native \<Rightarrow> pl_min_ttl p \<le> pl_max_ttl p
     | Forward \<Rightarrow> pl_min_ttl p \<le> pl_max_ttl p \<and>
         (case pl_upstream p of None \<Rightarrow> True
          | Some us \<Rightarrow> us \<noteq> [] \<and> list_all (\<lambda>a. parse_socket_addr a \<noteq> None \<or> parse_ip_addr a \<noteq> None) us))"

definition nacos_zones :: "plugin_config list \<Rightarrow> string list" where
  "nacos_zones ps = map (to_lower \<circ> configured_zone) (filter (\<lambda>p. pl_enabled p \<and> pl_kind p = Nacos) ps)"

lemma given_iff: "(case v of Some s \<Rightarrow> \<not> is_blank s | None \<Rightarrow> False) \<longleftrightarrow> given v"
  by (auto simp: given_def is_blank_def split: option.splits)

lemma validate_dns_zone_iff [check_simps]:
  "list_all (\<lambda>c. c = None) (validate_dns_zone z) \<longleftrightarrow> zone_ok z"
  by (auto simp: validate_dns_zone_def zone_ok_def check_simps list_all_iff)

lemma validate_plugin_iff [check_simps]:
  "list_all (\<lambda>c. c = None) (validate_plugin zones p) \<longleftrightarrow>
     plugin_ok p \<and> (pl_kind p = Nacos \<longrightarrow> to_lower (configured_zone p) \<notin> zones)"
  by (auto simp: validate_plugin_def plugin_ok_def check_simps nacos_required_def given_iff validate_resolver_ttls_def
      validate_upstream_def is_blank_def given_def list.pred_map comp_def split: plugin_kind.splits option.splits)

lemma plugin_loop_iff [check_simps]:
  "list_all (\<lambda>c. c = None) (plugin_loop i zones ps) \<longleftrightarrow>
     list_all plugin_ok (filter pl_enabled ps) \<and> distinct (nacos_zones ps) \<and> set (nacos_zones ps) \<inter> zones = {}"
  by (induction i zones ps rule: plugin_loop.induct) (auto simp: check_simps nacos_zones_def)

text \<open>The plugin section is accepted exactly when it is absent or has an enabled plugin, every enabled
  plugin is complete for its kind (a Nacos zone is made of valid DNS labels within the length limits, resolver TTLs
  are ordered, every upstream is an address), and no two enabled Nacos plugins serve the same zone, whatever the case
  and a trailing dot.\<close>

theorem validate_plugins_iff:
  "passes (validate_plugins ps) \<longleftrightarrow>
     ps = [] \<or> (list_ex pl_enabled ps \<and> list_all plugin_ok (filter pl_enabled ps) \<and> distinct (nacos_zones ps))"
  by (auto simp: validate_plugins_def check_simps)

lemma endpoint_loop_iff [check_simps]:
  "list_all (\<lambda>c. c = None) (endpoint_loop seen es) \<longleftrightarrow> distinct es \<and> set es \<subseteq> set CONTROL_ENDPOINTS \<and> set es \<inter> seen = {}"
  by (induction seen es rule: endpoint_loop.induct) (auto simp: check_simps)

lemma validate_config_parts:
  "validate_config h c = Inr () \<longleftrightarrow>
     passes (validate_server h (cfg_server c)) \<and> passes (validate_remote (cfg_remote c)) \<and>
     passes (validate_plugins (cfg_plugins c)) \<and> passes (validate_observability h (cfg_observability c)) \<and>
     passes (validate_xdp (cfg_xdp c)) \<and> passes (validate_control (cfg_control c))"
  by (simp add: validate_config_def check_simps)

text \<open>Everything has a default that works: the configuration with only a listen address and a port is
  valid, and stays valid when the observability export, the XDP fast path and the control plane are all
  switched on without touching another setting.\<close>

theorem default_config_valid:
  "validate_config h (default_config addr port) = Inr () \<and>
   validate_config h ((default_config addr port)
     \<lparr>cfg_observability := default_observability\<lparr>ob_enabled := True\<rparr>,
      cfg_xdp := default_xdp\<lparr>xdp_enabled := True\<rparr>,
      cfg_control := default_control\<lparr>ctl_enabled := True\<rparr>\<rparr>) = Inr ()"
proof
  have srv: "passes (validate_server h (default_server addr port))"
    by (simp add: validate_server_def default_server_def check_simps)
  have rem: "passes (validate_remote default_remote)" by (simp add: validate_remote_def default_remote_def check_simps)
  show "validate_config h (default_config addr port) = Inr ()"
    unfolding validate_config_parts
    by (simp add: default_config_def srv rem)
      (simp add: validate_plugins_def validate_observability_def default_observability_def validate_xdp_def default_xdp_def
        validate_control_def default_control_def check_simps)
  have "to_lower ''warn'' = ''warn''" by code_simp
  then have obs: "passes (validate_observability h (default_observability\<lparr>ob_enabled := True\<rparr>))"
    by (simp add: validate_observability_def default_observability_def default_logs_def default_metrics_def default_traces_def
        default_profiles_def url_checks_def is_blank_def in_unit_interval_def check_simps)
  have xdp: "passes (validate_xdp (default_xdp\<lparr>xdp_enabled := True\<rparr>))"
    by (simp add: validate_xdp_def default_xdp_def starts_with_def contains_char_def check_simps)
  have "socket_addr ''127.0.0.1'' 19090 \<noteq> None" by code_simp
  then have ctl: "passes (validate_control (default_control\<lparr>ctl_enabled := True\<rparr>))"
    by (simp add: validate_control_def default_control_def CONTROL_ENDPOINTS_def check_simps)
  show "validate_config h ((default_config addr port)
     \<lparr>cfg_observability := default_observability\<lparr>ob_enabled := True\<rparr>,
      cfg_xdp := default_xdp\<lparr>xdp_enabled := True\<rparr>,
      cfg_control := default_control\<lparr>ctl_enabled := True\<rparr>\<rparr>) = Inr ()"
    unfolding validate_config_parts
    by (simp add: default_config_def srv rem obs xdp ctl) (simp add: validate_plugins_def first_error.simps)
qed

end
