(* ===== verification/Control_Plane.thy ===== *)
theory Control_Plane
  imports Basic_Validate "HOL-Library.List_Lexorder" "HOL-Library.Char_ord"
begin

text \<open>
  The control plane (\<open>crates/doggy-dns-control/src\<close>): redaction of the configuration (\<open>redact.rs\<close>), the live signal
  registry (\<open>live.rs\<close>), the start-up snapshot (\<open>lib.rs\<close>, \<open>state.rs\<close>), the MCP tools (\<open>server.rs\<close>), and the router
  with its bearer check and the retried bind (\<open>transport.rs\<close>). The TOML parser and printer, the JSON printer, the HTTP
  server and the clock are arguments.
\<close>

section \<open>Redaction\<close>

definition SENSITIVE_KEYS :: "string list" where
  "SENSITIVE_KEYS = [''password'', ''passwd'', ''secret'', ''token'', ''authorization'', ''api_key'', ''apikey'']"

definition is_sensitive :: "string \<Rightarrow> bool" where
  "is_sensitive key = (to_lower key \<in> set SENSITIVE_KEYS)"

text \<open>The redacted value and the paths pushed while walking it.\<close>

fun redact_value :: "string \<Rightarrow> toml_value \<Rightarrow> toml_value \<times> string list"
and redact_table :: "string \<Rightarrow> (string \<times> toml_value) list \<Rightarrow> (string \<times> toml_value) list \<times> string list"
and redact_items :: "string \<Rightarrow> nat \<Rightarrow> toml_value list \<Rightarrow> toml_value list \<times> string list" where
  "redact_value path (T_Table kvs) = (let (kvs', r) = redact_table path kvs in (T_Table kvs', r))"
| "redact_value path (T_Array xs) = (let (xs', r) = redact_items path 0 xs in (T_Array xs', r))"
| "redact_value path other = (other, [])"
| "redact_table path [] = ([], [])"
| "redact_table path ((key, child) # kvs) = (
     let (child', r1) =
           (case child of
              T_String s \<Rightarrow> if is_sensitive key then (T_String ''***'', [child_path path key])
                            else redact_value (child_path path key) child
            | _ \<Rightarrow> redact_value (child_path path key) child);
         (kvs', r2) = redact_table path kvs
     in ((key, child') # kvs', r1 @ r2))"
| "redact_items path i [] = ([], [])"
| "redact_items path i (x # xs) = (
     let (x', r1) = redact_value (item_path path i) x; (xs', r2) = redact_items path (Suc i) xs
     in (x' # xs', r1 @ r2))"

datatype redact_error = ParseError | SerializeError

definition redact_toml ::
  "(string \<Rightarrow> toml_value option) \<Rightarrow> (toml_value \<Rightarrow> string option) \<Rightarrow> string \<Rightarrow> (redact_error, string \<times> string list) result" where
  "redact_toml from_str to_string_pretty input = (case from_str input of
       None \<Rightarrow> Inl ParseError
     | Some doc \<Rightarrow>
         (case redact_value [] doc of (doc', redacted) \<Rightarrow>
            (case to_string_pretty doc' of None \<Rightarrow> Inl SerializeError | Some out \<Rightarrow> Inr (out, redacted))))"

datatype config_snapshot =
    Redacted string "string list"
  | Snapshot_Error string redact_error

definition capture ::
  "(string \<Rightarrow> toml_value option) \<Rightarrow> (toml_value \<Rightarrow> string option) \<Rightarrow> string \<Rightarrow> config_snapshot" where
  "capture from_str to_string_pretty raw = (case redact_toml from_str to_string_pretty raw of
       Inr (content, keys) \<Rightarrow> Redacted content keys
     | Inl e \<Rightarrow> Snapshot_Error ''config_parse_error'' e)"

section \<open>JSON\<close>

datatype json =
    J_String string
  | J_Number int
  | J_Bool bool
  | J_Array "json list"
  | J_Object "(string \<times> json) list"

text \<open>\<open>serde_json::Map::insert\<close>: the object is a \<open>BTreeMap\<close>, its entries in the order of their keys.\<close>

fun json_insert :: "string \<Rightarrow> json \<Rightarrow> (string \<times> json) list \<Rightarrow> (string \<times> json) list" where
  "json_insert k v [] = [(k, v)]"
| "json_insert k v ((k', v') # kvs) = 
     (if k' = k then (k, v) # kvs else if k < k' then (k, v) # (k', v') # kvs else (k', v') # json_insert k v kvs)"

lemma map_of_json_insert [simp]: "map_of (json_insert k v kvs) = (map_of kvs)(k \<mapsto> v)"
  by (induction k v kvs rule: json_insert.induct) auto

section \<open>Live signals\<close>

text \<open>A probe is a closure over live counters: its value in the state \<open>'s\<close> of the process at the call.\<close>

type_synonym 's live_state = "(string \<times> ('s \<Rightarrow> json)) list"

definition live_register :: "string \<Rightarrow> ('s \<Rightarrow> json) \<Rightarrow> 's live_state \<Rightarrow> 's live_state" where
  "live_register name probe live = live @ [(name, probe)]"

definition register_nacos_zone :: "string \<Rightarrow> ('s \<Rightarrow> u64) \<Rightarrow> 's live_state \<Rightarrow> 's live_state" where
  "register_nacos_zone zone subscribed_services =
     live_register (''nacos.'' @ zone)
       (\<lambda>s. J_Object (json_insert ''subscribedServices'' (J_Number (uint (subscribed_services s))) []))"

definition register_xdp :: "('s \<Rightarrow> bool) \<Rightarrow> 's live_state \<Rightarrow> 's live_state" where
  "register_xdp attached =
     live_register ''xdp'' (\<lambda>s. J_Object (json_insert ''attached'' (J_Bool (attached s)) []))"

fun snapshot_signals :: "'s \<Rightarrow> 's live_state \<Rightarrow> (string \<times> json) list \<Rightarrow> (string \<times> json) list" where
  "snapshot_signals s [] signals = signals"
| "snapshot_signals s ((name, probe) # probes) signals =
     snapshot_signals s probes (json_insert name (probe s) signals)"

definition live_snapshot :: "'s \<Rightarrow> 's live_state \<Rightarrow> json" where
  "live_snapshot s live = J_Object (json_insert ''signals'' (J_Object (snapshot_signals s live [])) [])"

text \<open>\<open>build_live_state\<close> of the binary: one probe per watched zone, then the XDP flag.\<close>

definition build_live_state :: "(string \<times> ('s \<Rightarrow> u64)) list \<Rightarrow> bool \<Rightarrow> 's live_state" where
  "build_live_state watchers xdp_attached =
     register_xdp (\<lambda>_. xdp_attached) (fold (\<lambda>(zone, n). register_nacos_zone zone n) watchers [])"

section \<open>Snapshots of the configuration\<close>

record plugin_snapshot =
  ps_order :: nat
  ps_kind :: string
  ps_enabled :: bool
  ps_details :: json

definition or_else :: "string option \<Rightarrow> string \<Rightarrow> string" where
  "or_else v d = (case v of Some s \<Rightarrow> s | None \<Rightarrow> d)"

definition resolver_details :: "plugin_config \<Rightarrow> (string \<times> json) list \<Rightarrow> json" where
  "resolver_details p m = J_Object
     (json_insert ''maxTtl'' (J_Number (uint (pl_max_ttl p)))
       (json_insert ''minTtl'' (J_Number (uint (pl_min_ttl p)))
         (json_insert ''cacheSize'' (J_Number (uint (pl_cache_size p))) m)))"

definition kind_name :: "plugin_kind \<Rightarrow> string" where
  "kind_name k = (case k of Nacos \<Rightarrow> ''nacos'' | Native \<Rightarrow> ''native'' | Forward \<Rightarrow> ''forward'')"

definition from_config :: "nat \<Rightarrow> plugin_config \<Rightarrow> plugin_snapshot" where
  "from_config order p = \<lparr>ps_order = order, ps_kind = kind_name (pl_kind p), ps_enabled = pl_enabled p,
     ps_details = (case pl_kind p of
         Nacos \<Rightarrow> J_Object
           (json_insert ''ttl'' (J_Number (uint (pl_ttl p)))
             (json_insert ''dnsZone'' (J_String (or_else (pl_dns_zone p) ''nacos.local''))
               (json_insert ''group'' (J_String (or_else (pl_group p) ''DEFAULT_GROUP''))
                 (json_insert ''namespace'' (J_String (or_else (pl_namespace p) ''public''))
                   (json_insert ''serverAddr'' (J_String (or_else (pl_server_addr p) ''127.0.0.1:8848'')) [])))))
       | Native \<Rightarrow> resolver_details p []
       | Forward \<Rightarrow> resolver_details p
           (json_insert ''upstream'' (J_Array (map J_String (case pl_upstream p of Some u \<Rightarrow> u | None \<Rightarrow> []))) []))\<rparr>"

definition snapshots_from :: "plugin_config list \<Rightarrow> plugin_snapshot list" where
  "snapshots_from plugins = map (\<lambda>(order, p). from_config order p) (enumerate 0 plugins)"

definition enabled_protocols :: "doggy_dns_config \<Rightarrow> string list" where
  "enabled_protocols c = [''udp'', ''tcp''] @
     (case server_tls (cfg_server c) of Some t \<Rightarrow> if tls_enabled t then [''dot''] else [] | None \<Rightarrow> []) @
     (case server_https (cfg_server c) of Some h \<Rightarrow> if https_enabled h then [''doh''] else [] | None \<Rightarrow> [])"

record mcp_state =
  ms_instance_id :: string
  ms_host :: string
  ms_pid :: u32
  ms_version :: string
  ms_started_at :: int
  ms_listen_addr :: string
  ms_protocols :: "string list"
  ms_plugins :: "plugin_snapshot list"
  ms_config :: config_snapshot

text \<open>The parser and the printer of TOML, and the process: its identifier and its start.\<close>

record process =
  ps_from_str :: "string \<Rightarrow> toml_value option"
  ps_to_string :: "toml_value \<Rightarrow> string option"
  ps_hostname :: string
  ps_pid :: u32
  ps_now :: int

definition from_parts ::
  "process \<Rightarrow> string \<Rightarrow> u32 \<Rightarrow> string \<Rightarrow> int \<Rightarrow> string \<Rightarrow> string list \<Rightarrow> plugin_snapshot list \<Rightarrow> string \<Rightarrow> mcp_state" where
  "from_parts ps host pid version started_at addr protocols plugins config_content =
     \<lparr>ms_instance_id = host @ ''-'' @ show_nat (unat pid), ms_host = host, ms_pid = pid, ms_version = version,
      ms_started_at = started_at, ms_listen_addr = addr, ms_protocols = protocols, ms_plugins = plugins,
      ms_config = capture (ps_from_str ps) (ps_to_string ps) config_content\<rparr>"

definition build_state ::
  "process \<Rightarrow> string \<Rightarrow> string \<Rightarrow> string \<Rightarrow> string list \<Rightarrow> plugin_snapshot list \<Rightarrow> string \<Rightarrow> mcp_state" where
  "build_state ps host version addr protocols plugins config_content =
     from_parts ps host (ps_pid ps) version (ps_now ps) addr protocols plugins config_content"

section \<open>The MCP tools\<close>

text \<open>Clocks are milliseconds; a tool's answer is the JSON value printed into its text block.\<close>

fun json_object :: "(string \<times> json) list \<Rightarrow> (string \<times> json) list \<Rightarrow> json" where
  "json_object [] m = J_Object m"
| "json_object ((k, v) # kvs) m = json_object kvs (json_insert k v m)"

definition get_status :: "(int \<Rightarrow> string) \<Rightarrow> int \<Rightarrow> mcp_state \<Rightarrow> json" where
  "get_status to_rfc3339 now st = json_object
     [(''instanceId'', J_String (ms_instance_id st)), (''host'', J_String (ms_host st)),
      (''version'', J_String (ms_version st)), (''pid'', J_Number (uint (ms_pid st))),
      (''uptimeSeconds'', J_Number (max ((now - ms_started_at st) div 1000) 0)),
      (''startedAt'', J_String (to_rfc3339 (ms_started_at st))), (''listenAddr'', J_String (ms_listen_addr st)),
      (''protocols'', J_Array (map J_String (ms_protocols st))), (''status'', J_String ''running'')] []"

definition plugin_json :: "plugin_snapshot \<Rightarrow> json" where
  "plugin_json p = json_object [(''order'', J_Number (int (ps_order p))), (''kind'', J_String (ps_kind p)),
     (''enabled'', J_Bool (ps_enabled p)), (''details'', ps_details p)] []"

definition list_plugins :: "mcp_state \<Rightarrow> json" where
  "list_plugins st = json_object [(''plugins'', J_Array (map plugin_json (ms_plugins st)))] []"

definition error_json :: "string \<Rightarrow> string \<Rightarrow> json" where
  "error_json code message =
     json_object [(''error'', json_object [(''code'', J_String code), (''message'', J_String message)] [])] []"

definition get_config :: "(redact_error \<Rightarrow> string) \<Rightarrow> mcp_state \<Rightarrow> json" where
  "get_config show_error st = (case ms_config st of
       Redacted content keys \<Rightarrow> json_object [(''format'', J_String ''toml''), (''content'', J_String content),
         (''redactedKeys'', J_Array (map J_String keys))] []
     | Snapshot_Error code e \<Rightarrow> error_json code (''failed to parse config: '' @ show_error e))"

section \<open>The router\<close>

datatype http_response = Not_found | Unauthorized | To_mcp | Healthz | Readyz

definition has_endpoint :: "control_config \<Rightarrow> string \<Rightarrow> bool" where
  "has_endpoint c name = (name \<in> set (ctl_endpoints c))"

text \<open>A GET request by path and by its \<open>Authorization\<close> header, when that header is visible ASCII.\<close>

definition route :: "control_config \<Rightarrow> string \<Rightarrow> string option \<Rightarrow> http_response" where
  "route c path auth =
     (if has_endpoint c ''mcp'' \<and> (path = ''/mcp'' \<or> starts_with ''/mcp/'' path) then
        (case ctl_token c of
           None \<Rightarrow> To_mcp
         | Some token \<Rightarrow> if auth = Some (''Bearer '' @ token) then To_mcp else Unauthorized)
      else if has_endpoint c ''healthz'' \<and> path = ''/healthz'' then Healthz
      else if has_endpoint c ''readyz'' \<and> path = ''/readyz'' then Readyz
      else Not_found)"

text \<open>The bind loop: each attempt with whether it bound and, when it did not, whether the wait after it was
  cancelled. The state reached and the number of warnings written; \<^term>\<open>None\<close> is still waiting.\<close>

fun bind_loop :: "(bool \<times> bool) list \<Rightarrow> bool option \<times> nat" where
  "bind_loop [] = (None, 0)"
| "bind_loop ((bound, cancelled) # attempts) =
     (if bound then (Some True, 0)
      else if cancelled then (Some False, 1)
      else let (r, w) = bind_loop attempts in (r, Suc w))"

definition start_retrying ::
  "control_config \<Rightarrow> (bool \<times> bool) list \<Rightarrow> (unit, (ip_addr \<times> u16) \<times> bool option \<times> nat) result" where
  "start_retrying c attempts = (case socket_addr (ctl_listen_addr c) (ctl_port c) of
       None \<Rightarrow> Inl ()
     | Some addr \<Rightarrow> Inr (addr, bind_loop attempts))"

section \<open>What redaction does to the leaves\<close>

definition is_string :: "toml_value \<Rightarrow> bool" where
  "is_string v = (case v of T_String _ \<Rightarrow> True | _ \<Rightarrow> False)"

text \<open>The keys whose values the crate's \<open>README.md\<close> promises to replace, in any letter case.\<close>

definition documented_key :: "string \<Rightarrow> bool" where
  "documented_key k = (to_lower k \<in> {''password'', ''token'', ''secret'', ''authorization'', ''api_key'', ''apikey'', ''passwd''})"

lemma is_sensitive_documented: "is_sensitive k = documented_key k"
  by (auto simp: is_sensitive_def documented_key_def SENSITIVE_KEYS_def)

text \<open>The leaves of a document in order: the path, whether it stands directly under a documented key, the value.\<close>

fun toml_leaves :: "bool \<Rightarrow> string \<Rightarrow> toml_value \<Rightarrow> (string \<times> bool \<times> toml_value) list"
and table_leaves :: "string \<Rightarrow> (string \<times> toml_value) list \<Rightarrow> (string \<times> bool \<times> toml_value) list"
and items_leaves :: "string \<Rightarrow> nat \<Rightarrow> toml_value list \<Rightarrow> (string \<times> bool \<times> toml_value) list" where
  "toml_leaves s path (T_Table kvs) = table_leaves path kvs"
| "toml_leaves s path (T_Array xs) = items_leaves path 0 xs"
| "toml_leaves s path other = [(path, s, other)]"
| "table_leaves path [] = []"
| "table_leaves path ((k, v) # kvs) = toml_leaves (documented_key k) (child_path path k) v @ table_leaves path kvs"
| "items_leaves path i [] = []"
| "items_leaves path i (x # xs) = toml_leaves False (item_path path i) x @ items_leaves path (Suc i) xs"

definition secret :: "string \<times> bool \<times> toml_value \<Rightarrow> bool" where
  "secret = (\<lambda>(path, s, v). s \<and> is_string v)"

definition hide :: "string \<times> bool \<times> toml_value \<Rightarrow> string \<times> bool \<times> toml_value" where
  "hide l = (case l of (path, s, v) \<Rightarrow> (path, s, if secret l then T_String ''***'' else v))"

lemma leaf_simps [simp]:
  "secret (path, s, v) = (s \<and> is_string v)"
  "hide (path, s, v) = (path, s, if s \<and> is_string v then T_String ''***'' else v)"
  "is_string (T_String t)" "\<not> is_string (T_Table kvs)" "\<not> is_string (T_Array xs)" "\<not> is_string (T_Integer i)"
  "\<not> is_string (T_Float f)" "\<not> is_string (T_Boolean b)" "\<not> is_string (T_Datetime d)"
  by (simp_all add: secret_def hide_def is_string_def)

lemma redact_leaves_aux:
  "\<not> (s \<and> is_string v) \<Longrightarrow> toml_leaves s path (fst (redact_value path v)) = map hide (toml_leaves s path v) \<and>
     snd (redact_value path v) = map fst (filter secret (toml_leaves s path v))"
  "table_leaves path (fst (redact_table path kvs)) = map hide (table_leaves path kvs) \<and>
     snd (redact_table path kvs) = map fst (filter secret (table_leaves path kvs))"
  "items_leaves path i (fst (redact_items path i xs)) = map hide (items_leaves path i xs) \<and>
     snd (redact_items path i xs) = map fst (filter secret (items_leaves path i xs))"
proof (induction path v and path kvs and path i xs arbitrary: s and rule: redact_value_redact_table_redact_items.induct)
  case (5 path key child kvs)
  note [simp] = is_sensitive_documented
  note kvs = 5(8) [OF refl surjective_pairing [symmetric]]
  show ?case
  proof (cases "documented_key key \<and> is_string child")
    case True
    then obtain t where "child = T_String t" by (auto simp: is_string_def split: toml_value.splits)
    with True kvs show ?thesis by (simp add: split_beta)
  next
    case False
    have r: "redact_table path ((key, child) # kvs) =
        (let (c, r1) = redact_value (child_path path key) child; (ks, r2) = redact_table path kvs in ((key, c) # ks, r1 @ r2))"
      using False by (auto simp: is_string_def split: toml_value.splits)
    have "toml_leaves (documented_key key) (child_path path key) (fst (redact_value (child_path path key) child)) =
        map hide (toml_leaves (documented_key key) (child_path path key) child) \<and>
      snd (redact_value (child_path path key) child) =
        map fst (filter secret (toml_leaves (documented_key key) (child_path path key) child))"
      using 5(1-7) False by (cases child) auto
    with kvs r show ?thesis by (simp add: split_beta)
  qed
next
  case (7 path i x xs)
  show ?case
    using 7(1) [of False] 7(2) [OF refl surjective_pairing [symmetric]] by (simp add: split_beta)
qed (simp_all add: split_beta)

text \<open>A document whose documented keys have strings for values.\<close>

fun plain_secrets :: "toml_value \<Rightarrow> bool"
and table_plain :: "(string \<times> toml_value) list \<Rightarrow> bool"
and items_plain :: "toml_value list \<Rightarrow> bool" where
  "plain_secrets (T_Table kvs) = table_plain kvs"
| "plain_secrets (T_Array xs) = items_plain xs"
| "plain_secrets other = True"
| "table_plain [] = True"
| "table_plain ((k, v) # kvs) = ((documented_key k \<longrightarrow> is_string v) \<and> plain_secrets v \<and> table_plain kvs)"
| "items_plain [] = True"
| "items_plain (x # xs) = (plain_secrets x \<and> items_plain xs)"

lemma plain_leaves:
  "plain_secrets v \<Longrightarrow> (s \<longrightarrow> is_string v) \<Longrightarrow> l \<in> set (toml_leaves s path v) \<Longrightarrow> fst (snd l) \<Longrightarrow> is_string (snd (snd l))"
  "table_plain kvs \<Longrightarrow> l \<in> set (table_leaves path kvs) \<Longrightarrow> fst (snd l) \<Longrightarrow> is_string (snd (snd l))"
  "items_plain xs \<Longrightarrow> l \<in> set (items_leaves path i xs) \<Longrightarrow> fst (snd l) \<Longrightarrow> is_string (snd (snd l))"
  by (induction s path v and path kvs and path i xs rule: toml_leaves_table_leaves_items_leaves.induct) auto

text \<open>C37. Redaction does what the \<open>README.md\<close> promises, for documents whose documented keys have strings for values: every value
  under a key that is one of the seven documented names in any letter case, at any depth, becomes three stars; every
  other value is as it was; and the list of redacted keys is the list of the paths of the hidden values, in document
  order.\<close>

theorem redact_exact:
  assumes "plain_secrets v"
  shows "toml_leaves False [] (fst (redact_value [] v)) =
      map (\<lambda>(path, documented, x). (path, documented, if documented then T_String ''***'' else x)) (toml_leaves False [] v) \<and>
    snd (redact_value [] v) = map fst (filter (\<lambda>(path, documented, x). documented) (toml_leaves False [] v))"
proof -
  let ?ls = "toml_leaves False [] v"
  have l: "is_string (snd (snd l))" if "l \<in> set ?ls" "fst (snd l)" for l
    using plain_leaves(1) [OF assms _ that] by simp
  have "map hide ?ls = map (\<lambda>(path, documented, x). (path, documented, if documented then T_String ''***'' else x)) ?ls"
    by (rule map_cong [OF refl]) (use l in fastforce)
  moreover have "filter secret ?ls = filter (\<lambda>(path, documented, x). documented) ?ls"
    by (rule filter_cong [OF refl]) (use l in fastforce)
  ultimately show ?thesis using redact_leaves_aux(1) [of False v "[]"] by simp
qed

theorem redact_exact_witness:
  "let v = T_Table [(''control'', T_Table [(''Token'', T_String ''t''), (''port'', T_Integer 5)])] in
   toml_leaves False [] (fst (redact_value [] v)) =
     [(''control.Token'', True, T_String ''***''), (''control.port'', False, T_Integer 5)] \<and>
   snd (redact_value [] v) = [''control.Token'']"
proof -
  let ?v = "T_Table [(''control'', T_Table [(''Token'', T_String ''t''), (''port'', T_Integer 5)])]"
  have k: "documented_key ''Token''" "\<not> documented_key ''control''" "\<not> documented_key ''port''" by code_simp+
  then have "plain_secrets ?v" by simp
  note r = redact_exact [OF this]
  show ?thesis unfolding Let_def
    by (simp only: r [THEN conjunct1] r [THEN conjunct2]) (simp add: k child_path_def)
qed

text \<open>A secret that is not a plain string is not hidden: a list of tokens under the key \<open>token\<close> is shown as it
  is and the key is not reported as redacted.\<close>

theorem list_of_secrets_shown:
  "redact_value [] (T_Table [(''token'', T_Array [T_String s])]) = (T_Table [(''token'', T_Array [T_String s])], [])"
  by simp

section \<open>Signals, routes and the bind\<close>

lemma snapshot_signals_map:
  "map_of (snapshot_signals s live m) = map_of m ++ map_of (rev (map (\<lambda>(n, p). (n, p s)) live))"
  by (induction s live m rule: snapshot_signals.induct) (auto simp: map_add_def fun_eq_iff split: option.splits)

lemma map_of_rev_distinct: "distinct (map fst xs) \<Longrightarrow> map_of (rev xs) = map_of xs"
  by (induction xs) (auto simp: map_add_comm map_of_eq_None_iff [symmetric] dom_map_of_conv_image_fst)

lemma build_live_state_probes:
  "build_live_state ws a = map (\<lambda>(z, n). (''nacos.'' @ z, \<lambda>s. J_Object [(''subscribedServices'', J_Number (uint (n s)))])) ws
     @ [(''xdp'', \<lambda>_. J_Object [(''attached'', J_Bool a)])]"
proof -
  have "fold (\<lambda>(zone, n). register_nacos_zone zone n) ws live =
      live @ map (\<lambda>(z, n). (''nacos.'' @ z, \<lambda>s. J_Object [(''subscribedServices'', J_Number (uint (n s)))])) ws" for live
    by (induction ws arbitrary: live) (auto simp: register_nacos_zone_def live_register_def)
  then show ?thesis by (simp add: build_live_state_def register_xdp_def live_register_def)
qed

lemma live_snapshot_signals:
  assumes "distinct (map fst ws)"
  shows "\<exists>sig. live_snapshot s (build_live_state ws a) = J_Object [(''signals'', J_Object sig)] \<and>
    map_of sig ''xdp'' = Some (J_Object [(''attached'', J_Bool a)]) \<and>
    (\<forall>(z, n) \<in> set ws. map_of sig (''nacos.'' @ z) = Some (J_Object [(''subscribedServices'', J_Number (uint (n s)))]))"
proof -
  let ?kvs = "map (\<lambda>(n, p). (n, p s)) (build_live_state ws a)"
  have k: "?kvs = map (\<lambda>(z, n). (''nacos.'' @ z, J_Object [(''subscribedServices'', J_Number (uint (n s)))])) ws
      @ [(''xdp'', J_Object [(''attached'', J_Bool a)])]"
    by (auto simp: build_live_state_probes)
  have "map fst ?kvs = map (\<lambda>z. ''nacos.'' @ z) (map fst ws) @ [''xdp'']"
    unfolding k by (simp add: split_def comp_def)
  with assms have d: "distinct (map fst ?kvs)" by (auto simp: distinct_map inj_on_def)
  have "map_of (snapshot_signals s (build_live_state ws a) []) = map_of ?kvs"
    using map_of_rev_distinct [OF d] by (simp add: snapshot_signals_map)
  then have m: "(x, y) \<in> set ?kvs \<Longrightarrow> map_of (snapshot_signals s (build_live_state ws a) []) x = Some y" for x y
    using d by (simp add: map_of_eq_Some_iff)
  have z: "map_of (snapshot_signals s (build_live_state ws a) []) (''nacos.'' @ z) =
      Some (J_Object [(''subscribedServices'', J_Number (uint (n s)))])" if "(z, n) \<in> set ws" for z n
    by (rule m) (use that in \<open>unfold k, force\<close>)
  have x: "map_of (snapshot_signals s (build_live_state ws a) []) ''xdp'' = Some (J_Object [(''attached'', J_Bool a)])"
    by (rule m) (simp add: k)
  show ?thesis
  proof (intro exI conjI)
    show "live_snapshot s (build_live_state ws a) = J_Object [(''signals'', J_Object (snapshot_signals s (build_live_state ws a) []))]"
      by (simp add: live_snapshot_def)
  qed (use x z in auto)
qed

text \<open>The control plane exposes only what was selected: the MCP endpoint answers if it is configured and, when a
  token is set, only to a request whose authorization header is exactly that bearer token; the two probes answer
  whenever they are configured, with or without a header.\<close>

theorem route_guarded:
  "(route c path auth = To_mcp \<longleftrightarrow>
      ''mcp'' \<in> set (ctl_endpoints c) \<and> (path = ''/mcp'' \<or> starts_with ''/mcp/'' path) \<and>
      (\<forall>token. ctl_token c = Some token \<longrightarrow> auth = Some (''Bearer '' @ token))) \<and>
   (route c ''/healthz'' auth = Healthz \<longleftrightarrow> ''healthz'' \<in> set (ctl_endpoints c)) \<and>
   (route c ''/readyz'' auth = Readyz \<longleftrightarrow> ''readyz'' \<in> set (ctl_endpoints c))"
proof -
  have "\<not> starts_with ''/mcp/'' ''/healthz''" "\<not> starts_with ''/mcp/'' ''/readyz''" by code_simp+
  then show ?thesis by (auto simp: route_def has_endpoint_def split: option.splits)
qed

theorem route_guarded_witness:
  "route (default_control\<lparr>ctl_token := Some ''t''\<rparr>) ''/mcp'' (Some ''Bearer t'') = To_mcp"
proof -
  have "''mcp'' \<in> set (ctl_endpoints default_control)" by code_simp
  then show ?thesis
    using route_guarded [of "default_control\<lparr>ctl_token := Some ''t''\<rparr>" "''/mcp''" "Some ''Bearer t''"] by simp
qed

text \<open>The control listener comes up as soon as its port is free: it serves if and only if some attempt binds with
  no cancelled wait before it, and it warned once for each failed attempt before that one.\<close>

theorem bind_loop_serves_iff:
  "bind_loop attempts = (Some True, w) \<longleftrightarrow>
     (\<exists>x rest. attempts = replicate w (False, False) @ (True, x) # rest)"
proof (induction attempts arbitrary: w)
  case (Cons a attempts)
  obtain b c where a: "a = (b, c)" by (cases a)
  show ?case
  proof (cases w)
    case 0
    then show ?thesis by (cases b; cases c) (auto simp: a split: prod.splits)
  next
    case (Suc v)
    have "bind_loop (a # attempts) = (Some True, Suc v) \<longleftrightarrow> \<not> b \<and> \<not> c \<and> bind_loop attempts = (Some True, v)"
      by (cases "bind_loop attempts") (simp add: a)
    with Suc Cons [of v] show ?thesis by (auto simp: a)
  qed
qed simp

end
