(* ===== verification/Server_Sockets.thy ===== *)
theory Server_Sockets
  imports Basic_Validate
begin

text \<open>
  The listening sockets: \<open>crates/doggy-dns-core/src/reuseport.rs\<close> (raw Linux sockets armed with \<open>SO_REUSEPORT\<close>) and
  \<open>build_server\<close> of \<open>server.rs\<close>. A system call and what it returned is an entry of the trace; what it returns is the
  kernel's choice, an argument. Certificates, the TLS library and the tokio registration are arguments too.
\<close>

section \<open>System calls\<close>

datatype sock_type = SOCK_DGRAM | SOCK_STREAM

datatype domain = AF_INET | AF_INET6

datatype ip_proto = PROTO_UDP | PROTO_TCP

text \<open>Descriptors, option values and flags are C integers; \<open>Lib_bind\<close> is the bind of the runtime's library, which other
  platforms use.\<close>

datatype syscall =
    Sys_socket domain sock_type ip_proto
  | Sys_setsockopt i32 i32 i32 i32
  | Sys_getfl i32
  | Sys_setfl i32 i32
  | Sys_bind i32 bytes
  | Sys_listen i32 i32
  | Sys_close i32
  | Lib_bind sock_type "ip_addr \<times> u16"

definition SOL_SOCKET :: i32 where "SOL_SOCKET = 1"
definition SO_REUSEADDR :: i32 where "SO_REUSEADDR = 2"
definition SO_REUSEPORT :: i32 where "SO_REUSEPORT = 15"
definition O_NONBLOCK :: i32 where "O_NONBLOCK = 0x800"

definition LISTEN_BACKLOG :: i32 where
  "LISTEN_BACKLOG = 128"

text \<open>What a call returned is part of its trace. A step is its calls and its result; the error names the call that failed.\<close>

type_synonym sys_trace = "(syscall \<times> i32) list"

type_synonym 'a sys = "sys_trace \<times> (string, 'a) result"

definition sys_call :: "(syscall \<Rightarrow> i32) \<Rightarrow> string \<Rightarrow> syscall \<Rightarrow> i32 sys" where
  "sys_call ret context c = ([(c, ret c)], if sint (ret c) < 0 then Inl context else Inr (ret c))"

definition sys_then :: "'a sys \<Rightarrow> ('a \<Rightarrow> 'b sys) \<Rightarrow> 'b sys" where
  "sys_then m f = (case m of (tr, Inl e) \<Rightarrow> (tr, Inl e) | (tr, Inr x) \<Rightarrow> (case f x of (tr', r) \<Rightarrow> (tr @ tr', r)))"

definition sys_unit :: "i32 sys \<Rightarrow> unit sys" where
  "sys_unit m = sys_then m (\<lambda>_. ([], Inr ()))"

text \<open>\<open>sockaddr_in\<close> and \<open>sockaddr_in6\<close> as the bytes handed to \<open>bind\<close>: the family in the little-endian host order, the port
  in network order, the address, and zeros for padding, flow label and scope.\<close>

definition port_be :: "u16 \<Rightarrow> bytes" where
  "port_be p = [ucast (drop_bit 8 p), ucast p]"

definition sockaddr :: "ip_addr \<times> u16 \<Rightarrow> bytes" where
  "sockaddr = (\<lambda>(ip, port). case ip of
       IpV4 octets \<Rightarrow> [2, 0] @ port_be port @ octets @ replicate 8 0
     | IpV6 octets \<Rightarrow> [10, 0] @ port_be port @ replicate 4 0 @ octets @ replicate 4 0)"

definition domain_of :: "ip_addr \<Rightarrow> domain" where
  "domain_of ip = (case ip of IpV4 _ \<Rightarrow> AF_INET | IpV6 _ \<Rightarrow> AF_INET6)"

section \<open>Binding\<close>

definition set_sockopt_int :: "(syscall \<Rightarrow> i32) \<Rightarrow> i32 \<Rightarrow> i32 \<Rightarrow> i32 \<Rightarrow> unit sys" where
  "set_sockopt_int ret fd level name = sys_unit (sys_call ret ''setsockopt'' (Sys_setsockopt fd level name 1))"

definition set_reuse_addr :: "(syscall \<Rightarrow> i32) \<Rightarrow> i32 \<Rightarrow> unit sys" where
  "set_reuse_addr ret fd = set_sockopt_int ret fd SOL_SOCKET SO_REUSEADDR"

definition set_reuse_port :: "(syscall \<Rightarrow> i32) \<Rightarrow> i32 \<Rightarrow> unit sys" where
  "set_reuse_port ret fd = set_sockopt_int ret fd SOL_SOCKET SO_REUSEPORT"

definition set_nonblocking :: "(syscall \<Rightarrow> i32) \<Rightarrow> i32 \<Rightarrow> unit sys" where
  "set_nonblocking ret fd =
     sys_then (sys_call ret ''fcntl(F_GETFL)'' (Sys_getfl fd))
       (\<lambda>flags. sys_unit (sys_call ret ''fcntl(F_SETFL, O_NONBLOCK)'' (Sys_setfl fd (flags OR O_NONBLOCK))))"

definition bind_raw :: "(syscall \<Rightarrow> i32) \<Rightarrow> i32 \<Rightarrow> ip_addr \<times> u16 \<Rightarrow> unit sys" where
  "bind_raw ret fd addr = sys_unit (sys_call ret ''libc::bind()'' (Sys_bind fd (sockaddr addr)))"

definition listen_raw :: "(syscall \<Rightarrow> i32) \<Rightarrow> i32 \<Rightarrow> i32 \<Rightarrow> unit sys" where
  "listen_raw ret fd backlog = sys_unit (sys_call ret ''libc::listen'' (Sys_listen fd backlog))"

definition arm :: "(syscall \<Rightarrow> i32) \<Rightarrow> i32 \<Rightarrow> ip_addr \<times> u16 \<Rightarrow> sock_type \<Rightarrow> unit sys" where
  "arm ret fd addr ty =
     sys_then (set_reuse_addr ret fd) (\<lambda>_.
     sys_then (set_reuse_port ret fd) (\<lambda>_.
     sys_then (set_nonblocking ret fd) (\<lambda>_.
     sys_then (bind_raw ret fd addr) (\<lambda>_.
     if ty = SOCK_STREAM then listen_raw ret fd LISTEN_BACKLOG else ([], Inr ())))))"

definition bind_raw_socket :: "(syscall \<Rightarrow> i32) \<Rightarrow> ip_addr \<times> u16 \<Rightarrow> sock_type \<Rightarrow> ip_proto \<Rightarrow> i32 sys" where
  "bind_raw_socket ret addr ty protocol =
     sys_then (sys_call ret ''libc::socket()'' (Sys_socket (domain_of (fst addr)) ty protocol))
       (\<lambda>fd. case arm ret fd addr ty of
           (tr, Inl e) \<Rightarrow> (tr @ [(Sys_close fd, ret (Sys_close fd))], Inl e)
         | (tr, Inr _) \<Rightarrow> (tr, Inr fd))"

section \<open>The server\<close>

datatype listener = L_udp | L_tcp | L_tls | L_https

text \<open>The steps of loading a certificate and its key, each with an error of its own.\<close>

datatype cert_step = Read_cert | Read_key | Parse_cert | Parse_key | Have_key | Tls_config

definition cert_steps :: "cert_step list" where
  "cert_steps = [Read_cert, Read_key, Parse_cert, Parse_key, Have_key, Tls_config]"

datatype server_error =
    SE_listen_addr listener
  | SE_bind listener string
  | SE_register listener
  | SE_certificate listener cert_step

text \<open>The platform, the kernel and the libraries as one run meets them. \<open>k_ret\<close>, \<open>k_plain\<close> and \<open>k_runtime\<close> are indexed by the number
  of the bind within the run: what its system calls return, the descriptor of the library's own bind, and whether the runtime
  takes the socket.\<close>

record kernel =
  k_linux :: bool
  k_ret :: "nat \<Rightarrow> syscall \<Rightarrow> i32"
  k_plain :: "nat \<Rightarrow> i32 option"
  k_runtime :: "nat \<Rightarrow> bool"
  k_certs :: "listener \<Rightarrow> cert_step \<Rightarrow> bool"
  k_register :: "listener \<Rightarrow> bool"

definition DNS_PORT_OVERLAP_SUPPORTED :: "kernel \<Rightarrow> bool" where
  "DNS_PORT_OVERLAP_SUPPORTED k = k_linux k"

record server =
  sv_listeners :: "(listener \<times> i32 \<times> (ip_addr \<times> u16)) list"
  sv_trace :: sys_trace
  sv_binds :: nat

definition protocol_of :: "sock_type \<Rightarrow> ip_proto" where
  "protocol_of ty = (case ty of SOCK_DGRAM \<Rightarrow> PROTO_UDP | SOCK_STREAM \<Rightarrow> PROTO_TCP)"

text \<open>\<open>bind_udp\<close> and \<open>bind_tcp\<close> on Linux: a socket the runtime refuses is closed by its owner.\<close>

definition bind_reuseport :: "kernel \<Rightarrow> nat \<Rightarrow> listener \<Rightarrow> ip_addr \<times> u16 \<Rightarrow> sock_type \<Rightarrow> sys_trace \<times> (server_error, i32) result" where
  "bind_reuseport k n l addr ty = (case bind_raw_socket (k_ret k n) addr ty (protocol_of ty) of
       (tr, Inl e) \<Rightarrow> (tr, Inl (SE_bind l e))
     | (tr, Inr fd) \<Rightarrow> if k_runtime k n then (tr, Inr fd)
                      else (tr @ [(Sys_close fd, k_ret k n (Sys_close fd))], Inl (SE_register l)))"

text \<open>The two of the other platforms.\<close>

definition bind_plain :: "kernel \<Rightarrow> nat \<Rightarrow> listener \<Rightarrow> ip_addr \<times> u16 \<Rightarrow> sock_type \<Rightarrow> sys_trace \<times> (server_error, i32) result" where
  "bind_plain k n l addr ty = (case k_plain k n of
       None \<Rightarrow> ([(Lib_bind ty addr, - 1)], Inl (SE_bind l ''bind''))
     | Some fd \<Rightarrow> ([(Lib_bind ty addr, fd)], Inr fd))"

definition bind_listener ::
  "kernel \<Rightarrow> listener \<Rightarrow> ip_addr \<times> u16 \<Rightarrow> sock_type \<Rightarrow> server \<Rightarrow> server \<times> (server_error, i32) result" where
  "bind_listener k l addr ty sv = (
     let n = sv_binds sv; (tr, r) = (if k_linux k then bind_reuseport k n l addr ty else bind_plain k n l addr ty)
     in (sv\<lparr>sv_trace := sv_trace sv @ tr, sv_binds := Suc n\<rparr>, r))"

definition add_listener :: "listener \<Rightarrow> i32 \<Rightarrow> ip_addr \<times> u16 \<Rightarrow> server \<Rightarrow> server" where
  "add_listener l fd addr sv = sv\<lparr>sv_listeners := sv_listeners sv @ [(l, fd, addr)]\<rparr>"

definition bind_and_add ::
  "kernel \<Rightarrow> listener \<Rightarrow> ip_addr \<times> u16 \<Rightarrow> sock_type \<Rightarrow> server \<Rightarrow> server \<times> (server_error, unit) result" where
  "bind_and_add k l addr ty sv = (case bind_listener k l addr ty sv of
       (sv', Inl e) \<Rightarrow> (sv', Inl e)
     | (sv', Inr fd) \<Rightarrow> (add_listener l fd addr sv', Inr ()))"

fun bind_udp_loop :: "kernel \<Rightarrow> nat \<Rightarrow> ip_addr \<times> u16 \<Rightarrow> server \<Rightarrow> server \<times> (server_error, unit) result" where
  "bind_udp_loop k 0 addr sv = (sv, Inr ())"
| "bind_udp_loop k (Suc n) addr sv = (case bind_and_add k L_udp addr SOCK_DGRAM sv of
       (sv', Inl e) \<Rightarrow> (sv', Inl e)
     | (sv', Inr _) \<Rightarrow> bind_udp_loop k n addr sv')"

text \<open>\<open>register_tls\<close> and \<open>register_https\<close>: the address, the certificate and key, the bind, the registration. A listener
  that the server refuses is dropped, which closes it.\<close>

definition load_certs :: "kernel \<Rightarrow> listener \<Rightarrow> (server_error, unit) result" where
  "load_certs k l = (case filter (\<lambda>st. \<not> k_certs k l st) cert_steps of [] \<Rightarrow> Inr () | st # _ \<Rightarrow> Inl (SE_certificate l st))"

definition close_socket :: "kernel \<Rightarrow> i32 \<Rightarrow> server \<Rightarrow> server" where
  "close_socket k fd sv = sv\<lparr>sv_trace := sv_trace sv @ [(Sys_close fd, k_ret k (sv_binds sv) (Sys_close fd))]\<rparr>"

definition register_secure ::
  "kernel \<Rightarrow> listener \<Rightarrow> string \<Rightarrow> u16 \<Rightarrow> server \<Rightarrow> server \<times> (server_error, unit) result" where
  "register_secure k l host port sv = (case socket_addr host port of
       None \<Rightarrow> (sv, Inl (SE_listen_addr l))
     | Some addr \<Rightarrow>
         (case load_certs k l of
            Inl e \<Rightarrow> (sv, Inl e)
          | Inr _ \<Rightarrow>
              (case bind_listener k l addr SOCK_STREAM sv of
                 (sv', Inl e) \<Rightarrow> (sv', Inl e)
               | (sv', Inr fd) \<Rightarrow>
                   if k_register k l then (add_listener l fd addr sv', Inr ())
                   else (close_socket k fd sv', Inl (SE_register l)))))"

definition register_tls :: "kernel \<Rightarrow> server_config \<Rightarrow> tls_config \<Rightarrow> server \<Rightarrow> server \<times> (server_error, unit) result" where
  "register_tls k s t sv = register_secure k L_tls (listen_addr s) (tls_port t) sv"

definition register_https :: "kernel \<Rightarrow> server_config \<Rightarrow> https_config \<Rightarrow> server \<Rightarrow> server \<times> (server_error, unit) result" where
  "register_https k s h sv = register_secure k L_https (listen_addr s) (https_port h) sv"

definition then_do ::
  "server \<times> (server_error, unit) result \<Rightarrow> (server \<Rightarrow> server \<times> (server_error, unit) result) \<Rightarrow>
     server \<times> (server_error, unit) result" where
  "then_do r f = (case r of (sv, Inl e) \<Rightarrow> (sv, Inl e) | (sv, Inr _) \<Rightarrow> f sv)"

definition server_new :: server where
  "server_new = \<lparr>sv_listeners = [], sv_trace = [], sv_binds = 0\<rparr>"

text \<open>After an error the state is the server value at that point, with the listeners it still holds: the source drops it, and how
  the library then closes them is the library's own.\<close>

definition build_server :: "kernel \<Rightarrow> server_config \<Rightarrow> server \<times> (server_error, unit) result" where
  "build_server k s = (case socket_addr (listen_addr s) (server_port s) of
       None \<Rightarrow> (server_new, Inl (SE_listen_addr L_udp))
     | Some addr \<Rightarrow>
         then_do (then_do (then_do (bind_udp_loop k (unat (reuseport_listen_num s)) addr server_new)
           (bind_and_add k L_tcp addr SOCK_STREAM))
           (\<lambda>sv. case server_tls s of
              Some t \<Rightarrow> if tls_enabled t then register_tls k s t sv else (sv, Inr ())
            | None \<Rightarrow> (sv, Inr ())))
           (\<lambda>sv. case server_https s of
              Some h \<Rightarrow> if https_enabled h then register_https k s h sv else (sv, Inr ())
            | None \<Rightarrow> (sv, Inr ())))"

section \<open>What a bind leaves behind\<close>

text \<open>The calls of a bind in which nothing fails, after the socket's own.\<close>

definition arm_calls :: "i32 \<Rightarrow> i32 \<Rightarrow> ip_addr \<times> u16 \<Rightarrow> sock_type \<Rightarrow> syscall list" where
  "arm_calls fd flags addr ty =
     [Sys_setsockopt fd SOL_SOCKET SO_REUSEADDR 1, Sys_setsockopt fd SOL_SOCKET SO_REUSEPORT 1, Sys_getfl fd,
      Sys_setfl fd (flags OR O_NONBLOCK), Sys_bind fd (sockaddr addr)] @
     (if ty = SOCK_STREAM then [Sys_listen fd LISTEN_BACKLOG] else [])"

lemmas arm_defs = arm_def set_reuse_addr_def set_reuse_port_def set_sockopt_int_def set_nonblocking_def bind_raw_def
  listen_raw_def sys_unit_def sys_then_def sys_call_def

lemma arm_prefix:
  assumes "arm ret fd addr ty = (tr, r)"
  shows "prefix (map fst tr) (arm_calls fd (ret (Sys_getfl fd)) addr ty) \<and>
    (r = Inr () \<longrightarrow> map fst tr = arm_calls fd (ret (Sys_getfl fd)) addr ty)"
  using assms by (cases ty) (auto simp: arm_defs arm_calls_def split: if_splits)

lemma arm_calls_no_close: "Sys_close x \<notin> set (arm_calls fd flags addr ty)" "Sys_socket d t p \<notin> set (arm_calls fd flags addr ty)"
  by (auto simp: arm_calls_def)

lemma bind_raw_socket_cases:
  assumes "bind_raw_socket ret addr ty pr = (tr, r)"
  defines "sock \<equiv> Sys_socket (domain_of (fst addr)) ty pr"
  obtains (no_socket) "sint (ret sock) < 0" "tr = [(sock, ret sock)]" "\<exists>e. r = Inl e"
  | (failed) tr1 e where "0 \<le> sint (ret sock)" "arm ret (ret sock) addr ty = (tr1, Inl e)" "r = Inl e"
      "tr = (sock, ret sock) # tr1 @ [(Sys_close (ret sock), ret (Sys_close (ret sock)))]"
  | (bound) tr1 where "0 \<le> sint (ret sock)" "arm ret (ret sock) addr ty = (tr1, Inr ())" "r = Inr (ret sock)"
      "tr = (sock, ret sock) # tr1"
proof (cases "sint (ret sock) < 0")
  case True
  with assms(1) no_socket show ?thesis by (auto simp: bind_raw_socket_def sys_then_def sys_call_def sock_def)
next
  case False
  obtain tr1 r1 where a: "arm ret (ret sock) addr ty = (tr1, r1)" by force
  with assms(1) False have "(tr, r) = (case r1 of
      Inl e \<Rightarrow> ((sock, ret sock) # tr1 @ [(Sys_close (ret sock), ret (Sys_close (ret sock)))], Inl e)
    | Inr _ \<Rightarrow> ((sock, ret sock) # tr1, Inr (ret sock)))"
    by (auto simp: bind_raw_socket_def sys_then_def sys_call_def sock_def split: sum.splits)
  with False a failed bound show ?thesis by (cases r1) auto
qed

text \<open>C30. A socket is armed before it is bound and never leaked: whatever call fails, the address-reuse options and
  the non-blocking flag were set before any \<open>bind\<close>, the flags written back are the ones read with the flag added,
  \<open>listen\<close> runs on streams only and after the bind, the descriptor is closed exactly when no socket is returned, and
  then by the very last call.\<close>

theorem bind_raw_socket_safe:
  assumes "bind_raw_socket ret addr ty pr = (tr, r)" and "ret (Sys_socket (domain_of (fst addr)) ty pr) = fd" and "0 \<le> sint fd"
  shows "(Sys_bind fd (sockaddr addr) \<in> fst ` set tr \<longrightarrow>
      (\<exists>rest. map fst tr = [Sys_socket (domain_of (fst addr)) ty pr, Sys_setsockopt fd SOL_SOCKET SO_REUSEADDR 1,
         Sys_setsockopt fd SOL_SOCKET SO_REUSEPORT 1, Sys_getfl fd, Sys_setfl fd (ret (Sys_getfl fd) OR O_NONBLOCK),
         Sys_bind fd (sockaddr addr)] @ rest)) \<and>
    (isl r \<longleftrightarrow> Sys_close fd \<in> fst ` set tr) \<and>
    (isl r \<longrightarrow> fst (last tr) = Sys_close fd \<and> count_list (map fst tr) (Sys_close fd) = 1) \<and>
    (\<not> isl r \<longrightarrow> r = Inr fd \<and>
       map fst tr = Sys_socket (domain_of (fst addr)) ty pr # arm_calls fd (ret (Sys_getfl fd)) addr ty) \<and>
    (Sys_listen fd LISTEN_BACKLOG \<in> fst ` set tr \<longrightarrow> ty = SOCK_STREAM)"
  using assms(1)
proof (cases rule: bind_raw_socket_cases)
  case no_socket
  with assms(2,3) show ?thesis by simp
next
  case (failed tr1 e)
  note p = arm_prefix [OF failed(2) [unfolded assms(2)], THEN conjunct1]
  have m: "map fst tr = Sys_socket (domain_of (fst addr)) ty pr # map fst tr1 @ [Sys_close fd]"
    using failed(4) assms(2) by simp
  have "Sys_close fd \<notin> set (map fst tr1)"
    using set_mono_prefix [OF p] arm_calls_no_close(1) [of fd fd "ret (Sys_getfl fd)" addr ty] by blast
  then have "count_list (map fst tr1) (Sys_close fd) = 0" by (simp add: count_list_0_iff)
  with p failed(3,4) m assms(2) show ?thesis
    unfolding set_map [symmetric] m
    by (cases ty) (auto simp: arm_calls_def prefix_Cons)
next
  case (bound tr1)
  note p = arm_prefix [OF bound(2) [unfolded assms(2)], THEN conjunct2]
  have m: "map fst tr = Sys_socket (domain_of (fst addr)) ty pr # arm_calls fd (ret (Sys_getfl fd)) addr ty"
    using bound(4) p assms(2) by simp
  show ?thesis using bound(3) assms(2) unfolding set_map [symmetric] m by (auto simp: arm_calls_def)
qed

definition failing_listen :: "syscall \<Rightarrow> i32" where
  "failing_listen c = (case c of Sys_socket _ _ _ \<Rightarrow> 3 | Sys_listen _ _ \<Rightarrow> - 1 | _ \<Rightarrow> 0)"

theorem bind_raw_socket_safe_witness:
  "isl (snd (bind_raw_socket failing_listen (IpV4 [127, 0, 0, 1], 53) SOCK_STREAM PROTO_TCP)) \<and>
   fst (last (fst (bind_raw_socket failing_listen (IpV4 [127, 0, 0, 1], 53) SOCK_STREAM PROTO_TCP))) = Sys_close 3"
proof -
  let ?b = "bind_raw_socket failing_listen (IpV4 [127, 0, 0, 1], 53) SOCK_STREAM PROTO_TCP"
  have "isl (snd ?b)" by code_simp
  with bind_raw_socket_safe [OF prod.collapse [symmetric], of failing_listen "(IpV4 [127, 0, 0, 1], 53)" SOCK_STREAM PROTO_TCP 3]
  show ?thesis by (simp add: failing_listen_def)
qed

section \<open>No descriptor is lost\<close>

definition opened :: "sys_trace \<Rightarrow> i32 list" where
  "opened tr = concat (map (\<lambda>(c, r). case c of Sys_socket _ _ _ \<Rightarrow> if 0 \<le> sint r then [r] else [] | _ \<Rightarrow> []) tr)"

definition closed_fds :: "sys_trace \<Rightarrow> i32 list" where
  "closed_fds tr = concat (map (\<lambda>(c, r). case c of Sys_close fd \<Rightarrow> [fd] | _ \<Rightarrow> []) tr)"

lemma opened_append [simp]: "opened (tr @ tr') = opened tr @ opened tr'" "closed_fds (tr @ tr') = closed_fds tr @ closed_fds tr'"
  by (simp_all add: opened_def closed_fds_def)

lemma opened_Cons [simp]:
  "opened ((c, r) # tr) = (case c of Sys_socket _ _ _ \<Rightarrow> if 0 \<le> sint r then [r] else [] | _ \<Rightarrow> []) @ opened tr"
  "closed_fds ((c, r) # tr) = (case c of Sys_close fd \<Rightarrow> [fd] | _ \<Rightarrow> []) @ closed_fds tr" "opened [] = []" "closed_fds [] = []"
  by (simp_all add: opened_def closed_fds_def)

lemma opened_none: "\<forall>d ty p. Sys_socket d ty p \<notin> set (map fst tr) \<Longrightarrow> opened tr = []"
  by (force simp: opened_def split: syscall.splits)

lemma closed_none: "\<forall>fd. Sys_close fd \<notin> set (map fst tr) \<Longrightarrow> closed_fds tr = []"
  by (force simp: closed_fds_def split: syscall.splits)

lemma arm_opens_none:
  assumes "arm ret fd addr ty = (tr, r)"
  shows "opened tr = []" "closed_fds tr = []"
  using set_mono_prefix [OF arm_prefix [OF assms, THEN conjunct1]] arm_calls_no_close
  by (blast intro: opened_none closed_none)+

definition kept :: "('e, i32) result \<Rightarrow> i32 multiset" where
  "kept r = (case r of Inr fd \<Rightarrow> {#fd#} | Inl _ \<Rightarrow> {#})"

lemma bind_raw_socket_balance:
  assumes "bind_raw_socket ret addr ty pr = (tr, r)"
  shows "mset (opened tr) = mset (closed_fds tr) + kept r"
  using assms
  by (cases rule: bind_raw_socket_cases) (auto simp: kept_def arm_opens_none)

lemma bind_listener_balance:
  assumes "k_linux k" and "bind_listener k l addr ty sv = (sv', r)"
  shows "\<exists>tr. sv_trace sv' = sv_trace sv @ tr \<and> sv_listeners sv' = sv_listeners sv \<and>
    mset (opened tr) = mset (closed_fds tr) + kept r"
proof -
  obtain tr r1 where b: "bind_raw_socket (k_ret k (sv_binds sv)) addr ty (protocol_of ty) = (tr, r1)" by force
  from bind_raw_socket_balance [OF b] assms b show ?thesis
    by (cases r1) (auto simp: bind_listener_def bind_reuseport_def kept_def Let_def split: if_splits)
qed

text \<open>Every descriptor that was opened has a listener or was closed, as often as it was opened.\<close>

definition accounted :: "server \<Rightarrow> bool" where
  "accounted sv \<longleftrightarrow> mset (opened (sv_trace sv)) = mset (map (fst \<circ> snd) (sv_listeners sv)) + mset (closed_fds (sv_trace sv))"

lemma bind_and_add_accounted:
  "k_linux k \<Longrightarrow> accounted sv \<Longrightarrow> bind_and_add k l addr ty sv = (sv', r) \<Longrightarrow> accounted sv'"
  by (auto simp: bind_and_add_def accounted_def add_listener_def kept_def dest!: bind_listener_balance
      split: prod.splits sum.splits)

lemma bind_udp_loop_accounted:
  "k_linux k \<Longrightarrow> accounted sv \<Longrightarrow> bind_udp_loop k n addr sv = (sv', r) \<Longrightarrow> accounted sv'"
proof (induction k n addr sv rule: bind_udp_loop.induct)
  case (2 k n addr sv)
  then show ?case by (auto split: prod.splits sum.splits dest: bind_and_add_accounted)
qed simp

lemma register_secure_accounted:
  "k_linux k \<Longrightarrow> accounted sv \<Longrightarrow> register_secure k l host port sv = (sv', r) \<Longrightarrow> accounted sv'"
  by (auto simp: register_secure_def accounted_def add_listener_def close_socket_def kept_def dest!: bind_listener_balance
      split: option.splits prod.splits sum.splits if_splits)

lemma then_do_accounted:
  assumes "\<And>sv' r'. r = (sv', r') \<Longrightarrow> accounted sv'" and "\<And>sv sv' r'. accounted sv \<Longrightarrow> f sv = (sv', r') \<Longrightarrow> accounted sv'"
    and "then_do r f = (sv', r')"
  shows "accounted sv'"
  using assms by (auto simp: then_do_def split: prod.splits sum.splits)

text \<open>C31. No descriptor is lost while the server is built: on Linux, whether building succeeds or fails at any point, every
  socket that was opened is held by a listener or was closed, exactly as often as it was opened.\<close>

theorem descriptors_accounted:
  assumes "k_linux k" and "build_server k s = (sv, r)"
  shows "mset (opened (sv_trace sv)) = mset (map (fst \<circ> snd) (sv_listeners sv)) + mset (closed_fds (sv_trace sv))"
proof -
  have "accounted sv"
  proof (cases "socket_addr (listen_addr s) (server_port s)")
    case None
    with assms(2) show ?thesis by (auto simp: build_server_def server_new_def accounted_def)
  next
    case (Some addr)
    have n: "accounted server_new" by (simp add: accounted_def server_new_def)
    note step = bind_udp_loop_accounted [OF assms(1) n] bind_and_add_accounted [OF assms(1)] register_secure_accounted [OF assms(1)]
    have tls: "accounted sv'" if "accounted sv0" "(case server_tls s of
          Some t \<Rightarrow> if tls_enabled t then register_tls k s t sv0 else (sv0, Inr ()) | None \<Rightarrow> (sv0, Inr ())) = (sv', r')" for sv0 sv' r'
      using that by (auto simp: register_tls_def split: option.splits if_splits dest: step(3))
    have https: "accounted sv'" if "accounted sv0" "(case server_https s of
          Some h \<Rightarrow> if https_enabled h then register_https k s h sv0 else (sv0, Inr ()) | None \<Rightarrow> (sv0, Inr ())) = (sv', r')" for sv0 sv' r'
      using that by (auto simp: register_https_def split: option.splits if_splits dest: step(3))
    show ?thesis
      by (rule then_do_accounted [OF then_do_accounted [OF then_do_accounted [OF step(1) step(2)] tls] https
          assms(2) [unfolded build_server_def Some option.case]])
  qed
  then show ?thesis by (simp add: accounted_def)
qed

section \<open>What a started server listens on\<close>

definition armed :: "bool \<Rightarrow> sys_trace \<Rightarrow> listener \<times> i32 \<times> (ip_addr \<times> u16) \<Rightarrow> bool" where
  "armed linux tr = (\<lambda>(l, fd, addr). let ty = (if l = L_udp then SOCK_DGRAM else SOCK_STREAM) in
     if linux then \<exists>flags. sublist (Sys_socket (domain_of (fst addr)) ty (protocol_of ty) # arm_calls fd flags addr ty) (map fst tr)
     else (Lib_bind ty addr, fd) \<in> set tr)"

text \<open>One successful step: it adds the listener and its armed socket and keeps the others.\<close>

definition adds :: "bool \<Rightarrow> server \<Rightarrow> (listener \<times> (ip_addr \<times> u16)) list \<Rightarrow> server \<Rightarrow> bool" where
  "adds linux sv ls sv' \<longleftrightarrow>
     map (\<lambda>(l, _, a). (l, a)) (sv_listeners sv') = map (\<lambda>(l, _, a). (l, a)) (sv_listeners sv) @ ls \<and>
     (list_all (armed linux (sv_trace sv)) (sv_listeners sv) \<longrightarrow> list_all (armed linux (sv_trace sv')) (sv_listeners sv'))"

lemma adds_trans: "adds linux sv ls sv' \<Longrightarrow> adds linux sv' ls' sv'' \<Longrightarrow> adds linux sv (ls @ ls') sv''"
  by (simp add: adds_def)

lemma adds_refl [simp]: "adds linux sv [] sv"
  by (simp add: adds_def)

lemma bind_listener_ok:
  assumes "bind_listener k l addr ty sv = (sv', Inr fd)"
  shows "sv_listeners sv' = sv_listeners sv \<and> (\<exists>tr. sv_trace sv' = sv_trace sv @ tr \<and>
    (if k_linux k then \<exists>flags. map fst tr = Sys_socket (domain_of (fst addr)) ty (protocol_of ty) # arm_calls fd flags addr ty
     else tr = [(Lib_bind ty addr, fd)]))"
proof (cases "k_linux k")
  case True
  obtain tr r where b: "bind_raw_socket (k_ret k (sv_binds sv)) addr ty (protocol_of ty) = (tr, r)" by force
  with True assms have r: "r = Inr fd" "sv_trace sv' = sv_trace sv @ tr" "sv_listeners sv' = sv_listeners sv"
    by (auto simp: bind_listener_def bind_reuseport_def Let_def split: sum.splits if_splits)
  from b have "\<exists>flags. map fst tr = Sys_socket (domain_of (fst addr)) ty (protocol_of ty) # arm_calls fd flags addr ty"
    by (cases rule: bind_raw_socket_cases) (use r(1) in \<open>auto dest: arm_prefix\<close>)
  with True r show ?thesis by simp
qed (use assms in \<open>auto simp: bind_listener_def bind_plain_def Let_def split: option.splits\<close>)

lemma sublist_append: "sublist xs ys \<Longrightarrow> sublist xs (ys @ zs)"
  unfolding sublist_def by (metis append.assoc)

lemma armed_append: "armed linux tr x \<Longrightarrow> armed linux (tr @ tr') x"
  by (cases x) (auto simp: armed_def Let_def intro!: sublist_append)

lemma add_listener_adds:
  assumes "bind_listener k l addr ty sv = (sv', Inr fd)" and "ty = (if l = L_udp then SOCK_DGRAM else SOCK_STREAM)"
  shows "adds (k_linux k) sv [(l, addr)] (add_listener l fd addr sv')"
proof -
  obtain tr where b: "sv_listeners sv' = sv_listeners sv" "sv_trace sv' = sv_trace sv @ tr"
    "if k_linux k then \<exists>flags. map fst tr = Sys_socket (domain_of (fst addr)) ty (protocol_of ty) # arm_calls fd flags addr ty
     else tr = [(Lib_bind ty addr, fd)]"
    using bind_listener_ok [OF assms(1)] by blast
  have "armed (k_linux k) (sv_trace sv) x \<Longrightarrow> armed (k_linux k) (sv_trace sv') x" for x
    using b(2) by (simp add: armed_append)
  moreover have "armed (k_linux k) (sv_trace sv') (l, fd, addr)"
  proof (cases "k_linux k")
    case True
    with b(3) obtain flags where f: "map fst tr = Sys_socket (domain_of (fst addr)) ty (protocol_of ty) # arm_calls fd flags addr ty" by auto
    have "sublist (map fst tr) (map fst (sv_trace sv'))" by (simp add: b(2))
    with f True assms(2) show ?thesis by (auto simp: armed_def Let_def)
  qed (use b(2,3) assms(2) in \<open>auto simp: armed_def Let_def\<close>)
  ultimately show ?thesis using b by (auto simp: adds_def add_listener_def list_all_iff)
qed

lemma bind_and_add_adds:
  "bind_and_add k l addr ty sv = (sv', Inr ()) \<Longrightarrow> ty = (if l = L_udp then SOCK_DGRAM else SOCK_STREAM) \<Longrightarrow>
     adds (k_linux k) sv [(l, addr)] sv'"
  by (auto simp: bind_and_add_def split: prod.splits sum.splits intro: add_listener_adds)

lemma bind_udp_loop_adds:
  "bind_udp_loop k n addr sv = (sv', Inr ()) \<Longrightarrow> adds (k_linux k) sv (replicate n (L_udp, addr)) sv'"
proof (induction k n addr sv rule: bind_udp_loop.induct)
  case (2 k n addr sv)
  then obtain sv1 where b: "bind_and_add k L_udp addr SOCK_DGRAM sv = (sv1, Inr ())" and r: "bind_udp_loop k n addr sv1 = (sv', Inr ())"
    by (auto split: prod.splits sum.splits)
  from 2(1) [OF b [symmetric] refl r] bind_and_add_adds [OF b] adds_trans show ?case by fastforce
qed simp

lemma register_secure_adds:
  "register_secure k l host port sv = (sv', Inr ()) \<Longrightarrow> l \<noteq> L_udp \<Longrightarrow>
     \<exists>addr. socket_addr host port = Some addr \<and> adds (k_linux k) sv [(l, addr)] sv'"
  by (auto simp: register_secure_def split: option.splits if_splits prod.splits sum.splits intro!: add_listener_adds)

lemma then_do_ok: "then_do r f = (sv', Inr ()) \<longleftrightarrow> (\<exists>sv. r = (sv, Inr ()) \<and> f sv = (sv', Inr ()))"
  by (auto simp: then_do_def split: prod.splits sum.splits)

definition secure_listener :: "listener \<Rightarrow> string \<Rightarrow> u16 option \<Rightarrow> (listener \<times> (ip_addr \<times> u16)) list" where
  "secure_listener l host port = (case port of
       None \<Rightarrow> [] | Some p \<Rightarrow> (case socket_addr host p of None \<Rightarrow> [] | Some a \<Rightarrow> [(l, a)]))"

lemma build_server_ok:
  assumes "build_server k s = (sv, Inr ())"
  shows "\<exists>addr. socket_addr (listen_addr s) (server_port s) = Some addr \<and>
    map (\<lambda>(l, _, a). (l, a)) (sv_listeners sv) =
      replicate (unat (reuseport_listen_num s)) (L_udp, addr) @ [(L_tcp, addr)] @
      secure_listener L_tls (listen_addr s) (case server_tls s of Some t \<Rightarrow> if tls_enabled t then Some (tls_port t) else None | None \<Rightarrow> None) @
      secure_listener L_https (listen_addr s) (case server_https s of Some h \<Rightarrow> if https_enabled h then Some (https_port h) else None | None \<Rightarrow> None) \<and>
    list_all (armed (k_linux k) (sv_trace sv)) (sv_listeners sv)"
proof -
  let ?tls = "case server_tls s of Some t \<Rightarrow> if tls_enabled t then Some (tls_port t) else None | None \<Rightarrow> None"
  let ?https = "case server_https s of Some h \<Rightarrow> if https_enabled h then Some (https_port h) else None | None \<Rightarrow> None"
  obtain addr where a: "socket_addr (listen_addr s) (server_port s) = Some addr"
    using assms by (cases "socket_addr (listen_addr s) (server_port s)") (auto simp: build_server_def)
  obtain sv1 sv2 sv3 where st: "bind_udp_loop k (unat (reuseport_listen_num s)) addr server_new = (sv1, Inr ())"
      "bind_and_add k L_tcp addr SOCK_STREAM sv1 = (sv2, Inr ())"
      "(case server_tls s of
          Some t \<Rightarrow> if tls_enabled t then register_tls k s t sv2 else (sv2, Inr ())
        | None \<Rightarrow> (sv2, Inr ())) = (sv3, Inr ())"
      "(case server_https s of
          Some h \<Rightarrow> if https_enabled h then register_https k s h sv3 else (sv3, Inr ())
        | None \<Rightarrow> (sv3, Inr ())) = (sv, Inr ())"
    using assms a unfolding build_server_def by (simp add: then_do_ok) blast
  have t: "adds (k_linux k) sv2 (secure_listener L_tls (listen_addr s) ?tls) sv3"
    using st(3) by (auto simp: secure_listener_def register_tls_def register_https_def split: option.splits if_splits dest!: register_secure_adds)
  have h: "adds (k_linux k) sv3 (secure_listener L_https (listen_addr s) ?https) sv"
    using st(4) by (auto simp: secure_listener_def register_tls_def register_https_def split: option.splits if_splits dest!: register_secure_adds)
  have "adds (k_linux k) server_new (((replicate (unat (reuseport_listen_num s)) (L_udp, addr) @ [(L_tcp, addr)]) @
      secure_listener L_tls (listen_addr s) ?tls) @ secure_listener L_https (listen_addr s) ?https) sv"
    by (rule adds_trans [OF adds_trans [OF adds_trans [OF bind_udp_loop_adds [OF st(1)] bind_and_add_adds [OF st(2)]] t] h]) simp
  with a show ?thesis by (simp add: adds_def server_new_def)
qed

text \<open>A server that starts listens on what its configuration asks for and nothing else: the configured number of UDP
  sockets and one TCP listener on the DNS address, one TLS and one HTTPS listener when they are enabled; and every one
  of these sockets was armed with \<open>SO_REUSEPORT\<close> before it was bound
  (on Linux; elsewhere it is the library's own bind).\<close>

theorem build_server_listeners:
  assumes "build_server k s = (sv, Inr ())"
  shows "\<exists>addr. socket_addr (listen_addr s) (server_port s) = Some addr \<and>
    map (\<lambda>(l, _, a). (l, a)) (sv_listeners sv) =
      replicate (unat (reuseport_listen_num s)) (L_udp, addr) @ [(L_tcp, addr)] @
      secure_listener L_tls (listen_addr s) (case server_tls s of Some t \<Rightarrow> if tls_enabled t then Some (tls_port t) else None | None \<Rightarrow> None) @
      secure_listener L_https (listen_addr s) (case server_https s of Some h \<Rightarrow> if https_enabled h then Some (https_port h) else None | None \<Rightarrow> None) \<and>
    list_all (armed (k_linux k) (sv_trace sv)) (sv_listeners sv)"
  using build_server_ok [OF assms] .

definition a_kernel :: kernel where
  "a_kernel = \<lparr>k_linux = True, k_ret = \<lambda>n c. case c of Sys_socket _ _ _ \<Rightarrow> of_nat (n + 3) | _ \<Rightarrow> 0, k_plain = \<lambda>_. None,
     k_runtime = \<lambda>_. True, k_certs = \<lambda>_ _. True, k_register = \<lambda>_. True\<rparr>"

theorem build_server_listeners_witness:
  "map fst (sv_listeners (fst (build_server a_kernel (default_server ''127.0.0.1'' 53)))) = [L_udp, L_tcp]"
proof -
  let ?b = "build_server a_kernel (default_server ''127.0.0.1'' 53)"
  have "isl (snd ?b) = False" by code_simp
  then have b: "?b = (fst ?b, Inr ())" by (cases ?b; cases "snd ?b") auto
  from build_server_listeners [OF b] obtain addr where
    "map (\<lambda>(l, _, a). (l, a)) (sv_listeners (fst ?b)) = [(L_udp, addr), (L_tcp, addr)]"
    by (auto simp: default_server_def secure_listener_def)
  then have "map fst (map (\<lambda>(l, _, a). (l, a)) (sv_listeners (fst ?b))) = [L_udp, L_tcp]" by simp
  then show ?thesis by (simp add: split_def comp_def)
qed

theorem descriptors_accounted_witness:
  "mset (opened (sv_trace (fst (build_server a_kernel (default_server ''127.0.0.1'' 53))))) =
     mset (map (fst \<circ> snd) (sv_listeners (fst (build_server a_kernel (default_server ''127.0.0.1'' 53))))) +
     mset (closed_fds (sv_trace (fst (build_server a_kernel (default_server ''127.0.0.1'' 53)))))"
  by (rule descriptors_accounted [OF _ prod.collapse [symmetric]]) (simp add: a_kernel_def)

end
