(* ===== verification/Xdp_Loader.thy ===== *)
theory Xdp_Loader
  imports Xdp_Types Basic_Config
begin

text \<open>
  Loading and attaching the XDP program from userspace: the kernel log level
  (\<open>kernel_log.rs\<close>), the network interface (\<open>interface.rs\<close>), the rules of the pinned cache map (\<open>pin.rs\<close>) and
  the loader (\<open>program.rs\<close>, all under \<open>crates/doggy-dns-xdp/src\<close>). What the host and the aya library answer is
  the record \<open>xdp_host\<close>; the loader's visible effects are a list of events in program order.
\<close>

section \<open>Kernel log level\<close>

datatype kernel_level = Level_Off | Level_Error | Level_Warn

definition level_parse :: "string \<Rightarrow> kernel_level option" where
  "level_parse raw =
     (let s = to_lower (trim raw) in
      if s = ''off'' then Some Level_Off
      else if s = ''error'' then Some Level_Error
      else if s = ''warn'' then Some Level_Warn
      else None)"

definition level_as_u8 :: "kernel_level \<Rightarrow> u8" where
  "level_as_u8 l = (case l of Level_Off \<Rightarrow> 0 | Level_Error \<Rightarrow> 1 | Level_Warn \<Rightarrow> 2)"

definition resolve_level :: "string option \<Rightarrow> kernel_level \<times> bool" where
  "resolve_level raw = (case raw of
       None \<Rightarrow> (Level_Warn, True)
     | Some r \<Rightarrow> (case level_parse r of Some level \<Rightarrow> (level, True) | None \<Rightarrow> (Level_Warn, False)))"

text \<open>The level and whether the unsupported-value warning is logged.\<close>

definition kernel_log_level :: "string option \<Rightarrow> u8 \<times> bool" where
  "kernel_log_level raw = (let (level, supported) = resolve_level raw in (level_as_u8 level, \<not> supported))"

section \<open>Interface\<close>

fun route_find :: "string list \<Rightarrow> string option" where
  "route_find [] = None"
| "route_find (line # ls) =
     (let fs = split_whitespace line in
      if length fs \<ge> 2 \<and> fs ! 1 = ''00000000'' then Some (fs ! 0) else route_find ls)"

definition parse_default_from_route :: "string \<Rightarrow> string option" where
  "parse_default_from_route content = route_find (drop 1 (lines content))"

definition detect_default_interface :: "string option \<Rightarrow> string option" where
  "detect_default_interface route_file = Option.bind route_file parse_default_from_route"

definition resolve_interface :: "string \<Rightarrow> string option \<Rightarrow> string option \<Rightarrow> string option" where
  "resolve_interface configured env_var route_file =
     (if configured \<noteq> [] then Some configured
      else case env_var of
        Some iface \<Rightarrow> if iface \<noteq> [] then Some iface else detect_default_interface route_file
      | None \<Rightarrow> detect_default_interface route_file)"

section \<open>The pinned map\<close>

definition CACHE_FORMAT_VERSION :: nat where
  "CACHE_FORMAT_VERSION = 1"

definition versioned_pin_path :: "string \<Rightarrow> string" where
  "versioned_pin_path base = base @ ''_v'' @ show_nat CACHE_FORMAT_VERSION"

record declared_cache_shape =
  dc_key_size :: u32
  dc_value_size :: u32
  dc_max_entries :: u32

definition declared_shape :: "u32 \<Rightarrow> declared_cache_shape" where
  "declared_shape n = \<lparr>dc_key_size = of_nat cache_key_size, dc_value_size = of_nat cache_value_size,
     dc_max_entries = n\<rparr>"

record pinned_cache_shape =
  is_lru_hash :: bool
  pc_key_size :: u32
  pc_value_size :: u32
  pc_max_entries :: u32

datatype cache_shape_mismatch =
    NotLruHash
  | KeySize u32 u32
  | ValueSize u32 u32
  | MaxEntries u32 u32

definition shape_mismatch :: "pinned_cache_shape \<Rightarrow> declared_cache_shape \<Rightarrow> cache_shape_mismatch list" where
  "shape_mismatch p d =
     (if \<not> is_lru_hash p then [NotLruHash] else []) @
     (if pc_key_size p \<noteq> dc_key_size d then [KeySize (pc_key_size p) (dc_key_size d)] else []) @
     (if pc_value_size p \<noteq> dc_value_size d then [ValueSize (pc_value_size p) (dc_value_size d)] else []) @
     (if pc_max_entries p \<noteq> dc_max_entries d then [MaxEntries (pc_max_entries p) (dc_max_entries d)] else [])"

definition mismatch_fmt :: "cache_shape_mismatch \<Rightarrow> string" where
  "mismatch_fmt m = (case m of
       NotLruHash \<Rightarrow> ''map type is not LRU hash''
     | KeySize a e \<Rightarrow> ''key size '' @ show_nat (unat a) @ '' != '' @ show_nat (unat e)
     | ValueSize a e \<Rightarrow> ''value size '' @ show_nat (unat a) @ '' != '' @ show_nat (unat e)
     | MaxEntries a e \<Rightarrow> ''capacity '' @ show_nat (unat a) @ '' != configured '' @ show_nat (unat e))"

text \<open>What the kernel says of a map, the type when aya knows it, and what \<open>DnsCacheMap\<close> (\<open>cache/bpf_map.rs\<close>) makes of it;
  \<^term>\<open>None\<close> is a failed info call.\<close>

record map_info =
  mi_lru_hash :: "bool option"
  mi_key_size :: u32
  mi_value_size :: u32
  mi_max_entries :: u32

definition cache_max_entries :: "map_info option \<Rightarrow> (unit, u32) result" where
  "cache_max_entries info = (case info of Some i \<Rightarrow> Inr (mi_max_entries i) | None \<Rightarrow> Inl ())"

definition cache_shape :: "map_info option \<Rightarrow> (unit, pinned_cache_shape) result" where
  "cache_shape info = (case info of
       None \<Rightarrow> Inl ()
     | Some i \<Rightarrow>
         (case mi_lru_hash i of
            None \<Rightarrow> Inl ()
          | Some lru \<Rightarrow> Inr \<lparr>is_lru_hash = lru, pc_key_size = mi_key_size i, pc_value_size = mi_value_size i,
              pc_max_entries = mi_max_entries i\<rparr>))"

text \<open>A pinned map is taken over without complaint exactly when it is what this build would create.\<close>

lemma cache_shape_matches:
  "cache_shape info = Inr p \<Longrightarrow> shape_mismatch p (declared_shape n) = [] \<longleftrightarrow>
     (\<exists>i. info = Some i \<and> mi_lru_hash i = Some True \<and> mi_key_size i = 16 \<and> mi_value_size i = 528 \<and>
       cache_max_entries info = Inr n)"
proof -
  have "cache_key_size = 16" "cache_value_size = 528" by code_simp+
  then show "cache_shape info = Inr p \<Longrightarrow> ?thesis"
    by (auto simp: cache_shape_def cache_max_entries_def shape_mismatch_def declared_shape_def split: option.splits)
qed

section \<open>The loader\<close>

text \<open>What a loaded ELF object holds: the log ring, the cache map with what the kernel says of it
  (\<^term>\<open>None\<close> when the info call fails), the stats and config maps (present, and of the expected type), and
  the program (present, and an XDP program).\<close>

record ebpf_obj =
  eb_logger :: bool
  eb_cache :: "(bool \<times> map_info option) option"
  eb_stats :: "bool option"
  eb_config :: "bool option"
  eb_config_set :: bool
  eb_program :: "bool option"
  eb_load :: bool
  eb_attach :: "string \<Rightarrow> bool"

record xdp_host =
  host_env_interface :: "string option"
  host_route_file :: "string option"
  host_elf_empty :: bool
  host_log_level :: "string option"
  host_exists :: "string \<Rightarrow> bool"
  host_pinned_entries :: "string \<Rightarrow> u32 option"
  host_load :: "u32 \<Rightarrow> string \<Rightarrow> u8 \<Rightarrow> ebpf_obj option"

datatype provenance_log =
    Prov_no_info
  | Prov_cold u32
  | Prov_reused u32
  | Prov_mismatch "cache_shape_mismatch list" u32

datatype load_event =
    Ev_warn_level
  | Ev_create_parent string
  | Ev_warn_pinned_unreadable
  | Ev_load u32 string u8
  | Ev_warn_no_logger
  | Ev_provenance provenance_log
  | Ev_config_set u16
  | Ev_program_loaded
  | Ev_attached string

datatype load_error =
    Err_interface | Err_elf_empty | Err_load_elf | Err_no_cache_map | Err_cache_map_type
  | Err_no_stats_map | Err_stats_map_type | Err_no_config_map | Err_config_map_type | Err_config_set
  | Err_no_program | Err_not_xdp | Err_program_load | Err_interface_nul | Err_attach

record xdp_manager =
  mgr_link :: "string option"
  mgr_cache :: "(map_info option) option"
  mgr_stats :: "unit option"
  mgr_logger :: "unit option"
  mgr_interface :: string

definition log_cache_provenance :: "map_info option \<Rightarrow> u32 \<Rightarrow> bool \<Rightarrow> provenance_log" where
  "log_cache_provenance cache configured reused = (case cache_shape cache of
       Inl _ \<Rightarrow> Prov_no_info
     | Inr s \<Rightarrow>
         if \<not> reused then Prov_cold (pc_max_entries s)
         else let mm = shape_mismatch s (declared_shape configured) in
           if mm = [] then Prov_reused (pc_max_entries s) else Prov_mismatch mm configured)"

definition load_dns_program :: "ebpf_obj \<Rightarrow> (load_error, unit) result" where
  "load_dns_program e = (case eb_program e of
       None \<Rightarrow> Inl Err_no_program | Some False \<Rightarrow> Inl Err_not_xdp | Some True \<Rightarrow> Inr ())"

text \<open>The events so far travel with both outcomes.\<close>

type_synonym 'a load_result = "load_event list \<times> (load_error, 'a) result"

definition lbind :: "'a load_result \<Rightarrow> ('a \<Rightarrow> 'b load_result) \<Rightarrow> 'b load_result" where
  "lbind m k = (case m of
       (ev, Inl e) \<Rightarrow> (ev, Inl e)
     | (ev, Inr a) \<Rightarrow> let (ev', r) = k a in (ev @ ev', r))"

definition lcheck :: "bool \<Rightarrow> load_error \<Rightarrow> unit load_result" where
  "lcheck ok err = ([], if ok then Inr () else Inl err)"

definition lsome :: "'a option \<Rightarrow> load_error \<Rightarrow> 'a load_result" where
  "lsome x err = ([], case x of Some a \<Rightarrow> Inr a | None \<Rightarrow> Inl err)"

definition lemit :: "load_event list \<Rightarrow> unit load_result" where
  "lemit ev = (ev, Inr ())"

definition declared_cache_size :: "xdp_host \<Rightarrow> xdp_config \<Rightarrow> string \<Rightarrow> load_event list \<times> u32" where
  "declared_cache_size h cfg path =
     (if host_exists h path then
        (case host_pinned_entries h path of
           Some n \<Rightarrow> ([], n)
         | None \<Rightarrow> ([Ev_warn_pinned_unreadable], cache_size cfg))
      else ([], cache_size cfg))"

definition attach_program :: "ebpf_obj \<Rightarrow> xdp_config \<Rightarrow> string \<Rightarrow> string option load_result" where
  "attach_program e cfg iface =
     (if attach_mode cfg = ''auto'' then
        lbind (lcheck (CHR 0x00 \<notin> set iface) Err_interface_nul) (\<lambda>_.
        lbind (lcheck (eb_attach e iface) Err_attach) (\<lambda>_.
        lbind (lemit [Ev_attached iface]) (\<lambda>_. ([], Inr (Some iface)))))
      else ([], Inr None))"

text \<open>Everything up to and including \<open>program.load()\<close>.\<close>

definition xdp_prepare ::
  "xdp_host \<Rightarrow> xdp_config \<Rightarrow> u16 \<Rightarrow> (string \<times> ebpf_obj \<times> map_info option) load_result" where
  "xdp_prepare h cfg port =
     lbind (lsome (resolve_interface (xdp_interface cfg) (host_env_interface h) (host_route_file h)) Err_interface) (\<lambda>iface.
     lbind (lcheck (\<not> host_elf_empty h) Err_elf_empty) (\<lambda>_.
     let (level, warn) = kernel_log_level (host_log_level h);
         path = versioned_pin_path (pin_path cfg);
         reused = host_exists h path;
         (pin_ev, declared) = declared_cache_size h cfg path in
     lbind (lemit ((if warn then [Ev_warn_level] else []) @ [Ev_create_parent path] @ pin_ev @ [Ev_load declared path level])) (\<lambda>_.
     lbind (lsome (host_load h declared path level) Err_load_elf) (\<lambda>e.
     lbind (lemit (if eb_logger e then [] else [Ev_warn_no_logger])) (\<lambda>_.
     lbind (lsome (eb_cache e) Err_no_cache_map) (\<lambda>(hash_ok, cache).
     lbind (lcheck hash_ok Err_cache_map_type) (\<lambda>_.
     lbind (lemit [Ev_provenance (log_cache_provenance cache (cache_size cfg) reused)]) (\<lambda>_.
     lbind (lsome (eb_stats e) Err_no_stats_map) (\<lambda>stats_ok.
     lbind (lcheck stats_ok Err_stats_map_type) (\<lambda>_.
     lbind (lsome (eb_config e) Err_no_config_map) (\<lambda>config_ok.
     lbind (lcheck config_ok Err_config_map_type) (\<lambda>_.
     lbind (lcheck (eb_config_set e) Err_config_set) (\<lambda>_.
     lbind (lemit [Ev_config_set port]) (\<lambda>_.
     lbind ([], load_dns_program e) (\<lambda>_.
     lbind (lcheck (eb_load e) Err_program_load) (\<lambda>_.
     lbind (lemit [Ev_program_loaded]) (\<lambda>_.
       ([], Inr (iface, e, cache)))))))))))))))))))"

definition xdp_manager_new :: "xdp_host \<Rightarrow> xdp_config \<Rightarrow> u16 \<Rightarrow> xdp_manager load_result" where
  "xdp_manager_new h cfg port =
     lbind (xdp_prepare h cfg port) (\<lambda>(iface, e, cache).
     lbind (attach_program e cfg iface) (\<lambda>link.
       ([], Inr \<lparr>mgr_link = link, mgr_cache = Some cache, mgr_stats = Some (),
             mgr_logger = (if eb_logger e then Some () else None), mgr_interface = iface\<rparr>)))"

text \<open>\<open>Option::take\<close> with \<open>expect\<close>: \<^term>\<open>None\<close> is the panic on a second call.\<close>

definition take_cache :: "xdp_manager \<Rightarrow> (map_info option \<times> xdp_manager) option" where
  "take_cache m = map_option (\<lambda>c. (c, m\<lparr>mgr_cache := None\<rparr>)) (mgr_cache m)"

definition take_stats :: "xdp_manager \<Rightarrow> xdp_manager option" where
  "take_stats m = map_option (\<lambda>_. m\<lparr>mgr_stats := None\<rparr>) (mgr_stats m)"

definition take_log :: "xdp_manager \<Rightarrow> unit option \<times> xdp_manager" where
  "take_log m = (mgr_logger m, m\<lparr>mgr_logger := None\<rparr>)"


section \<open>Properties\<close>

lemma lbind_pure [simp]: "lbind (ev, Inl e) k = (ev, Inl e)" "lbind (ev, Inr a) k = (ev @ fst (k a), snd (k a))"
  by (simp_all add: lbind_def split: prod.splits)

lemma lbind_emit [simp]: "lbind (lemit ev) k = (ev @ fst (k ()), snd (k ()))"
  by (simp add: lbind_def lemit_def split: prod.splits)

lemma lbind_check [simp]: "lbind (lcheck ok err) k = (if ok then k () else ([], Inl err))"
  by (simp add: lcheck_def)

lemma lbind_some [simp]: "lbind (lsome x err) k = (case x of Some a \<Rightarrow> k a | None \<Rightarrow> ([], Inl err))"
  by (simp add: lsome_def split: option.splits)

lemma lbind_program [simp]:
  "lbind ([], load_dns_program e) k =
     (case eb_program e of None \<Rightarrow> ([], Inl Err_no_program)
      | Some b \<Rightarrow> if b then k () else ([], Inl Err_not_xdp))"
  by (simp add: load_dns_program_def split: option.splits bool.splits)

text \<open>What the preparation has done when it succeeds, and that no path of it attaches.\<close>

lemma prepare_events:
  assumes "xdp_prepare h cfg port = (ev, r)"
  shows "Ev_attached i \<notin> set ev"
    and "r = Inr (iface, e, shape) \<Longrightarrow> suffix [Ev_config_set port, Ev_program_loaded] ev \<and>
       resolve_interface (xdp_interface cfg) (host_env_interface h) (host_route_file h) = Some iface"
proof -
  let ?path = "versioned_pin_path (pin_path cfg)"
  obtain lv w where lv: "kernel_log_level (host_log_level h) = (lv, w)" by force
  obtain pe n where n: "declared_cache_size h cfg ?path = (pe, n)" by force
  have pe: "Ev_attached i \<notin> set pe"
    using n by (auto simp: declared_cache_size_def split: if_splits option.splits)
  show "Ev_attached i \<notin> set ev"
    using assms lv n pe by (auto simp: xdp_prepare_def Let_def split: option.splits if_splits)
  show "r = Inr (iface, e, shape) \<Longrightarrow> suffix [Ev_config_set port, Ev_program_loaded] ev \<and>
       resolve_interface (xdp_interface cfg) (host_env_interface h) (host_route_file h) = Some iface"
    using assms lv n
    by (auto simp: xdp_prepare_def Let_def suffix_def split: option.splits if_splits)
qed

text \<open>C33. The program is never attached half-initialised: on every path through the loader, failing
  ones included, an attach event comes only in auto mode, is the last event, is on the resolved
  interface, and the runtime configuration with the server's port was written and the program
  loaded right before it.\<close>

theorem config_written_before_attach:
  assumes "fst (xdp_manager_new h cfg port) = xs @ Ev_attached i # ys"
  shows "ys = [] \<and> attach_mode cfg = ''auto'' \<and>
     resolve_interface (xdp_interface cfg) (host_env_interface h) (host_route_file h) = Some i \<and>
     suffix [Ev_config_set port, Ev_program_loaded] xs"
proof -
  obtain ev r where p: "xdp_prepare h cfg port = (ev, r)" by force
  note a = prepare_events(1) [OF p, of i]
  show ?thesis
  proof (cases r)
    case (Inl e)
    with assms p have "ev = xs @ Ev_attached i # ys" by (simp add: xdp_manager_new_def)
    with a show ?thesis by simp
  next
    case (Inr t)
    obtain iface e shape where t: "t = (iface, e, shape)" by (cases t)
    let ?at = "if attach_mode cfg = ''auto'' \<and> CHR 0x00 \<notin> set iface \<and> eb_attach e iface then [Ev_attached iface] else []"
    have "fst (xdp_manager_new h cfg port) = ev @ ?at"
      by (auto simp: xdp_manager_new_def p Inr t attach_program_def)
    with assms have e: "ev @ ?at = xs @ Ev_attached i # ys" by simp
    have "?at \<noteq> []"
    proof
      assume "?at = []"
      with e have "ev = xs @ Ev_attached i # ys" by (simp only: append_Nil2)
      with a show False by simp
    qed
    then have m: "attach_mode cfg = ''auto''" and at: "?at = [Ev_attached iface]" by (auto split: if_splits)
    from e at have "ev @ [Ev_attached iface] = xs @ Ev_attached i # ys" by simp
    then have "ys = [] \<and> xs = ev \<and> i = iface"
      using a by (cases ys rule: rev_cases) auto
    with m prepare_events(2) [OF p, of iface e shape] Inr t show ?thesis by auto
  qed
qed

text \<open>A mismatch list is empty exactly when the pinned map fits this build and configuration, so
  the loader reports "reused" without a warning only for a 16-byte key, 528-byte value LRU map of the
  configured capacity.\<close>

theorem reused_without_warning_iff:
  "log_cache_provenance info n True = Prov_reused n \<longleftrightarrow>
     (\<exists>i. info = Some i \<and> mi_lru_hash i = Some True \<and> mi_key_size i = 16 \<and> mi_value_size i = 528 \<and> mi_max_entries i = n)"
proof -
  have "cache_key_size = 16" "cache_value_size = 528" by code_simp+
  then show ?thesis
    by (auto simp: log_cache_provenance_def cache_shape_def shape_mismatch_def declared_shape_def Let_def
        split: sum.splits option.splits)
qed

text \<open>The baked kernel log level is always one of the three ranks of the log library, an unset
  variable gives \<open>warn\<close> silently, a value that is one of the names up to case and surrounding white space
  gives its rank, and everything else is clamped to \<open>warn\<close> with a warning.\<close>

theorem kernel_log_level_cases:
  "kernel_log_level raw = (case raw of
       None \<Rightarrow> (2, False)
     | Some r \<Rightarrow> if to_lower (trim r) = ''off'' then (0, False)
         else if to_lower (trim r) = ''error'' then (1, False)
         else if to_lower (trim r) = ''warn'' then (2, False) else (2, True))"
  by (simp add: kernel_log_level_def resolve_level_def level_parse_def level_as_u8_def Let_def split: option.splits)

definition sample_ebpf :: ebpf_obj where
  "sample_ebpf = \<lparr>eb_logger = True,
     eb_cache = Some (True, Some \<lparr>mi_lru_hash = Some True, mi_key_size = 16, mi_value_size = 528, mi_max_entries = 1000\<rparr>),
     eb_stats = Some True, eb_config = Some True, eb_config_set = True, eb_program = Some True, eb_load = True,
     eb_attach = (\<lambda>_. True)\<rparr>"

definition sample_host :: xdp_host where
  "sample_host = \<lparr>host_env_interface = None, host_route_file = Some (''Iface Destination'' @ [CHR 0x0A] @ ''eth0 00000000''),
     host_elf_empty = False, host_log_level = Some '' Error'', host_exists = (\<lambda>_. True),
     host_pinned_entries = (\<lambda>_. Some 1000), host_load = (\<lambda>_ _ _. Some sample_ebpf)\<rparr>"

definition sample_xdp_config :: xdp_config where
  "sample_xdp_config = \<lparr>xdp_enabled = True, xdp_interface = [], attach_mode = ''auto'', cache_size = 65536,
     negative_ttl = 30, pin_path = ''/sys/fs/bpf/dns_cache''\<rparr>"

theorem config_written_before_attach_witness:
  "fst (xdp_manager_new sample_host sample_xdp_config 53) =
     [Ev_create_parent ''/sys/fs/bpf/dns_cache_v1'', Ev_load 1000 ''/sys/fs/bpf/dns_cache_v1'' 1, Ev_provenance (Prov_mismatch [MaxEntries 1000 65536] 65536),
      Ev_config_set 53, Ev_program_loaded] @ Ev_attached ''eth0'' # [] \<and>
   suffix [Ev_config_set 53, Ev_program_loaded]
     [Ev_create_parent ''/sys/fs/bpf/dns_cache_v1'', Ev_load 1000 ''/sys/fs/bpf/dns_cache_v1'' 1, Ev_provenance (Prov_mismatch [MaxEntries 1000 65536] 65536),
      Ev_config_set 53, Ev_program_loaded]"
proof
  show e: "fst (xdp_manager_new sample_host sample_xdp_config 53) =
     [Ev_create_parent ''/sys/fs/bpf/dns_cache_v1'', Ev_load 1000 ''/sys/fs/bpf/dns_cache_v1'' 1, Ev_provenance (Prov_mismatch [MaxEntries 1000 65536] 65536),
      Ev_config_set 53, Ev_program_loaded] @ Ev_attached ''eth0'' # []"
    by code_simp
  from config_written_before_attach [OF e] show "suffix [Ev_config_set 53, Ev_program_loaded]
     [Ev_create_parent ''/sys/fs/bpf/dns_cache_v1'', Ev_load 1000 ''/sys/fs/bpf/dns_cache_v1'' 1, Ev_provenance (Prov_mismatch [MaxEntries 1000 65536] 65536),
      Ev_config_set 53, Ev_program_loaded]" by blast
qed

end
