(* ===== verification/Dns_Types.thy ===== *)
theory Dns_Types
  imports Prelude
begin

text \<open>
  The vocabulary shared by the resolution side of the server: response codes, names, records and
  lookup results as the code uses them (types of the hickory library, of which only the
  constructors the sources mention are kept apart), and the outcome of a request with its
  constructors (\<open>crates/doggy-dns-plugin/src/plugin.rs\<close>).
\<close>

section \<open>DNS data\<close>

datatype response_code = NoError | FormErr | ServFail | NXDomain | NotImp | Refused | OtherCode u16

type_synonym dns_name = "bytes list"

datatype record_type = RT_A | RT_AAAA | RT_SOA | RT_SRV | RT_TXT | RT_ANY | RT_Other u16

datatype rdata =
    RD_A bytes
  | RD_AAAA bytes
  | RD_SOA dns_name dns_name u32 u32 u32 u32 u32
  | RD_Other u16 bytes

record dns_record =
  rr_name :: dns_name
  rr_ttl :: u32
  rr_data :: rdata

section \<open>The outcome of a request\<close>

datatype middleware_action = Continue_Request | ShortCircuit

record request_outcome =
  response_code :: response_code
  authority :: "string option"
  answers :: nat
  response_bytes :: "bytes option"
  min_answer_ttl :: "u32 option"

definition outcome_error :: "response_code \<Rightarrow> request_outcome" where
  "outcome_error code = \<lparr>response_code = code, authority = None, answers = 0,
     response_bytes = None, min_answer_ttl = None\<rparr>"

definition outcome_authority_error :: "response_code \<Rightarrow> string \<Rightarrow> request_outcome" where
  "outcome_authority_error code auth = \<lparr>response_code = code, authority = Some auth, answers = 0,
     response_bytes = None, min_answer_ttl = None\<rparr>"

definition outcome_success :: "string \<Rightarrow> nat \<Rightarrow> bytes option \<Rightarrow> u32 option \<Rightarrow> request_outcome" where
  "outcome_success auth n resp ttl = \<lparr>response_code = NoError, authority = Some auth, answers = n,
     response_bytes = resp, min_answer_ttl = ttl\<rparr>"

definition outcome_nxdomain :: "bytes option \<Rightarrow> request_outcome" where
  "outcome_nxdomain resp = \<lparr>response_code = NXDomain, authority = None, answers = 0,
     response_bytes = resp, min_answer_ttl = None\<rparr>"

lemmas outcome_defs = outcome_error_def outcome_authority_error_def outcome_success_def outcome_nxdomain_def

end
