(* ===== verification/Authority_Chain.thy ===== *)
theory Authority_Chain
  imports Dns_Types
begin

text \<open>
  Resolution through a chain of authorities (\<open>crates/doggy-dns-plugin/src/authority_chain.rs\<close>) and the two
  built-in recursive ones (\<open>builtin/native.rs\<close>, \<open>builtin/forward.rs\<close>). A zone handler is a record of what the
  trait offers; the resolver behind a built-in authority is a parameter (it is the hickory library's).
\<close>

section \<open>Lookups\<close>

text \<open>A resolver failure, by what the sources ask of it: \<open>is_nx_domain()\<close>, \<open>is_no_records_found()\<close>, and the code
  when it is a DNS response code.\<close>

record net_error =
  is_nx_domain :: bool
  is_no_records_found :: bool
  net_response_code :: "response_code option"

datatype lookup_error =
    NameExists
  | LookupResponseCode response_code
  | LookupNetError net_error
  | LookupOther

datatype auth_lookup = Section "dns_record list" | Resolved "dns_record list"

definition lookup_records :: "auth_lookup \<Rightarrow> dns_record list" where
  "lookup_records l = (case l of Section rs \<Rightarrow> rs | Resolved rs \<Rightarrow> rs)"

datatype control_flow =
    CF_Continue "(lookup_error, auth_lookup) result"
  | CF_Break "(lookup_error, auth_lookup) result"
  | CF_Skip

datatype zone_type = Primary | Secondary | External

record 'i zone_handler =
  zone_type :: zone_type
  origin :: dns_name
  zh_lookup :: "dns_name \<Rightarrow> record_type \<Rightarrow> 'i option \<Rightarrow> control_flow"

section \<open>The chain\<close>

record resolve_result =
  rr_outcome :: control_flow
  rr_handler_name :: "string option"
  rr_authoritative :: bool
  rr_soa :: "dns_record option"

text \<open>\<open>apex_soa\<close> is the \<open>OnceLock\<close>: \<^term>\<open>None\<close> while it is empty.\<close>

record 'i named_handler =
  nh_name :: string
  nh_handler :: "'i zone_handler"
  apex_soa :: "dns_record option option"

definition chain_new :: "(string \<times> 'i zone_handler) list \<Rightarrow> 'i named_handler list" where
  "chain_new hs = map (\<lambda>(n, h). \<lparr>nh_name = n, nh_handler = h, apex_soa = None\<rparr>) hs"

definition fetch_apex_soa :: "'i zone_handler \<Rightarrow> 'i option \<Rightarrow> dns_record option" where
  "fetch_apex_soa h info = (case zh_lookup h (origin h) RT_SOA info of
       CF_Continue (Inr l) \<Rightarrow> (case lookup_records l of [] \<Rightarrow> None | r # _ \<Rightarrow> Some r)
     | CF_Break (Inr l) \<Rightarrow> (case lookup_records l of [] \<Rightarrow> None | r # _ \<Rightarrow> Some r)
     | _ \<Rightarrow> None)"

definition is_authoritative :: "zone_type \<Rightarrow> bool" where
  "is_authoritative z = (case z of Primary \<Rightarrow> True | Secondary \<Rightarrow> True | External \<Rightarrow> False)"

definition is_err :: "control_flow \<Rightarrow> bool" where
  "is_err r = (case r of CF_Continue (Inl _) \<Rightarrow> True | CF_Break (Inl _) \<Rightarrow> True | _ \<Rightarrow> False)"

text \<open>\<open>OnceLock::set\<close> after a fetch: only a hit is stored, and only into an empty cell.\<close>

definition soa_set :: "dns_record option option \<Rightarrow> dns_record option \<Rightarrow> dns_record option option" where
  "soa_set cell fetched = (if fetched \<noteq> None \<and> cell = None then Some fetched else cell)"

definition negative_soa ::
  "'i named_handler \<Rightarrow> control_flow \<Rightarrow> 'i option \<Rightarrow> dns_record option \<times> 'i named_handler" where
  "negative_soa entry result info =
     (if is_authoritative (zone_type (nh_handler entry)) \<and> is_err result then
        (case apex_soa entry of
           Some cached \<Rightarrow> (cached, entry)
         | None \<Rightarrow> let fetched = fetch_apex_soa (nh_handler entry) info
                   in (fetched, entry\<lparr>apex_soa := soa_set (apex_soa entry) fetched\<rparr>))
      else (None, entry))"

fun resolve ::
  "'i named_handler list \<Rightarrow> dns_name \<Rightarrow> record_type \<Rightarrow> 'i option \<Rightarrow> resolve_result \<times> 'i named_handler list" where
  "resolve [] name rtype info =
     (\<lparr>rr_outcome = CF_Skip, rr_handler_name = None, rr_authoritative = False, rr_soa = None\<rparr>, [])"
| "resolve (entry # hs) name rtype info =
     (case zh_lookup (nh_handler entry) name rtype info of
        CF_Skip \<Rightarrow> let (r, hs') = resolve hs name rtype info in (r, entry # hs')
      | result \<Rightarrow>
          let (soa, entry') = negative_soa entry result info in
          (\<lparr>rr_outcome = result, rr_handler_name = Some (nh_name entry),
            rr_authoritative = is_authoritative (zone_type (nh_handler entry)), rr_soa = soa\<rparr>,
           entry' # hs))"

definition chain_is_empty :: "'i named_handler list \<Rightarrow> bool" where
  "chain_is_empty hs = (hs = [])"

section \<open>Built-in authorities\<close>

text \<open>The resolver's answer to one lookup.\<close>

type_synonym resolver = "dns_name \<Rightarrow> record_type \<Rightarrow> (net_error, dns_record list) result"

text \<open>A lower-case name converts to a name without re-parsing its labels.\<close>

definition wire_query_name :: "dns_name \<Rightarrow> dns_name" where
  "wire_query_name name = name"

text \<open>Negative answers and failures of the system resolver both fall through; they differ in the log line.\<close>

definition native_lookup :: "resolver \<Rightarrow> dns_name \<Rightarrow> record_type \<Rightarrow> 'i option \<Rightarrow> control_flow" where
  "native_lookup rslv name rtype info = (case rslv (wire_query_name name) rtype of
       Inr rs \<Rightarrow> if rs = [] then CF_Skip else CF_Continue (Inr (Resolved rs))
     | Inl e \<Rightarrow> CF_Skip)"

definition native_authority :: "resolver \<Rightarrow> 'i zone_handler" where
  "native_authority rslv = \<lparr>zone_type = External, origin = [], zh_lookup = native_lookup rslv\<rparr>"

definition classify_error :: "net_error \<Rightarrow> response_code \<times> lookup_error" where
  "classify_error e =
     (if is_nx_domain e then (NXDomain, LookupResponseCode NXDomain)
      else if is_no_records_found e then (NoError, NameExists)
      else let code = (case net_response_code e of Some c \<Rightarrow> c | None \<Rightarrow> ServFail)
           in (code, LookupResponseCode code))"

definition forward_lookup :: "resolver \<Rightarrow> dns_name \<Rightarrow> record_type \<Rightarrow> 'i option \<Rightarrow> control_flow" where
  "forward_lookup rslv name rtype info = (case rslv (wire_query_name name) rtype of
       Inr rs \<Rightarrow> if length rs = 0 then CF_Continue (Inl NameExists) else CF_Continue (Inr (Resolved rs))
     | Inl e \<Rightarrow> let (code, err) = classify_error e in CF_Continue (Inl err))"

definition forward_authority :: "resolver \<Rightarrow> 'i zone_handler" where
  "forward_authority rslv = \<lparr>zone_type = External, origin = [], zh_lookup = forward_lookup rslv\<rparr>"

text \<open>\<open>search\<close> of both: a request without usable question is skipped.\<close>

definition authority_search ::
  "'i zone_handler \<Rightarrow> (dns_name \<times> record_type \<times> 'i) option \<Rightarrow> control_flow" where
  "authority_search h info = (case info of
       None \<Rightarrow> CF_Skip
     | Some (name, rtype, i) \<Rightarrow> zh_lookup h name rtype (Some i))"

definition native_search :: "resolver \<Rightarrow> (dns_name \<times> record_type \<times> 'i) option \<Rightarrow> control_flow" where
  "native_search rslv info = (case info of
       None \<Rightarrow> CF_Skip
     | Some (name, rtype, i) \<Rightarrow> native_lookup rslv name rtype (Some i))"

text \<open>Neither signs its zone.\<close>

definition native_nsec_records :: "dns_name \<Rightarrow> control_flow" where
  "native_nsec_records name = CF_Skip"

definition forward_nsec_records :: "dns_name \<Rightarrow> control_flow" where
  "forward_nsec_records name = CF_Skip"

lemma native_search_is_authority_search: "native_search rslv info = authority_search (native_authority rslv) info"
  by (simp add: native_search_def authority_search_def native_authority_def split: option.splits)

section \<open>First answer wins\<close>

lemma resolve_names: "map nh_name (snd (resolve hs n t i)) = map nh_name hs"
  and resolve_handlers: "map nh_handler (snd (resolve hs n t i)) = map nh_handler hs"
  by (induction hs)
    (auto simp: Let_def negative_soa_def split: control_flow.splits prod.splits option.splits)

lemma resolve_skip_append:
  "list_all (\<lambda>h. zh_lookup (nh_handler h) n t i = CF_Skip) hs \<Longrightarrow>
     resolve (hs @ ks) n t i = (fst (resolve ks n t i), hs @ snd (resolve ks n t i))"
  by (induction hs) (auto split: prod.splits)

text \<open>The uncached specification: the first handler that does not skip answers, and its apex SOA is
  looked up for a negative answer of a zone it owns.\<close>

fun resolve_spec :: "(string \<times> 'i zone_handler) list \<Rightarrow> dns_name \<Rightarrow> record_type \<Rightarrow> 'i option \<Rightarrow> resolve_result" where
  "resolve_spec [] n t i =
     \<lparr>rr_outcome = CF_Skip, rr_handler_name = None, rr_authoritative = False, rr_soa = None\<rparr>"
| "resolve_spec ((name, h) # hs) n t i =
     (let r = zh_lookup h n t i in
      if r = CF_Skip then resolve_spec hs n t i
      else \<lparr>rr_outcome = r, rr_handler_name = Some name, rr_authoritative = is_authoritative (zone_type h),
            rr_soa = (if is_authoritative (zone_type h) \<and> is_err r then fetch_apex_soa h i else None)\<rparr>)"

definition chain_abs :: "'i named_handler list \<Rightarrow> (string \<times> 'i zone_handler) list" where
  "chain_abs hs = map (\<lambda>e. (nh_name e, nh_handler e)) hs"

text \<open>The condition the source states for the cached SOA to be sound: the apex lookup of a handler does not
  depend on the request.\<close>

definition stable_soa :: "'i zone_handler \<Rightarrow> bool" where
  "stable_soa h = (\<forall>i j. fetch_apex_soa h i = fetch_apex_soa h j)"

definition soa_cell_ok :: "'i named_handler \<Rightarrow> bool" where
  "soa_cell_ok e = (\<forall>v. apex_soa e = Some v \<longrightarrow> v \<noteq> None \<and> (\<forall>i. fetch_apex_soa (nh_handler e) i = v))"

lemma resolve_refines:
  assumes "list_all (\<lambda>e. stable_soa (nh_handler e)) hs" and "list_all soa_cell_ok hs"
  shows "fst (resolve hs n t i) = resolve_spec (chain_abs hs) n t i \<and> list_all soa_cell_ok (snd (resolve hs n t i))"
  using assms
proof (induction hs)
  case (Cons e hs)
  let ?r = "zh_lookup (nh_handler e) n t i"
  show ?case
  proof (cases "?r = CF_Skip")
    case True
    with Cons show ?thesis by (auto simp: chain_abs_def split: prod.splits)
  next
    case False
    obtain soa e' where s: "negative_soa e ?r i = (soa, e')" by force
    have "soa = (if is_authoritative (zone_type (nh_handler e)) \<and> is_err ?r then fetch_apex_soa (nh_handler e) i else None)"
      and "soa_cell_ok e'"
      using s Cons(2,3)
      by (auto simp: negative_soa_def soa_set_def stable_soa_def soa_cell_ok_def Let_def
          split: if_splits option.splits) (metis option.exhaust)
    with False s Cons(3) show ?thesis by (auto simp: chain_abs_def split: control_flow.splits)
  qed
qed (simp add: chain_abs_def)

lemma chain_abs_resolve [simp]: "chain_abs (snd (resolve hs n t i)) = chain_abs hs"
proof -
  have "zip (map nh_name (snd (resolve hs n t i))) (map nh_handler (snd (resolve hs n t i))) =
        zip (map nh_name hs) (map nh_handler hs)"
    by (simp only: resolve_names resolve_handlers)
  then show ?thesis by (simp only: chain_abs_def zip_map_map map_map zip_same_conv_map) (simp add: comp_def)
qed


text \<open>A session: queries one after the other on the same chain.\<close>

fun resolve_seq :: "'i named_handler list \<Rightarrow> (dns_name \<times> record_type \<times> 'i option) list \<Rightarrow> resolve_result list" where
  "resolve_seq hs [] = []"
| "resolve_seq hs ((n, t, i) # qs) = (let (r, hs') = resolve hs n t i in r # resolve_seq hs' qs)"

lemma resolve_seq_refines:
  "list_all (\<lambda>e. stable_soa (nh_handler e)) hs \<Longrightarrow> list_all soa_cell_ok hs \<Longrightarrow>
     resolve_seq hs qs = map (\<lambda>(n, t, i). resolve_spec (chain_abs hs) n t i) qs"
proof (induction qs arbitrary: hs)
  case (Cons q qs)
  obtain n t i where q: "q = (n, t, i)" by (cases q)
  let ?hs = "snd (resolve hs n t i)"
  note r = resolve_refines [OF Cons(2,3), of n t i]
  have "list_all (\<lambda>e. stable_soa (nh_handler e)) ?hs"
  proof -
    have "list_all stable_soa (map nh_handler ?hs)"
      unfolding resolve_handlers using Cons(2) by (simp add: list.pred_map comp_def)
    then show ?thesis by (simp add: list.pred_map comp_def)
  qed
  from Cons(1) [OF this] r have "resolve_seq ?hs qs = map (\<lambda>(n, t, i). resolve_spec (chain_abs hs) n t i) qs" by simp
  with r show ?case by (simp add: q split_beta Let_def)
qed simp

text \<open>C11. Caching the apex SOA in the chain is invisible: for handlers whose apex lookup does not depend
  on the request, any sequence of queries on a fresh chain gives exactly the results of the uncached
  specification, in which the first handler that does not skip answers alone.\<close>

theorem chain_refines_spec:
  assumes "list_all (\<lambda>(n, h). stable_soa h) hs"
  shows "resolve_seq (chain_new hs) qs = map (\<lambda>(n, t, i). resolve_spec hs n t i) qs"
proof -
  have "list_all (\<lambda>e. stable_soa (nh_handler e)) (chain_new hs)"
    using assms by (auto simp: chain_new_def list_all_iff)
  moreover have "list_all soa_cell_ok (chain_new hs)"
    by (auto simp: chain_new_def list_all_iff soa_cell_ok_def)
  moreover have "chain_abs (chain_new hs) = hs"
    by (simp add: chain_abs_def chain_new_def comp_def split_beta)
  ultimately show ?thesis using resolve_seq_refines [of "chain_new hs" qs] by simp
qed

definition sample_soa :: dns_record where
  "sample_soa = \<lparr>rr_name = [[122]], rr_ttl = 60, rr_data = RD_SOA [[122]] [[122]] 1 2 3 4 5\<rparr>"

definition sample_zone :: "unit zone_handler" where
  "sample_zone = \<lparr>zone_type = Primary, origin = [[122]],
     zh_lookup = (\<lambda>n t i. if n = [[122]] \<and> t = RT_SOA then CF_Continue (Inr (Section [sample_soa]))
                         else if n = [[97]] then CF_Continue (Inl (LookupResponseCode NXDomain)) else CF_Skip)\<rparr>"

theorem chain_refines_spec_witness:
  "map rr_soa (resolve_seq (chain_new [(''zone'', sample_zone)]) [([[97]], RT_A, Some ()), ([[97]], RT_A, None), ([[98]], RT_A, None)]) =
     [Some sample_soa, Some sample_soa, None]"
proof -
  have "list_all (\<lambda>(n, h). stable_soa h) [(''zone'', sample_zone)]"
    by (simp add: stable_soa_def fetch_apex_soa_def sample_zone_def)
  note r = chain_refines_spec [OF this]
  show ?thesis unfolding r
    by (simp add: sample_zone_def Let_def is_err_def is_authoritative_def fetch_apex_soa_def lookup_records_def)
qed

section \<open>Concurrent first requests\<close>

text \<open>Requests with a negative answer of one handler race for its cell: each reads it, fetches the record when it is
  empty, and later tries to set it. A fetch is the handler's lookup at some moment; \<open>H\<close> are its behaviours over
  time, since a lookup may fail and later succeed. The state is the cell and where each request is.\<close>

datatype soa_pc = Soa_start | Soa_fetched "dns_record option" | Soa_done "dns_record option"

type_synonym soa_state = "dns_record option option \<times> soa_pc list"

inductive soa_step :: "'i zone_handler set \<Rightarrow> 'i option list \<Rightarrow> soa_state \<Rightarrow> soa_state \<Rightarrow> bool" for H infos where
  soa_hit: "i < length pcs \<Longrightarrow> pcs ! i = Soa_start \<Longrightarrow> soa_step H infos (Some c, pcs) (Some c, pcs[i := Soa_done c])"
| soa_fetch: "i < length pcs \<Longrightarrow> pcs ! i = Soa_start \<Longrightarrow> h \<in> H \<Longrightarrow>
    soa_step H infos (None, pcs) (None, pcs[i := Soa_fetched (fetch_apex_soa h (infos ! i))])"
| soa_finish: "i < length pcs \<Longrightarrow> pcs ! i = Soa_fetched v \<Longrightarrow>
    soa_step H infos (cell, pcs) (soa_set cell v, pcs[i := Soa_done v])"

inductive_cases soa_stepE: "soa_step H infos (cell, pcs) s'"

text \<open>A request that runs alone is the sequential chain's access to the cell.\<close>

lemma soa_alone:
  assumes "is_authoritative (zone_type h)" and "is_err result"
  shows "(soa_step {h} [info])\<^sup>*\<^sup>* (cell, [Soa_start])
    (let (soa, e) = negative_soa \<lparr>nh_name = n, nh_handler = h, apex_soa = cell\<rparr> result info in (apex_soa e, [Soa_done soa]))"
proof (cases cell)
  case None
  have "soa_step {h} [info] (None, [Soa_start]) (None, [Soa_fetched (fetch_apex_soa h info)])"
    using soa_fetch [of 0 "[Soa_start]" h "{h}" "[info]"] by simp
  moreover have "soa_step {h} [info] (None, [Soa_fetched (fetch_apex_soa h info)])
      (soa_set None (fetch_apex_soa h info), [Soa_done (fetch_apex_soa h info)])"
    using soa_finish [of 0 "[Soa_fetched (fetch_apex_soa h info)]" "fetch_apex_soa h info" "{h}" "[info]" None] by simp
  ultimately show ?thesis using assms None by (simp add: negative_soa_def Let_def)
next
  case (Some c)
  with assms soa_hit [of 0 "[Soa_start]" "{h}" "[info]" c] show ?thesis by (simp add: negative_soa_def r_into_rtranclp)
qed

text \<open>Every successful lookup of the handler's apex gives the record \<open>r\<close>.\<close>

definition one_apex_soa :: "'i zone_handler set \<Rightarrow> dns_record \<Rightarrow> bool" where
  "one_apex_soa H r = (\<forall>h \<in> H. \<forall>i. fetch_apex_soa h i \<in> {None, Some r})"

definition soa_inv :: "'i zone_handler set \<Rightarrow> 'i option list \<Rightarrow> dns_record \<Rightarrow> soa_state \<Rightarrow> bool" where
  "soa_inv H infos r s = (case s of (cell, pcs) \<Rightarrow>
     length pcs = length infos \<and> cell = (if Soa_done (Some r) \<in> set pcs then Some (Some r) else None) \<and>
     (\<forall>i < length infos. \<forall>v. pcs ! i \<in> {Soa_fetched v, Soa_done v} \<longrightarrow>
        v = Some r \<or> v = None \<and> (\<exists>h \<in> H. fetch_apex_soa h (infos ! i) = None)))"

lemma set_update_other: "i < length xs \<Longrightarrow> xs ! i \<noteq> y \<Longrightarrow> y \<in> set (xs[i := x]) \<longleftrightarrow> y = x \<or> y \<in> set xs"
  by (auto simp: in_set_conv_nth nth_list_update)

lemma soa_step_inv:
  assumes "one_apex_soa H r" and "soa_step H infos s s'" and "soa_inv H infos r s"
  shows "soa_inv H infos r s'"
  using assms(2,3)
proof (induction rule: soa_step.induct)
  case (soa_hit i pcs c)
  then have c: "c = Some r" by (auto simp: soa_inv_def split: if_splits)
  with soa_hit show ?case by (auto simp: soa_inv_def nth_list_update set_update_other split: if_splits)
next
  case (soa_fetch i pcs h)
  then show ?case using assms(1)
    by (auto simp: soa_inv_def one_apex_soa_def nth_list_update set_update_other split: if_splits)
next
  case (soa_finish i pcs v cell)
  then have "v = Some r \<or> v = None \<and> (\<exists>h \<in> H. fetch_apex_soa h (infos ! i) = None)" by (auto simp: soa_inv_def)
  with soa_finish show ?case
    by (auto simp: soa_inv_def soa_set_def nth_list_update set_update_other split: if_splits)
qed

text \<open>After the cell is set, a request that has not read it yet can only take the cached record.\<close>

lemma soa_step_set:
  assumes "soa_step H infos s s'" and "fst s = Some c" and "snd s ! i \<in> {Soa_start, Soa_done c}"
  shows "fst s' = Some c \<and> snd s' ! i \<in> {Soa_start, Soa_done c}"
  using assms by (induction rule: soa_step.induct) (auto simp: soa_set_def nth_list_update)

lemma soa_steps_set:
  assumes "(soa_step H infos)\<^sup>*\<^sup>* s s'" and "fst s = Some c" and "snd s ! i \<in> {Soa_start, Soa_done c}"
  shows "fst s' = Some c \<and> snd s' ! i \<in> {Soa_start, Soa_done c}"
  using assms by (induction rule: rtranclp_induct) (auto dest: soa_step_set)

lemma soa_cell_kept: "(soa_step H infos)\<^sup>*\<^sup>* s s' \<Longrightarrow> fst s = Some c \<Longrightarrow> fst s' = Some c"
proof (induction rule: rtranclp_induct)
  case (step s1 s2)
  from step(2,3,4) show ?case by (induction rule: soa_step.induct) (auto simp: soa_set_def)
qed simp

text \<open>C12. The lock-free SOA cell is safe under any interleaving of the requests that find it empty, when every successful
  lookup of the handler's apex gives one record and any lookup may fail: each request that is done answers with that
  record, or with none if a lookup made for it failed; the cell holds the record as soon as one request has been
  answered with it and is empty before, so a failure is never pinned; and once set it stays, and every
  request that reads it from then on answers with the record.\<close>

theorem soa_cell_concurrent:
  assumes "one_apex_soa H r" and "(soa_step H infos)\<^sup>*\<^sup>* (None, replicate (length infos) Soa_start) (cell, pcs)"
    and "(soa_step H infos)\<^sup>*\<^sup>* (cell, pcs) (cell', pcs')"
  shows "(\<forall>i < length infos. \<forall>v. pcs ! i = Soa_done v \<longrightarrow>
      v = Some r \<or> v = None \<and> (\<exists>h \<in> H. fetch_apex_soa h (infos ! i) = None)) \<and>
    cell = (if Soa_done (Some r) \<in> set pcs then Some (Some r) else None) \<and>
    (cell \<noteq> None \<longrightarrow> cell' = cell \<and> (\<forall>i < length infos. \<forall>v. pcs ! i = Soa_start \<and> pcs' ! i = Soa_done v \<longrightarrow> v = Some r))"
proof -
  have "soa_inv H infos r (None, replicate (length infos) Soa_start)" by (auto simp: soa_inv_def)
  with assms(2) have i: "soa_inv H infos r (cell, pcs)"
    by (induction rule: rtranclp_induct) (auto intro: soa_step_inv [OF assms(1)])
  then have c: "cell = (if Soa_done (Some r) \<in> set pcs then Some (Some r) else None)" by (simp add: soa_inv_def)
  have "v = Some r" if "cell \<noteq> None" "pcs ! j = Soa_start" "pcs' ! j = Soa_done v" for j v
    using soa_steps_set [OF assms(3), of "Some r" j] that c by (auto split: if_splits)
  moreover have "cell' = cell" if "cell \<noteq> None"
    using soa_cell_kept [OF assms(3), of "Some r"] that c by (auto split: if_splits)
  ultimately show ?thesis using i c by (auto simp: soa_inv_def)
qed

definition failing_zone :: "unit zone_handler" where
  "failing_zone = sample_zone\<lparr>zh_lookup := (\<lambda>n t i. CF_Continue (Inl LookupOther))\<rparr>"

theorem soa_cell_concurrent_witness:
  "let H = {sample_zone, failing_zone}; infos = [None, Some (), None]; done = Soa_done (Some sample_soa);
       s = (Some (Some sample_soa), [done, Soa_fetched None, Soa_start]); s' = (Some (Some sample_soa), [done, Soa_fetched None, done]) in
   (soa_step H infos)\<^sup>*\<^sup>* (None, replicate 3 Soa_start) s \<and> (soa_step H infos)\<^sup>*\<^sup>* s s' \<and> snd s' ! 2 = done \<and> fst s' = fst s"
proof -
  let ?H = "{sample_zone, failing_zone}" and ?is = "[None, Some (), None]" and ?d = "Soa_done (Some sample_soa)"
  let ?s = "(Some (Some sample_soa), [?d, Soa_fetched None, Soa_start])" and ?s' = "(Some (Some sample_soa), [?d, Soa_fetched None, ?d])"
  have f: "fetch_apex_soa sample_zone i = Some sample_soa" "fetch_apex_soa failing_zone i = None" for i
    by (simp_all add: fetch_apex_soa_def sample_zone_def failing_zone_def lookup_records_def)
  have o: "one_apex_soa ?H sample_soa" by (simp add: one_apex_soa_def f)
  have "soa_step ?H ?is (None, replicate 3 Soa_start) (None, [Soa_fetched (Some sample_soa), Soa_start, Soa_start])"
    using soa_fetch [of 0 "replicate 3 Soa_start" sample_zone ?H ?is] by (simp add: f numeral_3_eq_3)
  moreover have "soa_step ?H ?is (None, [Soa_fetched (Some sample_soa), Soa_start, Soa_start])
      (None, [Soa_fetched (Some sample_soa), Soa_fetched None, Soa_start])"
    using soa_fetch [of 1 "[Soa_fetched (Some sample_soa), Soa_start, Soa_start]" failing_zone ?H ?is] by (simp add: f)
  moreover have "soa_step ?H ?is (None, [Soa_fetched (Some sample_soa), Soa_fetched None, Soa_start]) ?s"
    using soa_finish [of 0 "[Soa_fetched (Some sample_soa), Soa_fetched None, Soa_start]" "Some sample_soa" ?H ?is None]
    by (simp add: soa_set_def)
  ultimately have a: "(soa_step ?H ?is)\<^sup>*\<^sup>* (None, replicate 3 Soa_start) ?s"
    by (meson converse_rtranclp_into_rtranclp rtranclp.rtrancl_refl)
  have "soa_step ?H ?is ?s ?s'"
    using soa_hit [of 2 "[?d, Soa_fetched None, Soa_start]" ?H ?is "Some sample_soa"] by (simp add: numeral_2_eq_2)
  then have b: "(soa_step ?H ?is)\<^sup>*\<^sup>* ?s ?s'" by (rule r_into_rtranclp)
  have "length ?is = 3" by simp
  with a soa_cell_concurrent [OF o, of ?is "fst ?s" "snd ?s" "fst ?s'" "snd ?s'"] b show ?thesis
    by (simp add: Let_def)
qed

section \<open>Answers are never empty\<close>

text \<open>The contract an authority offers the request handler: a positive result has at least one record.\<close>

locale answering_backend =
  fixes lk :: "dns_name \<Rightarrow> record_type \<Rightarrow> 'i option \<Rightarrow> control_flow"
  assumes nonempty: "lk n t i \<in> {CF_Continue (Inr l), CF_Break (Inr l)} \<Longrightarrow> lookup_records l \<noteq> []"
begin

lemma positive_has_record:
  "lk n t i \<in> {CF_Continue (Inr l), CF_Break (Inr l)} \<Longrightarrow> \<exists>r. r \<in> set (lookup_records l)"
  using nonempty [of n t i l] by (cases "lookup_records l") auto

end

interpretation native: answering_backend "native_lookup rslv" for rslv
  by unfold_locales (auto simp: native_lookup_def lookup_records_def split: sum.splits if_splits)

interpretation forward: answering_backend "forward_lookup rslv" for rslv
  by unfold_locales (auto simp: forward_lookup_def lookup_records_def split: sum.splits if_splits prod.splits)

lemma resolve_member:
  "rr_outcome (fst (resolve hs n t i)) = r \<Longrightarrow> r \<noteq> CF_Skip \<Longrightarrow>
     \<exists>e \<in> set hs. zh_lookup (nh_handler e) n t i = r \<and> rr_handler_name (fst (resolve hs n t i)) = Some (nh_name e)"
  by (induction hs) (auto split: control_flow.splits prod.splits)

text \<open>The built-in authorities keep the two promises the chain is built on. The native authority
  never fails a query: it answers with at least one record or lets the next authority try. The
  forward authority never lets a query pass: it answers with at least one record or with an error
  whose class follows the upstream's (NXDOMAIN, no data, the upstream's code, or SERVFAIL).\<close>

theorem builtin_authorities:
  fixes rslv :: resolver and n t and i :: "'i option"
  shows "(native_lookup rslv n t i = CF_Skip \<or>
      (\<exists>rs. rs \<noteq> [] \<and> native_lookup rslv n t i = CF_Continue (Inr (Resolved rs)) \<and> rslv n t = Inr rs)) \<and>
    ((\<exists>rs. rs \<noteq> [] \<and> forward_lookup rslv n t i = CF_Continue (Inr (Resolved rs)) \<and> rslv n t = Inr rs) \<or>
      (\<exists>e. forward_lookup rslv n t i = CF_Continue (Inl e) \<and>
        e = (case rslv n t of Inr _ \<Rightarrow> NameExists
             | Inl ne \<Rightarrow> if is_nx_domain ne then LookupResponseCode NXDomain
                 else if is_no_records_found ne then NameExists
                 else LookupResponseCode (case net_response_code ne of Some c \<Rightarrow> c | None \<Rightarrow> ServFail))))"
  by (auto simp: native_lookup_def forward_lookup_def classify_error_def wire_query_name_def Let_def split: sum.splits)

end
