(* ===== verification/Startup.thy ===== *)
theory Startup
  imports Control_Plane Server_Sockets Xdp_Loader Authority_Chain
begin

text \<open>
  How the binary puts the parts together: \<open>src/main.rs\<close> (the authority chain, CPU affinity, live signals, the control
  plane), \<open>src/xdp/linux.rs\<close> (the optional fast path), and \<open>ForwardAuthority::new\<close> of
  \<open>doggy-dns-plugin/src/builtin/forward.rs\<close>. What the Nacos client, the resolver library and the regular expressions
  decide is an argument: whether a watcher connects, a resolver builds, a pattern compiles.
\<close>

section \<open>Forward upstreams\<close>

definition parse_upstream :: "string \<Rightarrow> (ip_addr \<times> int) option" where
  "parse_upstream addr = (case parse_socket_addr addr of
       Some sa \<Rightarrow> Some sa
     | None \<Rightarrow> (case parse_ip_addr addr of Some ip \<Rightarrow> Some (ip, 53) | None \<Rightarrow> None))"

datatype chain_error =
    CE_no_upstream
  | CE_bad_upstream string
  | CE_resolver
  | CE_pattern nat
  | CE_watcher

record name_server =
  ns_ip :: ip_addr
  ns_udp_port :: int
  ns_tcp_port :: int

fun name_servers :: "string list \<Rightarrow> (chain_error, name_server list) result" where
  "name_servers [] = Inr []"
| "name_servers (a # as) = (case parse_upstream a of
       None \<Rightarrow> Inl (CE_bad_upstream a)
     | Some (ip, port) \<Rightarrow>
         (case name_servers as of
            Inl e \<Rightarrow> Inl e
          | Inr ns \<Rightarrow> Inr (\<lparr>ns_ip = ip, ns_udp_port = port, ns_tcp_port = port\<rparr> # ns)))"

record resolver_opts =
  ro_cache_size :: u64
  ro_min_ttl :: u64
  ro_max_ttl :: u64

text \<open>The third-party constructors.\<close>

record libraries =
  lib_forward :: "name_server list \<Rightarrow> resolver_opts \<Rightarrow> resolver option"
  lib_native :: "resolver_opts \<Rightarrow> resolver option"
  lib_pattern_ok :: "string \<Rightarrow> bool"
  lib_watcher :: "string \<Rightarrow> string \<Rightarrow> string \<Rightarrow> string option \<Rightarrow> nat option"

definition forward_new ::
  "libraries \<Rightarrow> string list \<Rightarrow> resolver_opts \<Rightarrow> (chain_error, 'i zone_handler) result" where
  "forward_new lib upstream opts =
     (if upstream = [] then Inl CE_no_upstream
      else (case name_servers upstream of
              Inl e \<Rightarrow> Inl e
            | Inr ns \<Rightarrow> (case lib_forward lib ns opts of None \<Rightarrow> Inl CE_resolver | Some r \<Rightarrow> Inr (forward_authority r))))"

section \<open>The authority chain\<close>

definition default_upstream :: "string list" where
  "default_upstream = [''8.8.8.8:53'', ''1.1.1.1:53'']"

fun join_with :: "string \<Rightarrow> string list \<Rightarrow> string" where
  "join_with sep [] = []"
| "join_with sep [s] = s"
| "join_with sep (s # ss) = s @ sep @ join_with sep ss"

definition plugin_opts :: "plugin_config \<Rightarrow> resolver_opts" where
  "plugin_opts p = \<lparr>ro_cache_size = ucast (pl_cache_size p), ro_min_ttl = ucast (pl_min_ttl p), ro_max_ttl = ucast (pl_max_ttl p)\<rparr>"

text \<open>The watcher of a zone is the number its client gave it; \<open>mk_nacos\<close> makes the zone handler from watcher, zone, group,
  namespace and TTL.\<close>

type_synonym 'i nacos_maker = "nat \<Rightarrow> string \<Rightarrow> string \<Rightarrow> string \<Rightarrow> u32 \<Rightarrow> 'i zone_handler"

definition load_plugin ::
  "libraries \<Rightarrow> 'i nacos_maker \<Rightarrow> nat \<Rightarrow> plugin_config \<Rightarrow>
     (chain_error, (string \<times> 'i zone_handler) \<times> (string \<times> nat) list) result" where
  "load_plugin lib mk_nacos i p = (case pl_kind p of
       Nacos \<Rightarrow>
         let addr = or_else (pl_server_addr p) ''127.0.0.1:8848''; ns = or_else (pl_namespace p) ''public'';
             grp = or_else (pl_group p) ''DEFAULT_GROUP''; zone = or_else (pl_dns_zone p) ''nacos.local''
         in if (case pl_service_pattern p of Some pat \<Rightarrow> \<not> lib_pattern_ok lib pat | None \<Rightarrow> False) then Inl (CE_pattern i)
            else (case lib_watcher lib addr ns grp (pl_service_pattern p) of
                    None \<Rightarrow> Inl CE_watcher
                  | Some w \<Rightarrow> Inr ((''nacos['' @ zone @ '']'', mk_nacos w zone grp ns (pl_ttl p)), [(zone, w)]))
     | Native \<Rightarrow> (case lib_native lib (plugin_opts p) of
           None \<Rightarrow> Inl CE_resolver | Some r \<Rightarrow> Inr ((''native'', native_authority r), []))
     | Forward \<Rightarrow>
         let addrs = (case pl_upstream p of Some u \<Rightarrow> u | None \<Rightarrow> default_upstream)
         in (case forward_new lib addrs (plugin_opts p) of
               Inl e \<Rightarrow> Inl e
             | Inr h \<Rightarrow> Inr ((''forward['' @ join_with '','' addrs @ '']'', h), [])))"

fun load_plugins ::
  "libraries \<Rightarrow> 'i nacos_maker \<Rightarrow> nat \<Rightarrow> plugin_config list \<Rightarrow>
     (chain_error, (string \<times> nat) list \<times> (string \<times> 'i zone_handler) list) result" where
  "load_plugins lib mk_nacos i [] = Inr ([], [])"
| "load_plugins lib mk_nacos i (p # ps) =
     (if \<not> pl_enabled p then load_plugins lib mk_nacos (Suc i) ps
      else (case load_plugin lib mk_nacos i p of
              Inl e \<Rightarrow> Inl e
            | Inr (h, ws) \<Rightarrow>
                (case load_plugins lib mk_nacos (Suc i) ps of
                   Inl e \<Rightarrow> Inl e
                 | Inr (ws', hs) \<Rightarrow> Inr (ws @ ws', h # hs))))"

definition build_authority_chain ::
  "libraries \<Rightarrow> 'i nacos_maker \<Rightarrow> plugin_config list \<Rightarrow>
     (chain_error, (string \<times> nat) list \<times> 'i named_handler list) result" where
  "build_authority_chain lib mk_nacos plugins =
     (if plugins = [] then
        (case forward_new lib default_upstream \<lparr>ro_cache_size = 1024, ro_min_ttl = 30, ro_max_ttl = 600\<rparr> of
           Inl e \<Rightarrow> Inl e
         | Inr h \<Rightarrow> Inr ([], chain_new [(''forward[default]'', h)]))
      else (case load_plugins lib mk_nacos 0 plugins of
              Inl e \<Rightarrow> Inl e
            | Inr (ws, hs) \<Rightarrow> Inr (ws, chain_new hs)))"

section \<open>CPU affinity\<close>

text \<open>\<^term>\<open>cores\<close> are the core ids of the machine. The thread started as number \<open>k\<close> (the counter before \<open>fetch_add\<close>) is pinned
  to the core this names.\<close>

definition configure_cpu_affinity :: "'c list \<Rightarrow> u64 list \<Rightarrow> (u64, nat \<Rightarrow> 'c option) result" where
  "configure_cpu_affinity cores affinity =
     (case filter (\<lambda>i. \<not> unat i < length cores) affinity of
        i # _ \<Rightarrow> Inl i
      | [] \<Rightarrow> Inr (\<lambda>k. let idx = k mod length affinity in
                 if idx < length affinity \<and> unat (affinity ! idx) < length cores
                 then Some (cores ! unat (affinity ! idx)) else None))"

section \<open>The fast path\<close>

datatype middleware_kind = Mw_logging | Mw_metrics | Mw_xdp_cache

datatype startup_log = Log_xdp_enabled string string | Warn_xdp_failed load_error | Warn_no_metrics | Warn_rotation_frozen

type_synonym xdp = "xdp_manager option"

definition xdp_enabled_flag :: "xdp \<Rightarrow> bool" where
  "xdp_enabled_flag x = (x \<noteq> None)"

text \<open>\<^term>\<open>None\<close> is the panic of a second \<open>take_cache\<close>.\<close>

definition xdp_init ::
  "xdp_host \<Rightarrow> xdp_config \<Rightarrow> u16 \<Rightarrow> middleware_kind list \<Rightarrow> (xdp \<times> middleware_kind list \<times> startup_log list) option" where
  "xdp_init h cfg port mws =
     (if \<not> xdp_enabled cfg then Some (None, mws, [])
      else (case snd (xdp_manager_new h cfg port) of
              Inl e \<Rightarrow> Some (None, mws, [Warn_xdp_failed e])
            | Inr mgr \<Rightarrow>
                (case take_cache mgr of
                   None \<Rightarrow> None
                 | Some (_, mgr1) \<Rightarrow>
                     let (_, mgr2) = take_log mgr1
                     in Some (Some mgr2, mws @ [Mw_xdp_cache], [Log_xdp_enabled (mgr_interface mgr2) (attach_mode cfg)]))))"

definition start_stats :: "xdp \<Rightarrow> bool \<Rightarrow> (xdp \<times> bool \<times> startup_log list) option" where
  "start_stats x metrics = (case x of
       None \<Rightarrow> Some (None, False, [])
     | Some mgr \<Rightarrow>
         (case take_stats mgr of
            None \<Rightarrow> None
          | Some mgr' \<Rightarrow> Some (Some mgr', metrics, if metrics then [] else [Warn_no_metrics])))"

definition build_middlewares :: "bool \<Rightarrow> bool \<Rightarrow> middleware_kind list" where
  "build_middlewares logging metrics = (if logging then [Mw_logging] else []) @ (if metrics then [Mw_metrics] else [])"

text \<open>The part of \<open>async_main\<close> up to the running server: the fast path, its poller, the chain, and what the live state
  reports about them.\<close>

record 'i started =
  su_xdp :: xdp
  su_middlewares :: "middleware_kind list"
  su_poller :: bool
  su_watchers :: "(string \<times> nat) list"
  su_chain :: "'i named_handler list"
  su_handler_xdp :: bool
  su_rotate :: bool
  su_live_attached :: bool
  su_logs :: "startup_log list"

definition async_start ::
  "xdp_host \<Rightarrow> libraries \<Rightarrow> 'i nacos_maker \<Rightarrow> bool \<Rightarrow> doggy_dns_config \<Rightarrow> (chain_error, 'i started) result option" where
  "async_start h lib mk_nacos metrics c =
     (case xdp_init h (cfg_xdp c) (server_port (cfg_server c)) (build_middlewares (mw_logging (cfg_middleware c)) metrics) of
        None \<Rightarrow> None
      | Some (x, mws, logs) \<Rightarrow>
          (case start_stats x metrics of
             None \<Rightarrow> None
           | Some (x', poller, logs') \<Rightarrow>
               Some (case build_authority_chain lib mk_nacos (cfg_plugins c) of
                       Inl e \<Rightarrow> Inl e
                     | Inr (ws, chain) \<Rightarrow> Inr \<lparr>su_xdp = x', su_middlewares = mws, su_poller = poller, su_watchers = ws,
                         su_chain = chain, su_handler_xdp = xdp_enabled_flag x', su_rotate = rotate_answers (cfg_server c),
                         su_live_attached = xdp_enabled_flag x',
                         su_logs = logs @ logs' @ (if xdp_enabled_flag x' \<and> rotate_answers (cfg_server c) then [Warn_rotation_frozen] else [])\<rparr>)))"

section \<open>Shutting down\<close>

datatype shutdown_log = Shut_clean string | Shut_failed string | Shut_timeout string

text \<open>\<^term>\<open>None\<close> is a task that did not end within two seconds.\<close>

definition await_shutdown :: "string \<Rightarrow> bool option \<Rightarrow> shutdown_log" where
  "await_shutdown label outcome = (case outcome of
       Some True \<Rightarrow> Shut_clean label | Some False \<Rightarrow> Shut_failed label | None \<Rightarrow> Shut_timeout label)"

text \<open>What ends the run: the server stopping by itself, with its result, or a signal. \<open>drain\<close> is the result of the server
  within the shutdown timeout, \<open>poller\<close> and \<open>control\<close> the outcomes of the two background tasks when they run.\<close>

datatype stop_cause = Server_stopped bool | Signal_received

datatype run_event = Cancelled_listeners | Drained | Drain_timed_out | Poller_stopped shutdown_log | Control_stopped shutdown_log

definition async_finish ::
  "stop_cause \<Rightarrow> bool option \<Rightarrow> bool option option \<Rightarrow> bool option option \<Rightarrow> run_event list \<times> bool" where
  "async_finish cause drain poller control = (case cause of
       Server_stopped ok \<Rightarrow> ([], ok)
     | Signal_received \<Rightarrow>
         if drain = Some False then ([Cancelled_listeners], False)
         else ([Cancelled_listeners, if drain = None then Drain_timed_out else Drained] @
               (case poller of Some r \<Rightarrow> [Poller_stopped (await_shutdown ''xdp stats poller'' r)] | None \<Rightarrow> []) @
               (case control of Some r \<Rightarrow> [Control_stopped (await_shutdown ''mcp server'' r)] | None \<Rightarrow> []), True))"

text \<open>\<open>start_control_plane\<close>: an unusable address is logged and the server goes on without a control plane.\<close>

definition start_control_plane ::
  "(ip_addr \<times> u16 \<Rightarrow> string) \<Rightarrow> process \<Rightarrow> string \<Rightarrow> string \<Rightarrow> doggy_dns_config \<Rightarrow> (bool \<times> bool) list \<Rightarrow>
     (mcp_state \<times> (ip_addr \<times> u16) \<times> bool option \<times> nat) option" where
  "start_control_plane show_addr ps version content c attempts =
     (if \<not> ctl_enabled (cfg_control c) then None
      else
        let s = cfg_server c;
            addr = (case socket_addr (listen_addr s) (server_port s) of
                      Some a \<Rightarrow> show_addr a
                    | None \<Rightarrow> listen_addr s @ '':'' @ show_nat (unat (server_port s)));
            state = build_state ps (ps_hostname ps) version addr (enabled_protocols c) (snapshots_from (cfg_plugins c)) content
        in (case start_retrying (cfg_control c) attempts of
              Inl _ \<Rightarrow> None
            | Inr r \<Rightarrow> Some (state, r)))"

section \<open>A validated configuration starts\<close>

lemma name_servers_ok:
  "list_all (\<lambda>a. parse_socket_addr a \<noteq> None \<or> parse_ip_addr a \<noteq> None) as \<Longrightarrow> \<exists>ns. name_servers as = Inr ns"
  by (induction as) (auto simp: parse_upstream_def split: option.splits)

lemma default_upstream_ok:
  "list_all (\<lambda>a. parse_socket_addr a \<noteq> None \<or> parse_ip_addr a \<noteq> None) default_upstream"
proof -
  have "list_all (\<lambda>a. \<not> Option.is_none (parse_socket_addr a)) default_upstream" by code_simp
  then show ?thesis by (auto simp: list_all_iff Option.is_none_def)
qed

text \<open>The errors that are not the libraries'.\<close>

definition own_error :: "chain_error \<Rightarrow> bool" where
  "own_error e = (case e of CE_no_upstream \<Rightarrow> True | CE_bad_upstream _ \<Rightarrow> True | _ \<Rightarrow> False)"

lemma forward_new_ok:
  "as \<noteq> [] \<Longrightarrow> list_all (\<lambda>a. parse_socket_addr a \<noteq> None \<or> parse_ip_addr a \<noteq> None) as \<Longrightarrow>
     forward_new lib as opts = Inl e \<Longrightarrow> \<not> own_error e"
  using name_servers_ok [of as] by (auto simp: forward_new_def own_error_def split: option.splits)

lemma load_plugin_ok:
  fixes mk :: "'i nacos_maker"
  assumes "plugin_ok p" and "load_plugin lib mk i p = Inl e"
  shows "\<not> own_error e"
proof (cases "pl_kind p")
  case Forward
  let ?us = "case pl_upstream p of Some u \<Rightarrow> u | None \<Rightarrow> default_upstream"
  have "?us \<noteq> []" "list_all (\<lambda>a. parse_socket_addr a \<noteq> None \<or> parse_ip_addr a \<noteq> None) ?us"
    using assms(1) Forward default_upstream_ok by (auto simp: plugin_ok_def default_upstream_def split: option.splits)
  moreover have "(forward_new lib ?us (plugin_opts p) :: (chain_error, 'i zone_handler) result) = Inl e"
    using assms(2) Forward by (auto simp: load_plugin_def Let_def split: sum.splits)
  ultimately show ?thesis by (rule forward_new_ok)
qed (use assms in \<open>auto simp: load_plugin_def own_error_def Let_def split: option.splits if_splits\<close>)

lemma load_plugins_ok:
  "list_all plugin_ok (filter pl_enabled ps) \<Longrightarrow> load_plugins lib mk i ps = Inl e \<Longrightarrow> \<not> own_error e"
proof (induction lib mk i ps rule: load_plugins.induct)
  case (2 lib mk i p ps)
  then show ?case
    by (auto split: if_splits sum.splits prod.splits dest: load_plugin_ok)
qed simp

definition zone_key :: "string \<Rightarrow> string" where
  "zone_key z = to_lower (case strip_suffix_char (CHR ''.'') z of Some z' \<Rightarrow> z' | None \<Rightarrow> z)"

lemma load_plugin_zone:
  assumes "plugin_ok p" and "load_plugin lib mk i p = Inr (h, ws)"
  shows "map (zone_key \<circ> fst) ws = (if pl_kind p = Nacos then [to_lower (configured_zone p)] else [])"
  using assms by (cases "pl_kind p")
    (auto simp: load_plugin_def plugin_ok_def given_def configured_zone_def zone_key_def or_else_def Let_def
      split: option.splits if_splits sum.splits)

lemma load_plugins_zones:
  "list_all plugin_ok (filter pl_enabled ps) \<Longrightarrow> load_plugins lib mk i ps = Inr (ws, hs) \<Longrightarrow>
     map (zone_key \<circ> fst) ws = nacos_zones ps \<and> length hs = length (filter pl_enabled ps)"
proof (induction lib mk i ps arbitrary: ws hs rule: load_plugins.induct)
  case (2 lib mk i p ps)
  show ?case
  proof (cases "pl_enabled p")
    case False
    with 2 show ?thesis by (simp add: nacos_zones_def)
  next
    case True
    with 2(4) obtain h w1 w2 hs2 where st: "load_plugin lib mk i p = Inr (h, w1)"
      "load_plugins lib mk (Suc i) ps = Inr (w2, hs2)" "ws = w1 @ w2" "hs = h # hs2"
      by (auto split: sum.splits)
    with 2(2) [OF _ st(1) refl, of w2 hs2] 2(3) True load_plugin_zone [OF _ st(1)] show ?thesis
      by (auto simp: nacos_zones_def)
  qed
qed (simp add: nacos_zones_def)

lemma plugins_pass:
  "passes (validate_plugins ps) \<Longrightarrow> list_all plugin_ok (filter pl_enabled ps) \<and> distinct (nacos_zones ps)"
  by (cases "ps = []") (auto simp: validate_plugins_def check_simps nacos_zones_def)

lemma chain_zones_distinct:
  assumes "passes (validate_plugins ps)" and "build_authority_chain lib mk ps = Inr (ws, chain)"
  shows "distinct (map (zone_key \<circ> fst) ws)"
  using assms plugins_pass [OF assms(1)] load_plugins_zones [of ps lib mk 0]
  by (auto simp: build_authority_chain_def split: if_splits sum.splits)

text \<open>C28. A plugin section that passed validation builds its chain unless a library refuses: the only failures left are
  a pattern that does not compile, a watcher that does not connect or a resolver that does not build. The chain
  then has one handler for each enabled plugin (the default forwarder when none is configured), and no two watchers
  share a zone, whatever its case and a trailing dot.\<close>

theorem validated_chain_builds:
  assumes "passes (validate_plugins ps)"
  shows "case build_authority_chain lib mk ps of
      Inl e \<Rightarrow> e = CE_resolver \<or> e = CE_watcher \<or> (\<exists>i. e = CE_pattern i)
    | Inr (ws, chain) \<Rightarrow> length chain = (if ps = [] then 1 else length (filter pl_enabled ps)) \<and>
        distinct (map (zone_key \<circ> fst) ws)"
proof -
  note v = plugins_pass [OF assms]
  have d: "default_upstream \<noteq> []" by (simp add: default_upstream_def)
  have "\<not> own_error e \<longleftrightarrow> e = CE_resolver \<or> e = CE_watcher \<or> (\<exists>i. e = CE_pattern i)" for e
    by (cases e) (auto simp: own_error_def)
  moreover have "\<not> own_error e" if "build_authority_chain lib mk ps = Inl e" for e
    using that v load_plugins_ok [of ps lib mk 0 e] forward_new_ok [OF d default_upstream_ok]
    by (auto simp: build_authority_chain_def split: if_splits sum.splits)
  moreover have "length chain = (if ps = [] then 1 else length (filter pl_enabled ps))"
    if "build_authority_chain lib mk ps = Inr (ws, chain)" for ws chain
    using that v load_plugins_zones [of ps lib mk 0]
    by (auto simp: build_authority_chain_def chain_new_def split: if_splits sum.splits)
  ultimately show ?thesis
    using chain_zones_distinct [OF assms, of lib mk] by (auto split: sum.splits)
qed

definition no_libraries :: libraries where
  "no_libraries = \<lparr>lib_forward = \<lambda>_ _. Some (\<lambda>_ _. Inr []), lib_native = \<lambda>_. None, lib_pattern_ok = \<lambda>_. True,
     lib_watcher = \<lambda>_ _ _ _. Some 0\<rparr>"

theorem validated_chain_builds_witness:
  "case build_authority_chain no_libraries (\<lambda>_ _ _ _ _. forward_authority (\<lambda>_ _. Inr []) :: unit zone_handler) [default_plugin Forward] of
     Inl e \<Rightarrow> e = CE_resolver \<or> e = CE_watcher \<or> (\<exists>i. e = CE_pattern i)
   | Inr (ws, chain) \<Rightarrow> length chain = 1 \<and> distinct (map (zone_key \<circ> fst) ws)"
proof -
  have "\<not> isl (first_error (validate_plugins [default_plugin Forward]))" by code_simp
  then have v: "passes (validate_plugins [default_plugin Forward])"
    by (cases "first_error (validate_plugins [default_plugin Forward])") auto
  have l: "(if [default_plugin Forward] = [] then 1 else length (filter pl_enabled [default_plugin Forward])) = 1"
    by (simp add: default_plugin_def)
  show ?thesis
    using validated_chain_builds [OF v, of no_libraries "\<lambda>_ _ _ _ _. forward_authority (\<lambda>_ _. Inr []) :: unit zone_handler"]
    unfolding l .
qed

text \<open>The readiness report of a validated configuration is complete: every watched zone has a signal of its own with
  the live number of its subscriptions, next to the fast path's flag; none hides another.\<close>

theorem live_report_complete:
  assumes "passes (validate_plugins ps)" and "build_authority_chain lib mk ps = Inr (ws, chain)"
  shows "\<exists>sig. live_snapshot s (build_live_state (map (\<lambda>(z, w). (z, subscribed w)) ws) a) = J_Object [(''signals'', J_Object sig)] \<and>
    map_of sig ''xdp'' = Some (J_Object [(''attached'', J_Bool a)]) \<and>
    (\<forall>(z, w) \<in> set ws. map_of sig (''nacos.'' @ z) =
       Some (J_Object [(''subscribedServices'', J_Number (uint (subscribed w s)))]))"
proof -
  have "distinct (map zone_key (map fst ws))" using chain_zones_distinct [OF assms] by simp
  then have "distinct (map fst ws)" by (rule distinct_map [THEN iffD1, THEN conjunct1])
  then have "distinct (map fst (map (\<lambda>(z, w). (z, subscribed w)) ws))" by (simp add: split_def comp_def)
  from live_snapshot_signals [OF this, of s a] show ?thesis by fastforce
qed

definition two_zones :: "plugin_config list" where
  "two_zones = map (\<lambda>z. (default_plugin Nacos)\<lparr>pl_server_addr := Some ''n:8848'', pl_namespace := Some ''public'',
     pl_group := Some ''g'', pl_dns_zone := Some z\<rparr>) [''a.local'', ''b.local'']"

theorem live_report_complete_witness:
  "\<exists>sig. live_snapshot () (build_live_state [(''a.local'', \<lambda>_. 5), (''b.local'', \<lambda>_. 5)] True) = J_Object [(''signals'', J_Object sig)] \<and>
    map_of sig (''nacos.'' @ ''b.local'') = Some (J_Object [(''subscribedServices'', J_Number 5)])"
proof -
  let ?mk = "\<lambda>_ _ _ _ _. forward_authority (\<lambda>_ _. Inr []) :: unit zone_handler"
  have "\<not> isl (first_error (validate_plugins two_zones))" by code_simp
  then have v: "passes (validate_plugins two_zones)" by (cases "first_error (validate_plugins two_zones)") auto
  have "map_sum (\<lambda>_. ()) fst (build_authority_chain no_libraries ?mk two_zones) = Inr [(''a.local'', 0), (''b.local'', 0)]"
    by code_simp
  then obtain chain where b: "build_authority_chain no_libraries ?mk two_zones = Inr ([(''a.local'', 0), (''b.local'', 0)], chain)"
    by (cases "build_authority_chain no_libraries ?mk two_zones") auto
  from live_report_complete [OF v b, of "()" "\<lambda>_ _. 5" True] show ?thesis by auto
qed

section \<open>Pinned workers\<close>

text \<open>The workers of a validated configuration get cores of their own: if the affinity list is accepted, each of the
  first \<open>worker_threads\<close> threads is pinned, and no two of them to the same core.\<close>

theorem workers_pinned_apart:
  assumes "passes (validate_server h s)" and "cpu_affinity s = Some affinity" and "distinct cores"
    and "configure_cpu_affinity cores affinity = Inr pin"
    and "i < unat (worker_threads s)" and "j < unat (worker_threads s)"
  shows "pin i \<noteq> None \<and> (pin i = pin j \<longleftrightarrow> i = j)"
proof -
  have l: "length affinity = unat (worker_threads s)" and d: "distinct affinity"
    using assms(1,2) by (auto simp: validate_server_def check_simps)
  have f: "filter (\<lambda>i. \<not> unat i < length cores) affinity = []"
    using assms(4) by (auto simp: configure_cpu_affinity_def split: list.splits)
  have b: "unat (affinity ! k) < length cores" if "k < unat (worker_threads s)" for k
    using f that l by (auto simp: filter_empty_conv)
  have p: "pin k = Some (cores ! unat (affinity ! k))" if "k < unat (worker_threads s)" for k
    using assms(4) f b [OF that] that l by (auto simp: configure_cpu_affinity_def Let_def)
  have "cores ! unat (affinity ! i) = cores ! unat (affinity ! j) \<longleftrightarrow> unat (affinity ! i) = unat (affinity ! j)"
    using assms(3) b [OF assms(5)] b [OF assms(6)] by (rule nth_eq_iff_index_eq)
  also have "\<dots> \<longleftrightarrow> affinity ! i = affinity ! j" by (simp add: word_unat_eq_iff)
  also have "\<dots> \<longleftrightarrow> i = j" using d l assms(5,6) by (simp add: nth_eq_iff_index_eq)
  finally show ?thesis using p [OF assms(5)] p [OF assms(6)] by simp
qed

theorem workers_pinned_apart_witness:
  "case configure_cpu_affinity [''c0'', ''c1'', ''c2''] [2, 0] of
     Inl _ \<Rightarrow> False | Inr pin \<Rightarrow> pin 0 \<noteq> None \<and> pin 0 \<noteq> pin 1"
proof -
  let ?s = "(default_server ''0.0.0.0'' 53)\<lparr>worker_threads := 2, cpu_affinity := Some [2, 0]\<rparr>"
  let ?h = "\<lparr>host_linux = True, host_macos = False, path_exists = \<lambda>_. True\<rparr>"
  have "\<not> isl (first_error (validate_server ?h ?s))" by code_simp
  then have v: "passes (validate_server ?h ?s)" by (cases "first_error (validate_server ?h ?s)") auto
  have "\<not> isl (configure_cpu_affinity [''c0'', ''c1'', ''c2''] [2, 0])" by code_simp
  then obtain pin where p: "configure_cpu_affinity [''c0'', ''c1'', ''c2''] [2, 0] = Inr pin"
    by (cases "configure_cpu_affinity [''c0'', ''c1'', ''c2''] [2, 0]") auto
  from workers_pinned_apart [OF v _ _ p, of 0 1] show ?thesis by (simp add: p)
qed

section \<open>The fast path never stops the server\<close>

lemma xdp_manager_fresh:
  "snd (xdp_manager_new h cfg port) = Inr mgr \<Longrightarrow> mgr_cache mgr \<noteq> None \<and> mgr_stats mgr \<noteq> None \<and>
     (attach_mode cfg \<noteq> ''auto'' \<longrightarrow> mgr_link mgr = None)"
  by (auto simp: xdp_manager_new_def attach_program_def lbind_def split: prod.splits sum.splits if_splits)

lemma xdp_init_cases:
  "(\<exists>logs. xdp_init h cfg port mws = Some (None, mws, logs)) \<or>
   (\<exists>m logs. xdp_init h cfg port mws = Some (Some m, mws @ [Mw_xdp_cache], logs) \<and> mgr_stats m \<noteq> None \<and>
      (attach_mode cfg \<noteq> ''auto'' \<longrightarrow> mgr_link m = None))"
proof (cases "snd (xdp_manager_new h cfg port)")
  case (Inr mgr)
  note f = xdp_manager_fresh [OF Inr]
  show ?thesis
  proof (cases "xdp_enabled cfg")
    case True
    with Inr f have "xdp_init h cfg port mws = Some (Some (mgr\<lparr>mgr_cache := None, mgr_logger := None\<rparr>),
        mws @ [Mw_xdp_cache], [Log_xdp_enabled (mgr_interface mgr) (attach_mode cfg)])"
      by (auto simp: xdp_init_def take_cache_def take_log_def)
    with f show ?thesis by simp
  qed (simp add: xdp_init_def)
qed (simp add: xdp_init_def)

lemma async_start_shape:
  "\<exists>x logs. (\<forall>m. x = Some m \<and> attach_mode (cfg_xdp c) \<noteq> ''auto'' \<longrightarrow> mgr_link m = None) \<and>
     async_start h lib mk metrics c = Some (case build_authority_chain lib mk (cfg_plugins c) of
       Inl e \<Rightarrow> Inl e
     | Inr (ws, chain) \<Rightarrow> Inr \<lparr>su_xdp = x,
         su_middlewares = build_middlewares (mw_logging (cfg_middleware c)) metrics @ (if x \<noteq> None then [Mw_xdp_cache] else []),
         su_poller = (metrics \<and> x \<noteq> None), su_watchers = ws, su_chain = chain, su_handler_xdp = (x \<noteq> None),
         su_rotate = rotate_answers (cfg_server c), su_live_attached = (x \<noteq> None), su_logs = logs\<rparr>)"
proof -
  let ?mws = "build_middlewares (mw_logging (cfg_middleware c)) metrics"
  show ?thesis
    using xdp_init_cases [of h "cfg_xdp c" "server_port (cfg_server c)" ?mws]
  proof (elim disjE exE conjE)
    fix logs assume "xdp_init h (cfg_xdp c) (server_port (cfg_server c)) ?mws = Some (None, ?mws, logs)"
    then show ?thesis
      by (intro exI [of _ None] exI [of _ logs])
        (simp add: async_start_def start_stats_def xdp_enabled_flag_def split: sum.splits prod.splits)
  next
    fix m logs assume "xdp_init h (cfg_xdp c) (server_port (cfg_server c)) ?mws = Some (Some m, ?mws @ [Mw_xdp_cache], logs)"
      and "mgr_stats m \<noteq> None" and "attach_mode (cfg_xdp c) \<noteq> ''auto'' \<longrightarrow> mgr_link m = None"
    then show ?thesis
      by (intro exI [of _ "Some (m\<lparr>mgr_stats := None\<rparr>)"] exI [of _ "logs @ (if metrics then [] else [Warn_no_metrics]) @
            (if rotate_answers (cfg_server c) then [Warn_rotation_frozen] else [])"])
        (simp add: async_start_def start_stats_def take_stats_def xdp_enabled_flag_def split: sum.splits prod.splits)
  qed
qed

text \<open>Starting up never panics on a map handle taken twice, and whatever goes wrong with the fast path, the server
  starts: start-up fails exactly when the authority chain cannot be built, and the cache middleware runs exactly when
  the fast path is there.\<close>

theorem fast_path_optional:
  "async_start h lib mk metrics c \<noteq> None \<and>
   (async_start h lib mk metrics c = Some (Inl e) \<longleftrightarrow> build_authority_chain lib mk (cfg_plugins c) = Inl e) \<and>
   (async_start h lib mk metrics c = Some (Inr st) \<longrightarrow>
      (Mw_xdp_cache \<in> set (su_middlewares st) \<longleftrightarrow> su_handler_xdp st) \<and> (su_poller st \<longleftrightarrow> metrics \<and> su_handler_xdp st))"
  using async_start_shape [of c h lib mk metrics]
  by (cases "build_authority_chain lib mk (cfg_plugins c)") (auto simp: build_middlewares_def)

text \<open>In manual attach mode the program is loaded but not attached to any interface, and the readiness report still
  says that the fast path is attached.\<close>

theorem manual_mode_reported_attached:
  assumes "async_start h lib mk metrics c = Some (Inr st)" and "su_xdp st = Some m"
    and "attach_mode (cfg_xdp c) = ''manual''"
  shows "mgr_link m = None \<and> su_live_attached st"
  using async_start_shape [of c h lib mk metrics] assms by (cases "build_authority_chain lib mk (cfg_plugins c)") auto

definition manual_config :: doggy_dns_config where
  "manual_config = (default_config ''0.0.0.0'' 53)\<lparr>cfg_xdp := sample_xdp_config\<lparr>attach_mode := ''manual''\<rparr>\<rparr>"

definition a_start :: "(chain_error, unit started) result option" where
  "a_start = async_start sample_host no_libraries (\<lambda>_ _ _ _ _. forward_authority (\<lambda>_ _. Inr [])) True manual_config"

lemma a_start_runs: "\<exists>st m. a_start = Some (Inr st) \<and> su_xdp st = Some m"
proof -
  have "case a_start of Some (Inr st) \<Rightarrow> \<not> Option.is_none (su_xdp st) | _ \<Rightarrow> False" by code_simp
  then show ?thesis by (auto simp: Option.is_none_def split: option.splits sum.splits)
qed

theorem manual_mode_reported_attached_witness:
  "\<exists>st m. a_start = Some (Inr st) \<and> su_xdp st = Some m \<and> mgr_link m = None \<and> su_live_attached st"
proof -
  obtain st m where st: "a_start = Some (Inr st)" "su_xdp st = Some m" using a_start_runs by blast
  have "attach_mode (cfg_xdp manual_config) = ''manual''" by (simp add: manual_config_def)
  from manual_mode_reported_attached [OF st(1) [unfolded a_start_def] st(2) this] st show ?thesis by blast
qed

theorem fast_path_optional_witness:
  "\<exists>st. a_start = Some (Inr st) \<and> (Mw_xdp_cache \<in> set (su_middlewares st) \<longleftrightarrow> su_handler_xdp st) \<and>
     (su_poller st \<longleftrightarrow> su_handler_xdp st)"
proof -
  obtain st where st: "a_start = Some (Inr st)" using a_start_runs by blast
  with fast_path_optional [of sample_host no_libraries "\<lambda>_ _ _ _ _. forward_authority (\<lambda>_ _. Inr [])" True manual_config undefined st]
  show ?thesis by (simp add: a_start_def)
qed

end
