(* ===== verification/Otlp_Endpoint.thy ===== *)
theory Otlp_Endpoint
  imports Basic_Validate
begin

text \<open>
  Where and with which headers telemetry is exported (\<open>crates/doggy-dns-observability/src/endpoint.rs\<close>,
  \<open>auth.rs\<close>). The URL parser, the header validators and the base64 encoder are library code and
  arguments here; \<open>env\<close> is the process environment. The header table is a \<open>HashMap\<close>: a list of entries with
  distinct keys whose order means nothing.
\<close>

section \<open>Signals and endpoints\<close>

datatype signal = Logs | Metrics | Traces | Profiles

definition path_segment :: "signal \<Rightarrow> string" where
  "path_segment s = (case s of Logs \<Rightarrow> ''logs'' | Metrics \<Rightarrow> ''metrics'' | Traces \<Rightarrow> ''traces'' | Profiles \<Rightarrow> ''profiles'')"

definition env_endpoint :: "signal \<Rightarrow> string" where
  "env_endpoint s = (case s of
       Logs \<Rightarrow> ''OTEL_EXPORTER_OTLP_LOGS_ENDPOINT''
     | Metrics \<Rightarrow> ''OTEL_EXPORTER_OTLP_METRICS_ENDPOINT''
     | Traces \<Rightarrow> ''OTEL_EXPORTER_OTLP_TRACES_ENDPOINT''
     | Profiles \<Rightarrow> ''OTEL_EXPORTER_OTLP_PROFILES_ENDPOINT'')"

definition config_endpoint :: "signal \<Rightarrow> observability_config \<Rightarrow> string option" where
  "config_endpoint s c = (case s of
       Logs \<Rightarrow> logs_endpoint (ob_logs c)
     | Metrics \<Rightarrow> metrics_endpoint (ob_metrics c)
     | Traces \<Rightarrow> traces_endpoint (ob_traces c)
     | Profiles \<Rightarrow> profiles_endpoint (ob_profiles c))"

definition join_signal_url :: "string \<Rightarrow> signal \<Rightarrow> string" where
  "join_signal_url base s = trim_end_slashes (trim base) @ ''/v1/'' @ path_segment s"

definition non_empty :: "string option \<Rightarrow> string option" where
  "non_empty v = (case v of None \<Rightarrow> None | Some s \<Rightarrow> if trim s = [] then None else Some (trim s))"

datatype endpoint_error =
    EP_base url_error
  | EP_invalid string
  | EP_scheme string
  | EP_userinfo string
  | EP_whitespace string
  | EP_unconfigured signal

record parsed_url =
  url_scheme :: string
  url_username :: string
  url_password :: "string option"

definition ensure_base_endpoint :: "string \<Rightarrow> (endpoint_error, unit) result" where
  "ensure_base_endpoint raw =
     (let base = trim_end_slashes (trim raw) in first_error
       ([ensure (\<not> contains_char (CHR ''?'') base \<and> \<not> contains_char (CHR ''#'') base) (EP_base U_query),
         ensure (\<not> ends_with ''/v1'' base) (EP_base U_v1)] @
        map (\<lambda>s. ensure (\<not> ends_with (''/v1/'' @ s) base) (EP_base (U_v1_signal s)))
          [''logs'', ''metrics'', ''traces'', ''profiles'']))"

definition validate_endpoint :: "(string \<Rightarrow> parsed_url option) \<Rightarrow> string \<Rightarrow> (endpoint_error, string) result" where
  "validate_endpoint url_parse raw =
     (let url = trim_end_slashes raw in
      case url_parse url of
        None \<Rightarrow> Inl (EP_invalid url)
      | Some p \<Rightarrow>
          if url_scheme p \<noteq> ''http'' \<and> url_scheme p \<noteq> ''https'' then Inl (EP_scheme url)
          else if url_username p \<noteq> [] \<or> url_password p \<noteq> None then Inl (EP_userinfo url)
          else if contains_whitespace url then Inl (EP_whitespace url)
          else Inr url)"

definition from_base ::
  "(string \<Rightarrow> parsed_url option) \<Rightarrow> string \<Rightarrow> signal \<Rightarrow> (endpoint_error, string) result" where
  "from_base url_parse base s = (case ensure_base_endpoint base of
       Inl e \<Rightarrow> Inl e | Inr _ \<Rightarrow> validate_endpoint url_parse (join_signal_url base s))"

definition resolve_signal_endpoint ::
  "(string \<Rightarrow> parsed_url option) \<Rightarrow> (string \<Rightarrow> string option) \<Rightarrow> observability_config \<Rightarrow> signal \<Rightarrow>
     (endpoint_error, string) result" where
  "resolve_signal_endpoint url_parse env c s =
     (case non_empty (config_endpoint s c) of
        Some endpoint \<Rightarrow> validate_endpoint url_parse endpoint
      | None \<Rightarrow>
     (case non_empty (Some (ob_endpoint c)) of
        Some base \<Rightarrow> from_base url_parse base s
      | None \<Rightarrow>
     (case non_empty (env (env_endpoint s)) of
        Some endpoint \<Rightarrow> validate_endpoint url_parse endpoint
      | None \<Rightarrow>
     (case env ''OTEL_EXPORTER_OTLP_ENDPOINT'' of
        Some base \<Rightarrow> if trim base \<noteq> [] then from_base url_parse base s
                     else (case default_endpoint (ob_backend c) of
                             Some d \<Rightarrow> validate_endpoint url_parse (join_signal_url d s)
                           | None \<Rightarrow> Inl (EP_unconfigured s))
      | None \<Rightarrow>
          (case default_endpoint (ob_backend c) of
             Some d \<Rightarrow> validate_endpoint url_parse (join_signal_url d s)
           | None \<Rightarrow> Inl (EP_unconfigured s))))))"

section \<open>Percent decoding\<close>

datatype percent_error = Truncated_escape | Bad_hex_digit | Not_utf8

definition hex_value :: "char \<Rightarrow> (percent_error, nat) result" where
  "hex_value c =
     (if 48 \<le> cc c \<and> cc c \<le> 57 then Inr (cc c - 48)
      else if 97 \<le> cc c \<and> cc c \<le> 102 then Inr (cc c - 97 + 10)
      else if 65 \<le> cc c \<and> cc c \<le> 70 then Inr (cc c - 65 + 10)
      else Inl Bad_hex_digit)"

fun decode_loop :: "string \<Rightarrow> (percent_error, string) result" where
  "decode_loop [] = Inr []"
| "decode_loop (c # s) =
     (if c = CHR ''%'' then
        (case s of
           h # l # r \<Rightarrow>
             (case hex_value h of Inl e \<Rightarrow> Inl e | Inr high \<Rightarrow>
              (case hex_value l of Inl e \<Rightarrow> Inl e | Inr low \<Rightarrow>
               (case decode_loop r of Inl e \<Rightarrow> Inl e | Inr d \<Rightarrow> Inr (char_of (high * 16 + low) # d))))
         | _ \<Rightarrow> Inl Truncated_escape)
      else (case decode_loop s of Inl e \<Rightarrow> Inl e | Inr d \<Rightarrow> Inr (c # d)))"

definition str_bytes :: "string \<Rightarrow> bytes" where
  "str_bytes s = map of_char s"

definition percent_decode :: "string \<Rightarrow> (percent_error, string) result" where
  "percent_decode value = (case decode_loop value of
       Inl e \<Rightarrow> Inl e
     | Inr decoded \<Rightarrow> if utf8_valid (str_bytes decoded) then Inr decoded else Inl Not_utf8)"

section \<open>Headers\<close>

type_synonym headers = "(string \<times> string) list"

definition header_insert :: "string \<Rightarrow> string \<Rightarrow> headers \<Rightarrow> headers" where
  "header_insert k v hs = (k, v) # filter (\<lambda>(k', _). k' \<noteq> k) hs"

definition insert_header :: "string \<Rightarrow> string \<Rightarrow> headers \<Rightarrow> headers" where
  "insert_header name value hs =
     (case find (\<lambda>(existing, _). to_lower existing = to_lower name) hs of
        Some (existing, _) \<Rightarrow> header_insert name value (filter (\<lambda>(k, _). k \<noteq> existing) hs)
      | None \<Rightarrow> header_insert name value hs)"

datatype header_error =
    HE_entry string
  | HE_env_name percent_error
  | HE_env_empty_name
  | HE_env_value percent_error
  | HE_empty_name
  | HE_expand string env_error
  | HE_username env_error
  | HE_password env_error
  | HE_basic_auth_empty
  | HE_invalid_name string
  | HE_invalid_value string

fun env_header_loop :: "string list \<Rightarrow> headers \<Rightarrow> (header_error, headers) result" where
  "env_header_loop [] hs = Inr hs"
| "env_header_loop (raw # pairs) hs =
     (let pair = trim raw in
      if pair = [] then env_header_loop pairs hs
      else case split_at_str ''='' pair of
        None \<Rightarrow> Inl (HE_entry pair)
      | Some (key, value) \<Rightarrow>
          (case percent_decode (trim key) of
             Inl e \<Rightarrow> Inl (HE_env_name e)
           | Inr key' \<Rightarrow>
               if key' = [] then Inl HE_env_empty_name
               else (case percent_decode (trim value) of
                       Inl e \<Rightarrow> Inl (HE_env_value e)
                     | Inr value' \<Rightarrow> env_header_loop pairs (insert_header key' value' hs))))"

fun config_header_loop ::
  "(string \<Rightarrow> string option) \<Rightarrow> (string \<times> string) list \<Rightarrow> headers \<Rightarrow> (header_error, headers) result" where
  "config_header_loop env [] hs = Inr hs"
| "config_header_loop env ((key, value) # kvs) hs =
     (if trim key = [] then Inl HE_empty_name
      else case expand_env env value of
        Inl e \<Rightarrow> Inl (HE_expand key e)
      | Inr expanded \<Rightarrow> config_header_loop env kvs (insert_header (trim key) expanded hs))"

definition add_basic_auth ::
  "(string \<Rightarrow> string) \<Rightarrow> (string \<Rightarrow> string option) \<Rightarrow> observability_config \<Rightarrow> headers \<Rightarrow> (header_error, headers) result" where
  "add_basic_auth base64 env c hs = (case ob_basic_auth c of
       None \<Rightarrow> Inr hs
     | Some auth \<Rightarrow>
         if list_ex (\<lambda>(k, _). to_lower k = ''authorization'') hs then Inr hs
         else (case expand_env env (ba_username auth) of
                 Inl e \<Rightarrow> Inl (HE_username e)
               | Inr username \<Rightarrow>
                   (case expand_env env (ba_password auth) of
                      Inl e \<Rightarrow> Inl (HE_password e)
                    | Inr password \<Rightarrow>
                        if username = [] \<or> password = [] then Inl HE_basic_auth_empty
                        else Inr (header_insert ''Authorization''
                               (''Basic '' @ base64 (username @ '':'' @ password)) hs))))"

fun check_headers ::
  "(string \<Rightarrow> bool) \<Rightarrow> (string \<Rightarrow> bool) \<Rightarrow> headers \<Rightarrow> (header_error, unit) result" where
  "check_headers name_ok value_ok [] = Inr ()"
| "check_headers name_ok value_ok ((name, value) # hs) =
     (if \<not> name_ok name then Inl (HE_invalid_name name)
      else if \<not> value_ok value then Inl (HE_invalid_value name)
      else check_headers name_ok value_ok hs)"

definition resolve_headers ::
  "(string \<Rightarrow> string) \<Rightarrow> (string \<Rightarrow> bool) \<Rightarrow> (string \<Rightarrow> bool) \<Rightarrow> (string \<Rightarrow> string option) \<Rightarrow> observability_config \<Rightarrow>
     (header_error, headers) result" where
  "resolve_headers base64 name_ok value_ok env c =
     (let env_pairs = (case env ''OTEL_EXPORTER_OTLP_HEADERS'' of
            Some raw \<Rightarrow> if trim raw = [] then [] else split_on (CHR '','') raw
          | None \<Rightarrow> []) in
      case env_header_loop env_pairs [] of Inl e \<Rightarrow> Inl e | Inr hs1 \<Rightarrow>
     (case config_header_loop env (ob_headers c) hs1 of Inl e \<Rightarrow> Inl e | Inr hs2 \<Rightarrow>
     (case add_basic_auth base64 env c hs2 of Inl e \<Rightarrow> Inl e | Inr hs3 \<Rightarrow>
     (case check_headers name_ok value_ok hs3 of Inl e \<Rightarrow> Inl e | Inr _ \<Rightarrow> Inr hs3))))"

section \<open>The header table is a map on lower-case names\<close>

text \<open>The interface of a table with one entry per name up to case.\<close>

locale ci_table =
  fixes lookup :: "'t \<Rightarrow> string \<Rightarrow> string option"
    and ins :: "string \<Rightarrow> string \<Rightarrow> 't \<Rightarrow> 't"
    and inv :: "'t \<Rightarrow> bool"
  assumes lookup_ins: "inv t \<Longrightarrow> lookup (ins k v t) = (lookup t)(to_lower k \<mapsto> v)"
    and inv_ins: "inv t \<Longrightarrow> inv (ins k v t)"
begin

text \<open>Inserting a sequence: the last entry under a name wins, other names keep what they had.\<close>

lemma inv_fold: "inv t \<Longrightarrow> inv (fold (\<lambda>(k, v). ins k v) kvs t)"
  by (induction kvs arbitrary: t) (auto simp: inv_ins)

lemma lookup_fold:
  "inv t \<Longrightarrow> lookup (fold (\<lambda>(k, v). ins k v) kvs t) n =
     (case map_of (rev (map (\<lambda>(k, v). (to_lower k, v)) kvs)) n of Some v \<Rightarrow> Some v | None \<Rightarrow> lookup t n)"
  by (induction kvs arbitrary: t) (auto simp: inv_ins lookup_ins map_add_def split: option.splits)

end

definition header_lookup :: "headers \<Rightarrow> string \<Rightarrow> string option" where
  "header_lookup hs = map_of (map (\<lambda>(k, v). (to_lower k, v)) hs)"

definition headers_inv :: "headers \<Rightarrow> bool" where
  "headers_inv hs = distinct (map (to_lower \<circ> fst) hs)"

text \<open>With at most one entry per name, the insertion replaces that entry.\<close>

lemma headers_inv_eq: "headers_inv hs \<Longrightarrow> (a, x) \<in> set hs \<Longrightarrow> (b, y) \<in> set hs \<Longrightarrow> to_lower a = to_lower b \<Longrightarrow> a = b"
  unfolding headers_inv_def by (metis comp_apply eq_key_imp_eq_value fst_conv inj_on_def distinct_map)

lemma insert_header_eq:
  assumes "headers_inv hs"
  shows "insert_header name value hs = (name, value) # filter (\<lambda>(k, _). to_lower k \<noteq> to_lower name) hs"
proof (cases "find (\<lambda>(existing, _). to_lower existing = to_lower name) hs")
  case None
  then have "to_lower k \<noteq> to_lower name" if "(k, v) \<in> set hs" for k v
    using that by (auto simp: find_None_iff)
  then have "filter (\<lambda>(k', _). k' \<noteq> name) hs = hs" "filter (\<lambda>(k, _). to_lower k \<noteq> to_lower name) hs = hs"
    by (force simp: filter_id_conv)+
  with None show ?thesis by (simp add: insert_header_def header_insert_def)
next
  case (Some e)
  obtain k0 v0 where e: "e = (k0, v0)" by (cases e)
  with Some have k0: "(k0, v0) \<in> set hs" "to_lower k0 = to_lower name"
    by (auto simp: find_Some_iff in_set_conv_nth)
  have "filter (\<lambda>(k', _). k' \<noteq> name) (filter (\<lambda>(k, _). k \<noteq> k0) hs) = filter (\<lambda>(k, _). to_lower k \<noteq> to_lower name) hs"
    unfolding filter_filter using k0 headers_inv_eq [OF assms k0(1)] by (intro filter_cong) fastforce+
  with Some e show ?thesis by (simp add: insert_header_def header_insert_def)
qed

lemma header_lookup_filter:
  "n \<noteq> m \<Longrightarrow> header_lookup (filter (\<lambda>(k, _). to_lower k \<noteq> m) hs) n = header_lookup hs n"
  by (induction hs) (auto simp: header_lookup_def)

lemma headers_inv_insert: "headers_inv hs \<Longrightarrow> headers_inv ((k, v) # filter (\<lambda>(k', _). to_lower k' \<noteq> to_lower k) hs)"
  by (induction hs) (auto simp: headers_inv_def)

lemma header_lookup_None: "header_lookup hs n = None \<longleftrightarrow> \<not> list_ex (\<lambda>(k, _). to_lower k = n) hs"
  by (induction hs) (auto simp: header_lookup_def)

interpretation headers: ci_table header_lookup insert_header headers_inv
proof
  fix t :: headers and k v
  assume t: "headers_inv t"
  show "headers_inv (insert_header k v t)" using t by (simp add: insert_header_eq headers_inv_insert)
  show "header_lookup (insert_header k v t) = (header_lookup t)(to_lower k \<mapsto> v)"
  proof
    fix n
    show "header_lookup (insert_header k v t) n = ((header_lookup t)(to_lower k \<mapsto> v)) n"
      using header_lookup_filter [of n "to_lower k" t]
      by (simp add: insert_header_eq [OF t] header_lookup_def [of "_ # _"] header_lookup_def [symmetric])
  qed
qed

section \<open>What the exporters send\<close>

text \<open>The loops insert, in order, the decoded and the expanded pairs.\<close>

lemma env_header_loop_fold:
  "env_header_loop pairs hs = Inr hs' \<Longrightarrow> \<exists>kvs. hs' = fold (\<lambda>(k, v). insert_header k v) kvs hs"
proof (induction pairs hs rule: env_header_loop.induct)
  case (2 raw pairs hs)
  show ?case
  proof (cases "trim raw = []")
    case False
    with 2(3) obtain key val k v where "split_at_str ''='' (trim raw) = Some (key, val)"
      "percent_decode (trim key) = Inr k" "k \<noteq> []" "percent_decode (trim val) = Inr v"
      "env_header_loop pairs (insert_header k v hs) = Inr hs'"
      by (auto simp: Let_def split: option.splits sum.splits if_splits)
    with 2(2) [OF refl False] obtain kvs where "hs' = fold (\<lambda>(k, v). insert_header k v) kvs (insert_header k v hs)"
      by blast
    then show ?thesis by (intro exI [of _ "(k, v) # kvs"]) simp
  qed (use 2 in simp)
qed (auto intro: exI [of _ "[]"])

lemma config_header_loop_fold:
  "config_header_loop env kvs hs = Inr hs' \<Longrightarrow>
     list_all (\<lambda>(k, v). expands env v) kvs \<and>
     hs' = fold (\<lambda>(k, v). insert_header k v) (map (\<lambda>(k, v). (trim k, projr (expand_env env v))) kvs) hs"
  by (induction env kvs hs rule: config_header_loop.induct)
    (auto simp: expands_def split: if_splits sum.splits)

lemma add_basic_auth_cases:
  assumes "add_basic_auth base64 env c hs = Inr hs'"
  obtains (kept) "hs' = hs" "ob_basic_auth c \<noteq> None \<longrightarrow> list_ex (\<lambda>(k, _). to_lower k = ''authorization'') hs"
    | (added) x where "\<not> list_ex (\<lambda>(k, _). to_lower k = ''authorization'') hs"
        "hs' = header_insert ''Authorization'' x hs"
proof (cases "ob_basic_auth c")
  case None
  with assms kept show thesis by (simp add: add_basic_auth_def)
next
  case (Some auth)
  show thesis
  proof (cases "list_ex (\<lambda>(k, _). to_lower k = ''authorization'') hs")
    case True
    with assms Some kept show thesis by (simp add: add_basic_auth_def)
  next
    case False
    with assms Some obtain x where "hs' = header_insert ''Authorization'' x hs"
      by (simp add: add_basic_auth_def split: sum.splits if_splits) metis
    with False added show thesis by blast
  qed
qed

lemma add_basic_auth_inv:
  "add_basic_auth base64 env c hs = Inr hs' \<Longrightarrow> headers_inv hs \<Longrightarrow>
     headers_inv hs' \<and> (\<forall>n v. header_lookup hs n = Some v \<longrightarrow> header_lookup hs' n = Some v) \<and>
     (ob_basic_auth c \<noteq> None \<longrightarrow> header_lookup hs' ''authorization'' \<noteq> None)"
proof -
  assume a: "add_basic_auth base64 env c hs = Inr hs'" and inv: "headers_inv hs"
  have low: "to_lower ''Authorization'' = ''authorization''" by code_simp
  from a show ?thesis
  proof (cases rule: add_basic_auth_cases)
    case kept
    with inv show ?thesis by (auto simp: header_lookup_None)
  next
    case (added x)
    note n = added(1) and hs' = added(2)
    have "filter (\<lambda>(k', _). k' \<noteq> ''Authorization'') hs = hs"
      using n low by (force simp: filter_id_conv list_ex_iff)
    then have hs': "hs' = (''Authorization'', x) # hs" using hs' by (simp add: header_insert_def)
    with n inv low have "headers_inv hs'" by (force simp: headers_inv_def list_ex_iff)
    moreover have "header_lookup hs ''authorization'' = None" using n by (simp add: header_lookup_None)
    ultimately show ?thesis using hs' low by (auto simp: header_lookup_def)
  qed
qed

text \<open>C35. The header table every exporter gets has one entry per name whatever its case; a configured
  header decides its name, over the environment's and over the basic authentication, with its
  references expanded; and configured basic authentication never leaves the table without an
  authorization header.\<close>

theorem resolve_headers_spec:
  assumes "resolve_headers base64 name_ok value_ok env c = Inr hs"
  shows "headers_inv hs \<and>
     (\<forall>n v. map_of (rev (map (\<lambda>(k, v). (to_lower (trim k), v)) (ob_headers c))) n = Some v \<longrightarrow>
        header_lookup hs n = Some (projr (expand_env env v))) \<and>
     (ob_basic_auth c \<noteq> None \<longrightarrow> header_lookup hs ''authorization'' \<noteq> None)"
proof -
  from assms obtain ps hs1 hs2 where l: "env_header_loop ps [] = Inr hs1" "config_header_loop env (ob_headers c) hs1 = Inr hs2"
    "add_basic_auth base64 env c hs2 = Inr hs"
    by (auto simp: resolve_headers_def Let_def split: sum.splits)
  have e: "headers_inv []" by (simp add: headers_inv_def)
  from env_header_loop_fold [OF l(1)] have i1: "headers_inv hs1" using headers.inv_fold [OF e] by auto
  note h2 = config_header_loop_fold [OF l(2)]
  have i2: "headers_inv hs2" using h2 headers.inv_fold [OF i1] by simp
  have look: "header_lookup hs2 n = Some (projr (expand_env env v))"
    if "map_of (rev (map (\<lambda>(k, v). (to_lower (trim k), v)) (ob_headers c))) n = Some v" for n v
  proof -
    have "rev (map (\<lambda>(k, v). (to_lower k, v)) (map (\<lambda>(k, v). (trim k, projr (expand_env env v))) (ob_headers c)))
        = map (\<lambda>(k, v). (k, projr (expand_env env v))) (rev (map (\<lambda>(k, v). (to_lower (trim k), v)) (ob_headers c)))"
      by (simp add: rev_map split_def comp_def)
    with that h2 show ?thesis
      by (simp add: headers.lookup_fold [OF i1] map_of_map)
  qed
  from add_basic_auth_inv [OF l(3) i2] look show ?thesis by blast
qed

section \<open>Percent encoding\<close>

definition hex_digit :: "nat \<Rightarrow> char" where
  "hex_digit d = (if d < 10 then char_of (48 + d) else char_of (55 + d))"

text \<open>An encoder that keeps the characters \<open>P\<close> and escapes the others.\<close>

fun percent_encode :: "(char \<Rightarrow> bool) \<Rightarrow> string \<Rightarrow> string" where
  "percent_encode P [] = []"
| "percent_encode P (c # s) =
     (if P c then [c] else [CHR ''%'', hex_digit (cc c div 16), hex_digit (cc c mod 16)]) @ percent_encode P s"

lemma hex_value_digit: "d < 16 \<Longrightarrow> hex_value (hex_digit d) = Inr d"
  by (auto simp: hex_value_def hex_digit_def)

lemma decode_encode: "\<not> P (CHR ''%'') \<Longrightarrow> decode_loop (percent_encode P s) = Inr s"
proof (induction s)
  case (Cons c s)
  have "cc c < 256" using of_char_of [of "cc c"] by (metis mod_less_divisor of_char_mod_256 zero_less_numeral)
  then have "hex_value (hex_digit (cc c div 16)) = Inr (cc c div 16)" by (intro hex_value_digit) (simp add: less_mult_imp_div_less)
  moreover have "hex_value (hex_digit (cc c mod 16)) = Inr (cc c mod 16)" by (intro hex_value_digit) auto
  ultimately show ?case using Cons by (auto simp: div_mult_mod_eq)
qed simp

text \<open>Percent decoding inverts every percent encoder: whatever set of characters an encoder leaves
  as they are, as long as it escapes the percent sign, decoding what it made of a text gives the text.\<close>

theorem percent_decode_encode:
  assumes "\<not> P (CHR ''%'')" and "utf8_valid (str_bytes s)"
  shows "percent_decode (percent_encode P s) = Inr s"
  using assms by (simp add: percent_decode_def decode_encode)

theorem percent_decode_encode_witness:
  "percent_encode (\<lambda>c. c = CHR ''a'') ''a,%'' = ''a%2C%25'' \<and> percent_decode ''a%2C%25'' = Inr ''a,%''"
proof -
  have e: "percent_encode (\<lambda>c. c = CHR ''a'') ''a,%'' = ''a%2C%25''" by code_simp
  have "utf8_valid (str_bytes ''a,%'')" by code_simp
  from percent_decode_encode [of "\<lambda>c. c = CHR ''a''", OF _ this] e show ?thesis by simp
qed

section \<open>Two gaps\<close>

text \<open>A value that came from the environment is expanded a second time: the loader has already replaced
  the references of every string, and the header code expands the result again. A secret that contains
  a dollar sign and a brace is accepted by the loader and then refused, or replaced by another variable's value.\<close>

theorem header_expanded_twice:
  "let env = (\<lambda>n. if n = ''TOKEN'' then Some ''a${b'' else if n = ''OTHER'' then Some ''${TOKEN}'' else None);
       cfg = (\<lambda>v. default_observability\<lparr>ob_headers := [(''authorization'', v)]\<rparr>) in
     expand_env_in_value env (T_String ''${TOKEN}'') = Inr (T_String ''a${b'') \<and>
     resolve_headers (\<lambda>s. s) (\<lambda>_. True) (\<lambda>_. True) env (cfg ''a${b'') = Inl (HE_expand ''authorization'' Unterminated) \<and>
     expand_env_in_value env (T_String ''${OTHER}'') = Inr (T_String ''${TOKEN}'') \<and>
     resolve_headers (\<lambda>s. s) (\<lambda>_. True) (\<lambda>_. True) env (cfg ''${TOKEN}'') = Inr [(''authorization'', ''a${b'')]"
  by code_simp

text \<open>A base URL with a signal path and a trailing slash passes the validation of the configuration and is
  refused when the exporters are built, which trim the slash before they look.\<close>

lemma validated_endpoint_refused:
  "passes (validate_observability_url ''http://h/v1/logs/'' False) \<and>
   resolve_signal_endpoint url_parse env (default_observability\<lparr>ob_endpoint := ''http://h/v1/logs/''\<rparr>) Traces =
     Inl (EP_base (U_v1_signal ''logs''))"
proof -
  have t: "trim ''http://h/v1/logs/'' = ''http://h/v1/logs/''" by code_simp
  have b: "ensure_base_endpoint ''http://h/v1/logs/'' = Inl (EP_base (U_v1_signal ''logs''))" by code_simp
  have "passes (validate_observability_url ''http://h/v1/logs/'' False)" by code_simp
  with t b show ?thesis
    by (simp add: resolve_signal_endpoint_def config_endpoint_def default_observability_def default_traces_def non_empty_def
        from_base_def)
qed

theorem resolve_headers_spec_witness:
  "\<exists>hs. resolve_headers (\<lambda>s. s) (\<lambda>_. True) (\<lambda>_. True)
       (\<lambda>n. if n = ''OTEL_EXPORTER_OTLP_HEADERS'' then Some ''X-Tenant=env'' else None)
       (default_observability\<lparr>ob_headers := [(''x-tenant'', ''config'')]\<rparr>) = Inr hs \<and>
     header_lookup hs ''x-tenant'' = Some ''config''"
proof -
  let ?e = "\<lambda>n. if n = ''OTEL_EXPORTER_OTLP_HEADERS'' then Some ''X-Tenant=env'' else None"
  let ?c = "default_observability\<lparr>ob_headers := [(''x-tenant'', ''config'')]\<rparr>"
  have r: "resolve_headers (\<lambda>s. s) (\<lambda>_. True) (\<lambda>_. True) ?e ?c = Inr [(''x-tenant'', ''config'')]" by code_simp
  have m: "map_of (rev (map (\<lambda>(k, v). (to_lower (trim k), v)) (ob_headers ?c))) ''x-tenant'' = Some ''config''" by code_simp
  have x: "projr (expand_env ?e ''config'') = ''config''" by code_simp
  from resolve_headers_spec [OF r] m x r show ?thesis by auto
qed

end
