(* ===== verification/Otlp_Resource.thy ===== *)
theory Otlp_Resource
  imports Otlp_Endpoint
begin

text \<open>
  The identity a node publishes on every signal: \<open>doggy-dns-observability/src/exposure.rs\<close> (host name,
  advertised address, listener ports) and \<open>resource.rs\<close> (the attribute table and its precedence rules).
  A \<open>BTreeMap\<close> is a map; the environment is a function, and the process id, the crate version, what
  \<open>gethostname\<close> wrote and the outcome of the route probe are arguments.
\<close>

type_synonym attributes = "string \<rightharpoonup> string"

definition APP_NAME :: string where
  "APP_NAME = ''doggy-dns''"

section \<open>Host name and address\<close>

text \<open>The return code of \<open>gethostname\<close> and the 256-byte buffer after the call.\<close>

definition os_hostname :: "int \<Rightarrow> bytes \<Rightarrow> string option" where
  "os_hostname rc buf =
     (if rc \<noteq> 0 then None
      else let name = takeWhile (\<lambda>b. b \<noteq> 0) buf in
        if utf8_valid name then non_empty (Some (map (\<lambda>b. char_of (unat b)) name)) else None)"

definition detect_hostname_with :: "string option \<Rightarrow> (string \<Rightarrow> string option) \<Rightarrow> string" where
  "detect_hostname_with os env = (case non_empty (env ''HOSTNAME'') of
       Some h \<Rightarrow> h
     | None \<Rightarrow> (case non_empty (env ''COMPUTERNAME'') of
           Some h \<Rightarrow> h
         | None \<Rightarrow> (case os of Some h \<Rightarrow> h | None \<Rightarrow> ''unknown'')))"

text \<open>What the operating system says of the node: its name, the process, its own address towards the outside, and how an
  address is printed.\<close>

record node =
  nd_gethostname :: "int \<times> bytes"
  nd_pid :: u32
  nd_local :: "ip_addr option"
  nd_show_ip :: "ip_addr \<Rightarrow> string"

definition detect_hostname :: "node \<Rightarrow> (string \<Rightarrow> string option) \<Rightarrow> string" where
  "detect_hostname nd env = detect_hostname_with (case_prod os_hostname (nd_gethostname nd)) env"

definition ip_is_loopback :: "ip_addr \<Rightarrow> bool" where
  "ip_is_loopback ip = (case ip of
       IpV4 bs \<Rightarrow> hd bs = 127
     | IpV6 bs \<Rightarrow> bs = replicate 15 0 @ [1])"

definition ip_is_unspecified :: "ip_addr \<Rightarrow> bool" where
  "ip_is_unspecified ip = (case ip of IpV4 bs \<Rightarrow> bs = replicate 4 0 | IpV6 bs \<Rightarrow> bs = replicate 16 0)"

text \<open>The local address the kernel chose, when binding, connecting and reading it back all worked.\<close>

definition detect_ip_addr :: "(ip_addr \<Rightarrow> string) \<Rightarrow> ip_addr option \<Rightarrow> string option" where
  "detect_ip_addr show_ip local = (case local of
       None \<Rightarrow> None
     | Some ip \<Rightarrow> if \<not> ip_is_loopback ip \<and> \<not> ip_is_unspecified ip then Some (show_ip ip) else None)"

definition trim_matches :: "(char \<Rightarrow> bool) \<Rightarrow> string \<Rightarrow> string" where
  "trim_matches P s = rev (dropWhile P (rev (dropWhile P s)))"

definition advertised_ip_addr_with :: "string \<Rightarrow> string option \<Rightarrow> string" where
  "advertised_ip_addr_with addr detected = (
     let a = trim addr in
     if a \<in> {''127.0.0.1'', ''::1'', ''[::1]'', ''localhost''} then ''127.0.0.1''
     else if a \<in> {''0.0.0.0'', ''::'', ''[::]''} then (case detected of Some ip \<Rightarrow> ip | None \<Rightarrow> ''127.0.0.1'')
     else trim_matches (\<lambda>c. c = CHR ''['' \<or> c = CHR '']'') a)"

definition show_port :: "u16 \<Rightarrow> string" where
  "show_port p = show_nat (unat p)"

definition node_attributes :: "string option \<Rightarrow> server_config \<Rightarrow> control_config \<Rightarrow> attributes" where
  "node_attributes detected server control = (
     let addr = (if ctl_enabled control then ctl_listen_addr control else listen_addr server);
         m0 = [''doggy_dns.ip_addr'' \<mapsto> advertised_ip_addr_with addr detected,
               ''doggy_dns.dns.port'' \<mapsto> show_port (server_port server)];
         m1 = (case server_tls server of
                 Some t \<Rightarrow> if tls_enabled t then m0(''doggy_dns.tls.port'' \<mapsto> show_port (tls_port t)) else m0
               | None \<Rightarrow> m0);
         m2 = (case server_https server of
                 Some h \<Rightarrow> if https_enabled h then m1(''doggy_dns.https.port'' \<mapsto> show_port (https_port h)) else m1
               | None \<Rightarrow> m1)
     in if ctl_enabled control then m2(''doggy_dns.control.port'' \<mapsto> show_port (ctl_port control)) else m2)"

section \<open>The attribute table\<close>

definition decode_or_trim :: "string \<Rightarrow> string" where
  "decode_or_trim s = (case percent_decode (trim s) of Inl _ \<Rightarrow> trim s | Inr v \<Rightarrow> v)"

text \<open>One pair of \<open>OTEL_RESOURCE_ATTRIBUTES\<close> and one configured entry; \<^term>\<open>None\<close> when it is skipped.\<close>

definition env_attribute :: "string \<Rightarrow> (string \<times> string) option" where
  "env_attribute pair = (case split_at_str ''='' pair of
       None \<Rightarrow> None
     | Some (k, v) \<Rightarrow> if decode_or_trim k = [] then None else Some (decode_or_trim k, decode_or_trim v))"

definition config_attribute :: "string \<times> string \<Rightarrow> (string \<times> string) option" where
  "config_attribute = (\<lambda>(k, v). if trim k = [] then None else Some (trim k, trim v))"

fun insert_attributes :: "('a \<Rightarrow> (string \<times> string) option) \<Rightarrow> 'a list \<Rightarrow> attributes \<Rightarrow> attributes" where
  "insert_attributes f [] m = m"
| "insert_attributes f (x # xs) m =
     insert_attributes f xs (case f x of None \<Rightarrow> m | Some (k, v) \<Rightarrow> m(k \<mapsto> v))"

definition or_insert :: "string \<Rightarrow> string \<Rightarrow> attributes \<Rightarrow> attributes" where
  "or_insert k v m = (case m k of None \<Rightarrow> m(k \<mapsto> v) | Some _ \<Rightarrow> m)"

definition env_pairs :: "(string \<Rightarrow> string option) \<Rightarrow> string list" where
  "env_pairs env = (case env ''OTEL_RESOURCE_ATTRIBUTES'' of
       None \<Rightarrow> []
     | Some raw \<Rightarrow> if trim raw = [] then [] else split_on (CHR '','') raw)"

definition first_some :: "'a option list \<Rightarrow> 'a \<Rightarrow> 'a" where
  "first_some os d = (case filter (\<lambda>x. x \<noteq> None) os of Some v # _ \<Rightarrow> v | _ \<Rightarrow> d)"

definition build_with_env ::
  "string option \<Rightarrow> nat \<Rightarrow> string \<Rightarrow> observability_config \<Rightarrow> attributes \<Rightarrow> (string \<Rightarrow> string option) \<Rightarrow> attributes" where
  "build_with_env os pid version c exposure env = (
     let m1 = insert_attributes env_attribute (env_pairs env) exposure;
         m2 = insert_attributes config_attribute (ob_resource_attributes c) m1;
         service_name = first_some [non_empty (ob_service_name c), non_empty (env ''OTEL_SERVICE_NAME''),
                                    non_empty (m2 ''service.name'')] APP_NAME;
         hostname = (case non_empty (m2 ''host.name'') of Some h \<Rightarrow> h | None \<Rightarrow> detect_hostname_with os env);
         m3 = m2(''service.name'' \<mapsto> service_name);
         m4 = or_insert ''service.version'' version m3;
         m5 = or_insert ''service.instance.id'' (hostname @ ''-'' @ show_nat pid) m4;
         m6 = or_insert ''host.name'' hostname m5;
         m7 = or_insert ''process.pid'' (show_nat pid) m6
     in (case non_empty (ob_environment c) of
           Some e \<Rightarrow> m7(''deployment.environment.name'' \<mapsto> e)
         | None \<Rightarrow> m7))"

definition CARGO_PKG_VERSION :: string where
  "CARGO_PKG_VERSION = ''0.1.0''"

definition build_resource :: "node \<Rightarrow> (string \<Rightarrow> string option) \<Rightarrow> observability_config \<Rightarrow> attributes \<Rightarrow> attributes" where
  "build_resource nd env c exposure =
     build_with_env (case_prod os_hostname (nd_gethostname nd)) (unat (nd_pid nd)) CARGO_PKG_VERSION c exposure env"

section \<open>Precedence\<close>

lemma insert_attributes_layer:
  "insert_attributes f xs m = m ++ map_of (rev (List.map_filter f xs))"
proof (induction f xs m rule: insert_attributes.induct)
  case (2 f x xs m)
  then show ?case
    by (cases "f x") (auto simp: List.map_filter_simps map_add_assoc [symmetric])
qed (simp add: List.map_filter_simps)

lemma or_insert_layer: "or_insert k v m = [k \<mapsto> v] ++ m"
  by (auto simp: or_insert_def map_add_def split: option.splits)

text \<open>The three sources of attributes, later ones over earlier ones.\<close>

definition layers :: "observability_config \<Rightarrow> attributes \<Rightarrow> (string \<Rightarrow> string option) \<Rightarrow> attributes" where
  "layers c exposure env = exposure
     ++ map_of (rev (List.map_filter env_attribute (env_pairs env)))
     ++ map_of (rev (List.map_filter config_attribute (ob_resource_attributes c)))"

definition host_of :: "string option \<Rightarrow> observability_config \<Rightarrow> attributes \<Rightarrow> (string \<Rightarrow> string option) \<Rightarrow> string" where
  "host_of os c exposure env =
     (case non_empty (layers c exposure env ''host.name'') of Some h \<Rightarrow> h | None \<Rightarrow> detect_hostname_with os env)"

text \<open>The attribute table is what the precedence rules say: the configured service name, then
  \<open>OTEL_SERVICE_NAME\<close>, then an injected \<open>service.name\<close>, then the program's; the configured environment decides its
  own key; every other key takes the configured attribute, then the environment's, then the node's own,
  and the four derived values only where nothing was injected.\<close>

theorem resource_precedence:
  "build_with_env os pid version c exposure env k =
     (if k = ''deployment.environment.name'' \<and> non_empty (ob_environment c) \<noteq> None
      then non_empty (ob_environment c)
      else if k = ''service.name''
      then Some (first_some [non_empty (ob_service_name c), non_empty (env ''OTEL_SERVICE_NAME''),
             non_empty (layers c exposure env ''service.name'')] APP_NAME)
      else case layers c exposure env k of
        Some v \<Rightarrow> Some v
      | None \<Rightarrow> [''service.version'' \<mapsto> version,
           ''service.instance.id'' \<mapsto> host_of os c exposure env @ ''-'' @ show_nat pid,
           ''host.name'' \<mapsto> host_of os c exposure env, ''process.pid'' \<mapsto> show_nat pid] k)"
proof -
  have m: "insert_attributes config_attribute (ob_resource_attributes c)
      (insert_attributes env_attribute (env_pairs env) exposure) = layers c exposure env"
    by (simp add: insert_attributes_layer layers_def)
  show ?thesis
    unfolding build_with_env_def Let_def m host_of_def [symmetric] or_insert_layer
    by (simp add: map_add_def split: option.splits)
qed

lemma non_empty_Some: "non_empty v = Some s \<Longrightarrow> s \<noteq> [] \<and> trim s = s"
  by (auto simp: non_empty_def split: option.splits if_splits)

lemma os_hostname_Some: "os_hostname rc buf = Some h \<Longrightarrow> h \<noteq> [] \<and> trim h = h"
  by (auto simp: os_hostname_def Let_def dest: non_empty_Some split: if_splits)

lemma detect_hostname_named: "detect_hostname_with (os_hostname rc buf) env \<noteq> []"
  by (auto simp: detect_hostname_with_def split: option.splits dest: non_empty_Some os_hostname_Some)

lemma service_name_layer:
  "build_with_env os pid version c exposure env ''service.name'' =
     Some (first_some [non_empty (ob_service_name c), non_empty (env ''OTEL_SERVICE_NAME''),
             non_empty (layers c exposure env ''service.name'')] APP_NAME)"
  by (simp add: build_with_env_def Let_def insert_attributes_layer layers_def or_insert_layer map_add_def split: option.splits)

lemma service_name_named:
  "\<exists>n. build_with_env os pid version c exposure env ''service.name'' = Some n \<and> n \<noteq> []"
proof -
  have "first_some [a, b, d] APP_NAME \<noteq> []"
    if "\<And>v. a = Some v \<or> b = Some v \<or> d = Some v \<Longrightarrow> v \<noteq> []" for a b d :: "string option"
    using that by (auto simp: first_some_def APP_NAME_def)
  moreover have "v \<noteq> []" if "non_empty (ob_service_name c) = Some v \<or> non_empty (env ''OTEL_SERVICE_NAME'') = Some v \<or>
      non_empty (layers c exposure env ''service.name'') = Some v" for v
    using that non_empty_Some by blast
  ultimately show ?thesis by (simp add: service_name_layer)
qed

text \<open>A blank injected \<open>host.name\<close> stays in the table, while \<open>service.instance.id\<close> is made from the
  detected host name: the two attributes no longer agree.\<close>

theorem blank_host_name:
  "let m = build_with_env None 7 ''1'' (default_observability\<lparr>ob_resource_attributes := [(''host.name'', '' '')]\<rparr>)
       Map.empty (\<lambda>_. None) in
     m ''host.name'' = Some [] \<and> m ''service.instance.id'' = Some ''unknown-7''"
  by code_simp

lemma node_attributes_ports:
  "node_attributes det s c ''doggy_dns.dns.port'' = Some (show_port (server_port s)) \<and>
   (node_attributes det s c ''doggy_dns.tls.port'' \<noteq> None \<longleftrightarrow> (\<exists>t. server_tls s = Some t \<and> tls_enabled t)) \<and>
   (node_attributes det s c ''doggy_dns.https.port'' \<noteq> None \<longleftrightarrow> (\<exists>h. server_https s = Some h \<and> https_enabled h)) \<and>
   (node_attributes det s c ''doggy_dns.control.port'' \<noteq> None \<longleftrightarrow> ctl_enabled c)"
  by (simp add: node_attributes_def Let_def split: option.splits)

end
