(* ===== verification/Otlp_Profiles.thy ===== *)
theory Otlp_Profiles
  imports Otlp_Resource
begin

text \<open>
  The CPU profile converter of \<open>doggy-dns-observability/src/profiles/convert.rs\<close>: the dictionary
  builder that interns strings, functions, locations, stacks and attributes behind \<open>i32\<close> indices, and
  the export request made from a collected profile. The locale \<open>interning\<close> states what one of the five
  tables promises; it is interpreted on each of them. An \<open>i32\<close> is a 32-bit word, so the cast of a
  table length wraps as the code's does; an \<open>i64\<close> is an \<^typ>\<open>int\<close> with the saturation written out. The
  resource, the crate version, the clock and the process-wide sequence number are arguments.
\<close>

section \<open>The collected profile\<close>

record profile_symbol =
  sym_name :: string
  sym_system_name :: string
  sym_filename :: string
  sym_line :: int
  sym_address :: u64

record profile_frame =
  fr_symbols :: "profile_symbol list"

record profile_sample =
  smp_frames :: "profile_frame list"
  smp_count :: int
  smp_thread_name :: "string option"

record collected_profile =
  cp_samples :: "profile_sample list"
  cp_time_unix_nano :: u64
  cp_duration_nano :: u64
  cp_frequency :: int

section \<open>The export messages\<close>

record pfunction =
  fn_name_strindex :: i32
  fn_system_name_strindex :: i32
  fn_filename_strindex :: i32
  fn_start_line :: int

record pline =
  ln_function_index :: i32
  ln_line :: int
  ln_column :: int

record plocation =
  lo_mapping_index :: i32
  lo_address :: u64
  lo_lines :: "pline list"
  lo_attribute_indices :: "i32 list"

record pstack =
  st_location_indices :: "i32 list"

datatype any_value = StringValue string

record key_value_and_unit =
  kv_key_strindex :: i32
  kv_value :: "any_value option"
  kv_unit_strindex :: i32

record psample =
  sa_stack_index :: i32
  sa_attribute_indices :: "i32 list"
  sa_link_index :: i32
  sa_values :: "int list"
  sa_timestamps_unix_nano :: "u64 list"

record value_type =
  vt_type_strindex :: i32
  vt_unit_strindex :: i32

record profile =
  pr_sample_type :: "value_type option"
  pr_samples :: "psample list"
  pr_time_unix_nano :: u64
  pr_duration_nano :: u64
  pr_period_type :: "value_type option"
  pr_period :: int
  pr_profile_id :: bytes
  pr_dropped_attributes_count :: nat
  pr_original_payload_format :: string
  pr_original_payload :: bytes
  pr_attribute_indices :: "i32 list"

text \<open>The code makes one mapping and one link only, each the message type's default.\<close>

datatype pmapping = Default_mapping

datatype plink = Default_link

record profiles_dictionary =
  mapping_table :: "pmapping list"
  location_table :: "plocation list"
  function_table :: "pfunction list"
  link_table :: "plink list"
  string_table :: "string list"
  attribute_table :: "key_value_and_unit list"
  stack_table :: "pstack list"

record 'r export_request =
  rq_resource :: 'r
  rq_scope_name :: string
  rq_scope_version :: string
  rq_profiles :: "profile list"
  rq_dictionary :: profiles_dictionary

definition default_function :: pfunction where
  "default_function = \<lparr>fn_name_strindex = 0, fn_system_name_strindex = 0, fn_filename_strindex = 0, fn_start_line = 0\<rparr>"

definition default_location :: plocation where
  "default_location = \<lparr>lo_mapping_index = 0, lo_address = 0, lo_lines = [], lo_attribute_indices = []\<rparr>"

definition default_stack :: pstack where
  "default_stack = \<lparr>st_location_indices = []\<rparr>"

definition default_attribute :: key_value_and_unit where
  "default_attribute = \<lparr>kv_key_strindex = 0, kv_value = None, kv_unit_strindex = 0\<rparr>"

section \<open>The dictionary builder\<close>

record dictionary_builder =
  db_strings :: "string list"
  db_string_lookup :: "string \<rightharpoonup> i32"
  db_functions :: "pfunction list"
  db_function_lookup :: "i32 \<times> i32 \<times> i32 \<rightharpoonup> i32"
  db_locations :: "plocation list"
  db_location_lookup :: "u64 \<times> (i32 \<times> int) list \<rightharpoonup> i32"
  db_stacks :: "pstack list"
  db_stack_lookup :: "i32 list \<rightharpoonup> i32"
  db_attributes :: "key_value_and_unit list"
  db_attribute_lookup :: "i32 \<times> string \<rightharpoonup> i32"

definition dictionary_new :: dictionary_builder where
  "dictionary_new = \<lparr>
     db_strings = [[]], db_string_lookup = [[] \<mapsto> 0],
     db_functions = [default_function], db_function_lookup = Map.empty,
     db_locations = [default_location], db_location_lookup = Map.empty,
     db_stacks = [default_stack], db_stack_lookup = Map.empty,
     db_attributes = [default_attribute], db_attribute_lookup = Map.empty\<rparr>"

definition intern :: "string \<Rightarrow> dictionary_builder \<Rightarrow> i32 \<times> dictionary_builder" where
  "intern v d = (case db_string_lookup d v of
       Some i \<Rightarrow> (i, d)
     | None \<Rightarrow> let i = of_nat (length (db_strings d)) in
         (i, d\<lparr>db_strings := db_strings d @ [v], db_string_lookup := (db_string_lookup d)(v \<mapsto> i)\<rparr>))"

definition mk_function :: "i32 \<times> i32 \<times> i32 \<Rightarrow> pfunction" where
  "mk_function = (\<lambda>(n, s, f). \<lparr>fn_name_strindex = n, fn_system_name_strindex = s,
     fn_filename_strindex = f, fn_start_line = 0\<rparr>)"

text \<open>The lookup-or-push tail of \<open>DictionaryBuilder::function\<close>, and the whole operation.\<close>

definition function_entry :: "i32 \<times> i32 \<times> i32 \<Rightarrow> dictionary_builder \<Rightarrow> i32 \<times> dictionary_builder" where
  "function_entry key d = (case db_function_lookup d key of
       Some i \<Rightarrow> (i, d)
     | None \<Rightarrow> let i = of_nat (length (db_functions d)) in
         (i, d\<lparr>db_functions := db_functions d @ [mk_function key],
               db_function_lookup := (db_function_lookup d)(key \<mapsto> i)\<rparr>))"

definition function_index :: "profile_symbol \<Rightarrow> dictionary_builder \<Rightarrow> i32 \<times> dictionary_builder" where
  "function_index s d = (
     let (name, d1) = intern (sym_name s) d;
         (system_name, d2) = intern (sym_system_name s) d1;
         (filename, d3) = intern (sym_filename s) d2
     in function_entry (name, system_name, filename) d3)"

fun line_loop ::
  "profile_symbol list \<Rightarrow> dictionary_builder \<Rightarrow> (i32 \<times> int) list \<times> dictionary_builder" where
  "line_loop [] d = ([], d)"
| "line_loop (s # ss) d = (
     let (i, d1) = function_index s d; (rest, d2) = line_loop ss d1
     in ((i, sym_line s) # rest, d2))"

definition mk_location :: "u64 \<times> (i32 \<times> int) list \<Rightarrow> plocation" where
  "mk_location = (\<lambda>(address, lines). \<lparr>lo_mapping_index = 0, lo_address = address,
     lo_lines = map (\<lambda>(f, l). \<lparr>ln_function_index = f, ln_line = l, ln_column = 0\<rparr>) lines,
     lo_attribute_indices = []\<rparr>)"

definition location_entry ::
  "u64 \<times> (i32 \<times> int) list \<Rightarrow> dictionary_builder \<Rightarrow> i32 \<times> dictionary_builder" where
  "location_entry key d = (case db_location_lookup d key of
       Some i \<Rightarrow> (i, d)
     | None \<Rightarrow> let i = of_nat (length (db_locations d)) in
         (i, d\<lparr>db_locations := db_locations d @ [mk_location key],
               db_location_lookup := (db_location_lookup d)(key \<mapsto> i)\<rparr>))"

definition location_index ::
  "profile_frame \<Rightarrow> dictionary_builder \<Rightarrow> i32 option \<times> dictionary_builder" where
  "location_index frame d = (case fr_symbols frame of
       [] \<Rightarrow> (None, d)
     | s # _ \<Rightarrow>
         let (line_key, d1) = line_loop (fr_symbols frame) d;
             (i, d2) = location_entry (sym_address s, line_key) d1
         in (Some i, d2))"

fun location_loop ::
  "profile_frame list \<Rightarrow> dictionary_builder \<Rightarrow> i32 list \<times> dictionary_builder" where
  "location_loop [] d = ([], d)"
| "location_loop (f # fs) d = (
     let (i, d1) = location_index f d; (rest, d2) = location_loop fs d1
     in ((case i of None \<Rightarrow> rest | Some i \<Rightarrow> i # rest), d2))"

definition mk_stack :: "i32 list \<Rightarrow> pstack" where
  "mk_stack ls = \<lparr>st_location_indices = ls\<rparr>"

definition stack_entry :: "i32 list \<Rightarrow> dictionary_builder \<Rightarrow> i32 \<times> dictionary_builder" where
  "stack_entry key d = (case db_stack_lookup d key of
       Some i \<Rightarrow> (i, d)
     | None \<Rightarrow> let i = of_nat (length (db_stacks d)) in
         (i, d\<lparr>db_stacks := db_stacks d @ [mk_stack key],
               db_stack_lookup := (db_stack_lookup d)(key \<mapsto> i)\<rparr>))"

definition stack_index ::
  "profile_sample \<Rightarrow> dictionary_builder \<Rightarrow> i32 option \<times> dictionary_builder" where
  "stack_index s d = (
     let (ls, d1) = location_loop (smp_frames s) d in
     if ls = [] then (None, d1)
     else (let (i, d2) = stack_entry ls d1 in (Some i, d2)))"

definition mk_attribute :: "i32 \<times> string \<Rightarrow> key_value_and_unit" where
  "mk_attribute = (\<lambda>(key, v). \<lparr>kv_key_strindex = key, kv_value = Some (StringValue v), kv_unit_strindex = 0\<rparr>)"

definition attribute_entry :: "i32 \<times> string \<Rightarrow> dictionary_builder \<Rightarrow> i32 \<times> dictionary_builder" where
  "attribute_entry key d = (case db_attribute_lookup d key of
       Some i \<Rightarrow> (i, d)
     | None \<Rightarrow> let i = of_nat (length (db_attributes d)) in
         (i, d\<lparr>db_attributes := db_attributes d @ [mk_attribute key],
               db_attribute_lookup := (db_attribute_lookup d)(key \<mapsto> i)\<rparr>))"

definition thread_attribute :: "string \<Rightarrow> dictionary_builder \<Rightarrow> i32 \<times> dictionary_builder" where
  "thread_attribute thread_name d = (
     let (key, d1) = intern ''thread.name'' d in attribute_entry (key, thread_name) d1)"

definition dictionary_build :: "dictionary_builder \<Rightarrow> profiles_dictionary" where
  "dictionary_build d = \<lparr>mapping_table = [Default_mapping], location_table = db_locations d,
     function_table = db_functions d, link_table = [Default_link], string_table = db_strings d, attribute_table = db_attributes d, stack_table = db_stacks d\<rparr>"

section \<open>The export request\<close>

definition saturate_i64 :: "int \<Rightarrow> int" where
  "saturate_i64 x = max (- (2 ^ 63)) (min (2 ^ 63 - 1) x)"

definition period_ns :: "int \<Rightarrow> int" where
  "period_ns frequency = 1000000000 div max frequency 1"

text \<open>The thread name that becomes an attribute, if any.\<close>

definition thread_label :: "profile_sample \<Rightarrow> string option" where
  "thread_label s = (case smp_thread_name s of
       None \<Rightarrow> None | Some n \<Rightarrow> if trim n = [] then None else Some (trim n))"

definition thread_indices ::
  "profile_sample \<Rightarrow> dictionary_builder \<Rightarrow> i32 list \<times> dictionary_builder" where
  "thread_indices s d = (case thread_label s of
       None \<Rightarrow> ([], d)
     | Some n \<Rightarrow> let (a, d1) = thread_attribute n d in ([a], d1))"

fun sample_loop ::
  "int \<Rightarrow> profile_sample list \<Rightarrow> dictionary_builder \<Rightarrow> psample list \<times> dictionary_builder" where
  "sample_loop period [] d = ([], d)"
| "sample_loop period (s # ss) d =
     (if smp_count s \<le> 0 then sample_loop period ss d
      else (case stack_index s d of
              (None, d1) \<Rightarrow> sample_loop period ss d1
            | (Some i, d1) \<Rightarrow>
                let (attrs, d2) = thread_indices s d1;
                    (rest, d3) = sample_loop period ss d2
                in (\<lparr>sa_stack_index = i, sa_attribute_indices = attrs, sa_link_index = 0,
                     sa_values = [saturate_i64 (smp_count s * period)],
                     sa_timestamps_unix_nano = []\<rparr> # rest, d3)))"

text \<open>The profile identifier: the clock's nanoseconds, then the sequence number, both big-endian; the
  second result is the counter after \<open>fetch_add\<close>.\<close>

definition u64_be_bytes :: "u64 \<Rightarrow> bytes" where
  "u64_be_bytes w = map (\<lambda>k. ucast (drop_bit (8 * k) w)) (rev [0 ..< 8])"

definition new_profile_id :: "u64 \<Rightarrow> u64 \<Rightarrow> bytes \<times> u64" where
  "new_profile_id now_nanos counter = (u64_be_bytes now_nanos @ u64_be_bytes counter, counter + 1)"

definition build_export_request ::
  "string \<Rightarrow> u64 \<Rightarrow> 'r \<Rightarrow> collected_profile \<Rightarrow> u64 \<Rightarrow> 'r export_request \<times> u64" where
  "build_export_request version now_nanos resource c counter = (
     let period = period_ns (cp_frequency c);
         (samples, d1) = sample_loop period (cp_samples c) dictionary_new;
         (cpu, d2) = intern ''cpu'' d1;
         (nanoseconds, d3) = intern ''nanoseconds'' d2;
         sample_type = \<lparr>vt_type_strindex = cpu, vt_unit_strindex = nanoseconds\<rparr>;
         (id, counter') = new_profile_id now_nanos counter
     in (\<lparr>rq_resource = resource, rq_scope_name = APP_NAME, rq_scope_version = version,
          rq_profiles = [\<lparr>pr_sample_type = Some sample_type, pr_samples = samples,
             pr_time_unix_nano = cp_time_unix_nano c, pr_duration_nano = cp_duration_nano c,
             pr_period_type = Some sample_type, pr_period = period, pr_profile_id = id,
             pr_dropped_attributes_count = 0, pr_original_payload_format = [],
             pr_original_payload = [], pr_attribute_indices = []\<rparr>],
          rq_dictionary = dictionary_build d3\<rparr>, counter'))"

section \<open>Interning tables\<close>

text \<open>Every lookup entry points at the table entry made from its key.\<close>

definition table_inv :: "'v list \<Rightarrow> ('k \<rightharpoonup> i32) \<Rightarrow> ('k \<Rightarrow> 'v) \<Rightarrow> bool" where
  "table_inv tab look mk \<longleftrightarrow>
     (\<forall>k i. look k = Some i \<longrightarrow> (\<exists>n < length tab. i = of_nat n \<and> tab ! n = mk k))"

lemma table_inv_snoc:
  "table_inv tab look mk \<Longrightarrow> table_inv (tab @ [mk k]) (look(k \<mapsto> of_nat (length tab))) mk"
  by (fastforce simp: table_inv_def nth_append less_Suc_eq)

locale interning =
  fixes table :: "'s \<Rightarrow> 'v list" and lookup :: "'s \<Rightarrow> 'k \<rightharpoonup> i32" and mk :: "'k \<Rightarrow> 'v"
    and entry :: "'k \<Rightarrow> 's \<Rightarrow> i32 \<times> 's"
  assumes entry_hit: "lookup s k = Some i \<Longrightarrow> entry k s = (i, s)"
    and entry_miss: "lookup s k = None \<Longrightarrow> entry k s = (i, s') \<Longrightarrow>
      i = of_nat (length (table s)) \<and> table s' = table s @ [mk k] \<and> lookup s' = (lookup s)(k \<mapsto> i)"
begin

lemma entry_inv:
  assumes "entry k s = (i, s')"
  shows "lookup s' k = Some i \<and> lookup s \<subseteq>\<^sub>m lookup s' \<and> prefix (table s) (table s') \<and>
    (table_inv (table s) (lookup s) mk \<longrightarrow> table_inv (table s') (lookup s') mk)"
proof (cases "lookup s k")
  case None
  with entry_miss [OF None assms] show ?thesis by (auto simp: map_le_def table_inv_snoc)
next
  case (Some j)
  with entry_hit [OF Some] assms show ?thesis by simp
qed

lemma entry_twice: "entry k s = (i, s') \<Longrightarrow> entry k s' = (i, s')"
  using entry_inv entry_hit by blast

end

interpretation strs: interning db_strings db_string_lookup "\<lambda>v. v" intern
  by unfold_locales (auto simp: intern_def Let_def split: option.splits)

interpretation funs: interning db_functions db_function_lookup mk_function function_entry
  by unfold_locales (auto simp: function_entry_def Let_def split: option.splits)

interpretation locs: interning db_locations db_location_lookup mk_location location_entry
  by unfold_locales (auto simp: location_entry_def Let_def split: option.splits)

interpretation stks: interning db_stacks db_stack_lookup mk_stack stack_entry
  by unfold_locales (auto simp: stack_entry_def Let_def split: option.splits)

interpretation atts: interning db_attributes db_attribute_lookup mk_attribute attribute_entry
  by unfold_locales (auto simp: attribute_entry_def Let_def split: option.splits)

section \<open>The builder's invariant and order\<close>

definition dict_inv :: "dictionary_builder \<Rightarrow> bool" where
  "dict_inv d \<longleftrightarrow> table_inv (db_strings d) (db_string_lookup d) (\<lambda>v. v) \<and>
     table_inv (db_functions d) (db_function_lookup d) mk_function \<and>
     table_inv (db_locations d) (db_location_lookup d) mk_location \<and>
     table_inv (db_stacks d) (db_stack_lookup d) mk_stack \<and>
     table_inv (db_attributes d) (db_attribute_lookup d) mk_attribute"

definition dict_le :: "dictionary_builder \<Rightarrow> dictionary_builder \<Rightarrow> bool" where
  "dict_le d d' \<longleftrightarrow>
     prefix (db_strings d) (db_strings d') \<and> db_string_lookup d \<subseteq>\<^sub>m db_string_lookup d' \<and>
     prefix (db_functions d) (db_functions d') \<and> db_function_lookup d \<subseteq>\<^sub>m db_function_lookup d' \<and>
     prefix (db_locations d) (db_locations d') \<and> db_location_lookup d \<subseteq>\<^sub>m db_location_lookup d' \<and>
     prefix (db_stacks d) (db_stacks d') \<and> db_stack_lookup d \<subseteq>\<^sub>m db_stack_lookup d' \<and>
     prefix (db_attributes d) (db_attributes d') \<and> db_attribute_lookup d \<subseteq>\<^sub>m db_attribute_lookup d'"

text \<open>One step of the builder: it keeps the invariant and only adds entries.\<close>

definition grows :: "dictionary_builder \<Rightarrow> dictionary_builder \<Rightarrow> bool" where
  "grows d d' \<longleftrightarrow> (dict_inv d \<longrightarrow> dict_inv d') \<and> dict_le d d'"

lemma grows_refl [simp]: "grows d d"
  by (simp add: grows_def dict_le_def)

lemma grows_trans [trans]: "grows d d' \<Longrightarrow> grows d' d'' \<Longrightarrow> grows d d''"
  unfolding grows_def dict_le_def by (blast intro: prefix_order.trans map_le_trans)

lemma intern_grows: "intern v d = (i, d') \<Longrightarrow> grows d d' \<and> db_string_lookup d' v = Some i"
  using strs.entry_inv [of v d i d']
  by (auto simp: grows_def dict_inv_def dict_le_def intern_def Let_def split: option.splits)

lemma function_entry_grows:
  "function_entry k d = (i, d') \<Longrightarrow> grows d d' \<and> db_function_lookup d' k = Some i"
  using funs.entry_inv [of k d i d']
  by (auto simp: grows_def dict_inv_def dict_le_def function_entry_def Let_def split: option.splits)

lemma location_entry_grows:
  "location_entry k d = (i, d') \<Longrightarrow> grows d d' \<and> db_location_lookup d' k = Some i"
  using locs.entry_inv [of k d i d']
  by (auto simp: grows_def dict_inv_def dict_le_def location_entry_def Let_def split: option.splits)

lemma stack_entry_grows:
  "stack_entry k d = (i, d') \<Longrightarrow> grows d d' \<and> db_stack_lookup d' k = Some i"
  using stks.entry_inv [of k d i d']
  by (auto simp: grows_def dict_inv_def dict_le_def stack_entry_def Let_def split: option.splits)

lemma attribute_entry_grows:
  "attribute_entry k d = (i, d') \<Longrightarrow> grows d d' \<and> db_attribute_lookup d' k = Some i"
  using atts.entry_inv [of k d i d']
  by (auto simp: grows_def dict_inv_def dict_le_def attribute_entry_def Let_def split: option.splits)

section \<open>What a reader of the request sees\<close>

text \<open>A reader resolves an index in a table; a negative or too large index resolves to nothing.\<close>

definition get_at :: "'a list \<Rightarrow> i32 \<Rightarrow> 'a option" where
  "get_at tab i = (if 0 \<le> sint i \<and> unat i < length tab then Some (tab ! unat i) else None)"

definition dec_function :: "profiles_dictionary \<Rightarrow> i32 \<Rightarrow> (string \<times> string \<times> string) option" where
  "dec_function D i = do {
     f \<leftarrow> get_at (function_table D) i;
     name \<leftarrow> get_at (string_table D) (fn_name_strindex f);
     system_name \<leftarrow> get_at (string_table D) (fn_system_name_strindex f);
     filename \<leftarrow> get_at (string_table D) (fn_filename_strindex f);
     Some (name, system_name, filename) }"

type_synonym frame_view = "u64 \<times> ((string \<times> string \<times> string) \<times> int) list"

definition dec_location :: "profiles_dictionary \<Rightarrow> i32 \<Rightarrow> frame_view option" where
  "dec_location D i = do {
     l \<leftarrow> get_at (location_table D) i;
     ls \<leftarrow> those (map (\<lambda>ln. map_option (\<lambda>f. (f, ln_line ln)) (dec_function D (ln_function_index ln))) (lo_lines l));
     Some (lo_address l, ls) }"

definition dec_stack :: "profiles_dictionary \<Rightarrow> i32 \<Rightarrow> frame_view list option" where
  "dec_stack D i = do { st \<leftarrow> get_at (stack_table D) i; those (map (dec_location D) (st_location_indices st)) }"

definition dec_attribute :: "profiles_dictionary \<Rightarrow> i32 \<Rightarrow> (string \<times> any_value option) option" where
  "dec_attribute D i = do {
     a \<leftarrow> get_at (attribute_table D) i; k \<leftarrow> get_at (string_table D) (kv_key_strindex a); Some (k, kv_value a) }"

type_synonym sample_view = "frame_view list \<times> (string \<times> any_value option) list \<times> int list"

definition dec_sample :: "profiles_dictionary \<Rightarrow> psample \<Rightarrow> sample_view option" where
  "dec_sample D sa = do {
     st \<leftarrow> dec_stack D (sa_stack_index sa);
     attrs \<leftarrow> those (map (dec_attribute D) (sa_attribute_indices sa));
     Some (st, attrs, sa_values sa) }"

text \<open>What the collected profile holds: frames without a symbol and samples without a frame or without
  a positive count are not exported.\<close>

definition frame_view :: "profile_frame \<Rightarrow> frame_view" where
  "frame_view f = (sym_address (hd (fr_symbols f)),
     map (\<lambda>s. ((sym_name s, sym_system_name s, sym_filename s), sym_line s)) (fr_symbols f))"

definition stack_view :: "profile_sample \<Rightarrow> frame_view list" where
  "stack_view s = map frame_view (filter (\<lambda>f. fr_symbols f \<noteq> []) (smp_frames s))"

definition exported :: "profile_sample \<Rightarrow> bool" where
  "exported s \<longleftrightarrow> 0 < smp_count s \<and> stack_view s \<noteq> []"

definition sample_view :: "int \<Rightarrow> profile_sample \<Rightarrow> sample_view" where
  "sample_view period s = (stack_view s,
     (case thread_label s of None \<Rightarrow> [] | Some n \<Rightarrow> [(''thread.name'', Some (StringValue n))]),
     [saturate_i64 (smp_count s * period)])"

definition small :: "profiles_dictionary \<Rightarrow> bool" where
  "small D \<longleftrightarrow> length (string_table D) \<le> 2 ^ 31 \<and> length (function_table D) \<le> 2 ^ 31 \<and>
     length (location_table D) \<le> 2 ^ 31 \<and> length (stack_table D) \<le> 2 ^ 31 \<and>
     length (attribute_table D) \<le> 2 ^ 31"

section \<open>Encoding through the lookup tables\<close>

definition enc_function :: "dictionary_builder \<Rightarrow> string \<times> string \<times> string \<Rightarrow> i32 option" where
  "enc_function d = (\<lambda>(n, s, f). do {
     a \<leftarrow> db_string_lookup d n; b \<leftarrow> db_string_lookup d s; c \<leftarrow> db_string_lookup d f;
     db_function_lookup d (a, b, c) })"

definition enc_line :: "dictionary_builder \<Rightarrow> (string \<times> string \<times> string) \<times> int \<Rightarrow> (i32 \<times> int) option" where
  "enc_line d = (\<lambda>(f, l). map_option (\<lambda>i. (i, l)) (enc_function d f))"

definition enc_frame :: "dictionary_builder \<Rightarrow> frame_view \<Rightarrow> i32 option" where
  "enc_frame d = (\<lambda>(a, ls). do { ks \<leftarrow> those (map (enc_line d) ls); db_location_lookup d (a, ks) })"

definition enc_stack :: "dictionary_builder \<Rightarrow> frame_view list \<Rightarrow> i32 option" where
  "enc_stack d fs = do { ks \<leftarrow> those (map (enc_frame d) fs); db_stack_lookup d ks }"

definition enc_thread :: "dictionary_builder \<Rightarrow> string option \<Rightarrow> i32 list option" where
  "enc_thread d n = (case n of None \<Rightarrow> Some []
     | Some n \<Rightarrow> do { k \<leftarrow> db_string_lookup d ''thread.name''; a \<leftarrow> db_attribute_lookup d (k, n); Some [a] })"

definition enc_sample :: "dictionary_builder \<Rightarrow> int \<Rightarrow> profile_sample \<Rightarrow> psample \<Rightarrow> bool" where
  "enc_sample d period s sa \<longleftrightarrow> enc_stack d (stack_view s) = Some (sa_stack_index sa) \<and>
     enc_thread d (thread_label s) = Some (sa_attribute_indices sa) \<and>
     sa_values sa = [saturate_i64 (smp_count s * period)]"

lemma those_map: "those (map f xs) = Some ys \<longleftrightarrow> list_all2 (\<lambda>x y. f x = Some y) xs ys"
  by (induction xs arbitrary: ys) (auto simp: list_all2_Cons1 split: option.splits)

lemma those_map_mono:
  "those (map f xs) = Some ys \<Longrightarrow> (\<And>x y. f x = Some y \<Longrightarrow> g x = Some y) \<Longrightarrow> those (map g xs) = Some ys"
  unfolding those_map by (rule list_all2_mono)

lemma map_le_Some: "m \<subseteq>\<^sub>m m' \<Longrightarrow> m k = Some v \<Longrightarrow> m' k = Some v"
  by (metis domI map_le_def)

lemma lookup_mono:
  assumes "grows d d'"
  shows "db_string_lookup d v = Some i \<Longrightarrow> db_string_lookup d' v = Some i"
    and "db_function_lookup d f = Some i \<Longrightarrow> db_function_lookup d' f = Some i"
    and "db_location_lookup d l = Some i \<Longrightarrow> db_location_lookup d' l = Some i"
    and "db_stack_lookup d k = Some i \<Longrightarrow> db_stack_lookup d' k = Some i"
    and "db_attribute_lookup d a = Some i \<Longrightarrow> db_attribute_lookup d' a = Some i"
  using assms by (auto simp: grows_def dict_le_def intro: map_le_Some)

lemma bind_mono:
  "Option.bind a f = Some z \<Longrightarrow> (\<And>x. a = Some x \<Longrightarrow> a' = Some x) \<Longrightarrow>
     (\<And>x. f x = Some z \<Longrightarrow> f' x = Some z) \<Longrightarrow> Option.bind a' f' = Some z"
  by (cases a) auto

lemma enc_function_mono: "grows d d' \<Longrightarrow> enc_function d f = Some i \<Longrightarrow> enc_function d' f = Some i"
  by (cases f) (auto simp: enc_function_def elim!: bind_mono intro: lookup_mono)

lemma enc_line_mono: "grows d d' \<Longrightarrow> enc_line d l = Some i \<Longrightarrow> enc_line d' l = Some i"
  by (cases l) (auto simp: enc_line_def intro: enc_function_mono)

lemma enc_frame_mono: "grows d d' \<Longrightarrow> enc_frame d f = Some i \<Longrightarrow> enc_frame d' f = Some i"
  by (cases f) (auto simp: enc_frame_def elim!: bind_mono intro: lookup_mono those_map_mono enc_line_mono)

lemma enc_stack_mono: "grows d d' \<Longrightarrow> enc_stack d fs = Some i \<Longrightarrow> enc_stack d' fs = Some i"
  by (auto simp: enc_stack_def elim!: bind_mono intro: lookup_mono those_map_mono enc_frame_mono)

lemma enc_thread_mono: "grows d d' \<Longrightarrow> enc_thread d n = Some i \<Longrightarrow> enc_thread d' n = Some i"
  by (cases n) (auto simp: enc_thread_def elim!: bind_mono intro: lookup_mono)

lemma enc_sample_mono: "grows d d' \<Longrightarrow> enc_sample d p s sa \<Longrightarrow> enc_sample d' p s sa"
  by (auto simp: enc_sample_def intro: enc_stack_mono enc_thread_mono)

subsection \<open>Every operation encodes what it is given\<close>

lemma function_index_enc:
  assumes "function_index s d = (i, d')"
  shows "grows d d' \<and> enc_function d' (sym_name s, sym_system_name s, sym_filename s) = Some i"
proof -
  obtain a d1 b d2 c d3 where st: "intern (sym_name s) d = (a, d1)" "intern (sym_system_name s) d1 = (b, d2)"
    "intern (sym_filename s) d2 = (c, d3)" "function_entry (a, b, c) d3 = (i, d')"
    using assms by (auto simp: function_index_def split: prod.splits)
  note e = st(1-3) [THEN intern_grows] and f = function_entry_grows [OF st(4)]
  have g3: "grows d3 d'" using f by blast
  have g2: "grows d2 d'" using g3 e(3) by (blast intro: grows_trans)
  have g1: "grows d1 d'" using g2 e(2) by (blast intro: grows_trans)
  have "grows d d'" using g1 e(1) by (blast intro: grows_trans)
  moreover have "db_string_lookup d' (sym_name s) = Some a" "db_string_lookup d' (sym_system_name s) = Some b"
    "db_string_lookup d' (sym_filename s) = Some c"
    using e g1 g2 g3 by (blast intro: lookup_mono)+
  ultimately show ?thesis using f by (simp add: enc_function_def)
qed

lemma line_loop_enc:
  "line_loop ss d = (ks, d') \<Longrightarrow> grows d d' \<and> those (map (\<lambda>s. enc_line d' ((sym_name s, sym_system_name s, sym_filename s), sym_line s)) ss) = Some ks"
proof (induction ss arbitrary: d ks)
  case (Cons s ss)
  then obtain i d1 ks' where st: "function_index s d = (i, d1)" "line_loop ss d1 = (ks', d')"
    and ks: "ks = (i, sym_line s) # ks'"
    by (auto split: prod.splits)
  note f = function_index_enc [OF st(1)] and r = Cons.IH [OF st(2)]
  from f r have "enc_function d' (sym_name s, sym_system_name s, sym_filename s) = Some i"
    by (blast intro: enc_function_mono)
  with f r ks show ?case by (auto simp: enc_line_def intro: grows_trans)
qed simp

lemma location_index_enc:
  assumes "location_index f d = (r, d')"
  shows "grows d d' \<and> (if fr_symbols f = [] then r = None else r \<noteq> None \<and> enc_frame d' (frame_view f) = r)"
proof (cases "fr_symbols f")
  case (Cons s ss)
  then obtain ks d1 i where st: "line_loop (fr_symbols f) d = (ks, d1)"
    "location_entry (sym_address s, ks) d1 = (i, d')" and r: "r = Some i"
    using assms by (auto simp: location_index_def split: prod.splits)
  note l = line_loop_enc [OF st(1)] and e = location_entry_grows [OF st(2)]
  from l e have "those (map (\<lambda>s. enc_line d' ((sym_name s, sym_system_name s, sym_filename s), sym_line s)) (fr_symbols f)) = Some ks"
    by (blast intro: those_map_mono enc_line_mono)
  with l e r Cons show ?thesis
    by (auto simp: enc_frame_def frame_view_def comp_def intro: grows_trans)
qed (use assms in \<open>simp add: location_index_def\<close>)

lemma location_loop_enc:
  "location_loop fs d = (ks, d') \<Longrightarrow> grows d d' \<and>
     those (map (\<lambda>f. enc_frame d' (frame_view f)) (filter (\<lambda>f. fr_symbols f \<noteq> []) fs)) = Some ks"
proof (induction fs arbitrary: d ks)
  case (Cons f fs)
  then obtain r d1 ks' where st: "location_index f d = (r, d1)" "location_loop fs d1 = (ks', d')"
    and ks: "ks = (case r of None \<Rightarrow> ks' | Some i \<Rightarrow> i # ks')"
    by (auto split: prod.splits)
  note l = location_index_enc [OF st(1)] and r = Cons.IH [OF st(2)]
  from l r have "fr_symbols f \<noteq> [] \<Longrightarrow> enc_frame d' (frame_view f) = r"
    by (auto intro: enc_frame_mono)
  with l r ks show ?case by (auto split: if_splits option.splits intro: grows_trans)
qed simp

lemma stack_index_enc:
  assumes "stack_index s d = (r, d')"
  shows "grows d d' \<and> (if stack_view s = [] then r = None else r \<noteq> None \<and> enc_stack d' (stack_view s) = r)"
proof -
  obtain ks d1 where l: "location_loop (smp_frames s) d = (ks, d1)" by force
  note e = location_loop_enc [OF l]
  then have ln: "length ks = length (stack_view s)"
    by (auto simp: stack_view_def those_map dest: list_all2_lengthD)
  show ?thesis
  proof (cases "ks = []")
    case True
    with assms l e ln show ?thesis by (auto simp: stack_index_def)
  next
    case False
    with assms l obtain i where st: "stack_entry ks d1 = (i, d')" and r: "r = Some i"
      by (auto simp: stack_index_def split: prod.splits)
    note g = stack_entry_grows [OF st]
    from e g have "those (map (\<lambda>f. enc_frame d' (frame_view f)) (filter (\<lambda>f. fr_symbols f \<noteq> []) (smp_frames s))) = Some ks"
      by (blast intro: those_map_mono enc_frame_mono)
    with e g r ln False show ?thesis
      by (auto simp: enc_stack_def stack_view_def comp_def intro: grows_trans)
  qed
qed

lemma thread_indices_enc:
  assumes "thread_indices s d = (as, d')"
  shows "grows d d' \<and> enc_thread d' (thread_label s) = Some as"
proof (cases "thread_label s")
  case (Some n)
  with assms obtain k d1 a where st: "intern ''thread.name'' d = (k, d1)" "attribute_entry (k, n) d1 = (a, d')"
    and as: "as = [a]"
    by (auto simp: thread_indices_def thread_attribute_def split: prod.splits)
  note g = intern_grows [OF st(1)] attribute_entry_grows [OF st(2)]
  then have "db_string_lookup d' ''thread.name'' = Some k" by (blast intro: lookup_mono)
  with g as Some show ?thesis by (auto simp: enc_thread_def intro: grows_trans)
qed (use assms in \<open>simp add: thread_indices_def enc_thread_def\<close>)

lemma sample_loop_enc:
  "sample_loop p ss d = (out, d') \<Longrightarrow> grows d d' \<and> list_all2 (enc_sample d' p) (filter exported ss) out"
proof (induction ss arbitrary: d out)
  case (Cons s ss)
  show ?case
  proof (cases "smp_count s \<le> 0")
    case True
    with Cons show ?thesis by (simp add: exported_def)
  next
    case False
    obtain r d1 where st: "stack_index s d = (r, d1)" by force
    note k = stack_index_enc [OF st]
    show ?thesis
    proof (cases r)
      case None
      with Cons.prems False st have "sample_loop p ss d1 = (out, d')" by simp
      with Cons.IH k None show ?thesis by (auto simp: exported_def split: if_splits intro: grows_trans)
    next
      case (Some i)
      obtain as d2 rest where t: "thread_indices s d1 = (as, d2)" "sample_loop p ss d2 = (rest, d')"
        using Cons.prems False st Some by (auto split: prod.splits)
      note u = thread_indices_enc [OF t(1)] and v = Cons.IH [OF t(2)]
      have g: "grows d1 d'" "grows d2 d'" using u v by (blast intro: grows_trans)+
      then have "enc_stack d' (stack_view s) = Some i" "enc_thread d' (thread_label s) = Some as"
        using k u Some by (auto split: if_splits intro: enc_stack_mono enc_thread_mono)
      moreover have "exported s" using k Some False by (auto simp: exported_def split: if_splits)
      moreover have "grows d d'" using k g by (blast intro: grows_trans)
      ultimately show ?thesis using Cons.prems False st Some t v by (auto simp: enc_sample_def)
    qed
  qed
qed simp

section \<open>Decoding inverts encoding\<close>

lemma get_at_inv:
  assumes "table_inv tab look mk" and "length tab \<le> 2 ^ 31" and "look k = Some i"
  shows "get_at tab i = Some (mk k)"
proof -
  from assms obtain n where n: "n < length tab" "i = of_nat n" "tab ! n = mk k"
    by (auto simp: table_inv_def)
  with assms(2) have "n < 2 ^ 31" by simp
  then have "unat i = n" and "0 \<le> sint i"
    using n(2) by (auto simp: unat_of_nat take_bit_nat_eq_self sint_uint signed_take_bit_eq_if_positive
        bit_iff_odd uint_nat)
  with n show ?thesis by (simp add: get_at_def)
qed

definition sound :: "dictionary_builder \<Rightarrow> bool" where
  "sound d \<longleftrightarrow> dict_inv d \<and> small (dictionary_build d)"

lemma table_at:
  assumes "sound d"
  shows "db_string_lookup d v = Some i \<Longrightarrow> get_at (string_table (dictionary_build d)) i = Some v"
    and "db_function_lookup d f = Some i \<Longrightarrow> get_at (function_table (dictionary_build d)) i = Some (mk_function f)"
    and "db_location_lookup d l = Some i \<Longrightarrow> get_at (location_table (dictionary_build d)) i = Some (mk_location l)"
    and "db_stack_lookup d k = Some i \<Longrightarrow> get_at (stack_table (dictionary_build d)) i = Some (mk_stack k)"
    and "db_attribute_lookup d a = Some i \<Longrightarrow> get_at (attribute_table (dictionary_build d)) i = Some (mk_attribute a)"
  using assms by (auto simp: sound_def dict_inv_def small_def dictionary_build_def intro: get_at_inv)

lemma dec_enc_function:
  assumes "sound d" and "enc_function d f = Some i"
  shows "dec_function (dictionary_build d) i = Some f"
proof -
  obtain n s f' where f: "f = (n, s, f')" by (cases f) auto
  from assms(2) f obtain a b c where l: "db_string_lookup d n = Some a" "db_string_lookup d s = Some b"
    "db_string_lookup d f' = Some c" "db_function_lookup d (a, b, c) = Some i"
    by (auto simp: enc_function_def bind_eq_Some_conv)
  show ?thesis
    by (simp add: f dec_function_def mk_function_def table_at(1) [OF assms(1) l(1)] table_at(1) [OF assms(1) l(2)]
        table_at(1) [OF assms(1) l(3)] table_at(2) [OF assms(1) l(4)])
qed

lemma dec_enc_line:
  "sound d \<Longrightarrow> enc_line d l = Some k \<Longrightarrow>
     map_option (\<lambda>f. (f, snd k)) (dec_function (dictionary_build d) (fst k)) = Some l"
  by (cases l) (auto simp: enc_line_def dest: dec_enc_function)

lemma those_map_inverse:
  "those (map f xs) = Some ys \<Longrightarrow> (\<And>x y. f x = Some y \<Longrightarrow> g y = Some x) \<Longrightarrow> those (map g ys) = Some xs"
  unfolding those_map by (auto simp: list_all2_conv_all_nth)

lemma dec_enc_frame:
  assumes "sound d" and "enc_frame d f = Some i"
  shows "dec_location (dictionary_build d) i = Some f"
proof -
  obtain a ls where f: "f = (a, ls)" by (cases f)
  from assms(2) f obtain ks where ks: "those (map (enc_line d) ls) = Some ks" and l: "db_location_lookup d (a, ks) = Some i"
    by (auto simp: enc_frame_def bind_eq_Some_conv)
  from those_map_inverse [OF ks dec_enc_line [OF assms(1)]]
  show ?thesis
    by (simp add: f dec_location_def table_at(3) [OF assms(1) l] mk_location_def comp_def split_def)
qed

lemma dec_enc_stack:
  assumes "sound d" and "enc_stack d fs = Some i"
  shows "dec_stack (dictionary_build d) i = Some fs"
proof -
  from assms(2) obtain ks where ks: "those (map (enc_frame d) fs) = Some ks" and l: "db_stack_lookup d ks = Some i"
    by (auto simp: enc_stack_def bind_eq_Some_conv)
  from those_map_inverse [OF ks dec_enc_frame [OF assms(1)]]
  show ?thesis by (simp add: dec_stack_def table_at(4) [OF assms(1) l] mk_stack_def)
qed

lemma dec_enc_thread:
  assumes "sound d" and "enc_thread d n = Some as"
  shows "those (map (dec_attribute (dictionary_build d)) as) =
    Some (case n of None \<Rightarrow> [] | Some n \<Rightarrow> [(''thread.name'', Some (StringValue n))])"
proof (cases n)
  case (Some v)
  with assms(2) obtain k a where l: "db_string_lookup d ''thread.name'' = Some k"
    "db_attribute_lookup d (k, v) = Some a" "as = [a]"
    by (auto simp: enc_thread_def bind_eq_Some_conv)
  show ?thesis
    by (simp add: Some l(3) dec_attribute_def table_at(1) [OF assms(1) l(1)] table_at(5) [OF assms(1) l(2)] mk_attribute_def)
qed (use assms in \<open>simp add: enc_thread_def\<close>)

lemma dec_enc_sample:
  "sound d \<Longrightarrow> enc_sample d p s sa \<Longrightarrow> dec_sample (dictionary_build d) sa = Some (sample_view p s)"
  using dec_enc_stack [of d "stack_view s" "sa_stack_index sa"] dec_enc_thread [of d "thread_label s" "sa_attribute_indices sa"]
  by (simp add: enc_sample_def dec_sample_def sample_view_def)

lemma dictionary_new_inv: "dict_inv dictionary_new"
  by (auto simp: dict_inv_def table_inv_def dictionary_new_def)

text \<open>The final dictionary of a request: how it came from the empty one and what it encodes.\<close>

lemma build_export_request_parts:
  assumes "build_export_request version now resource c n = (r, n')"
  obtains d pr where "dict_inv d" "dict_le dictionary_new d" "rq_dictionary r = dictionary_build d"
    "rq_profiles r = [pr]" "pr_period pr = period_ns (cp_frequency c)"
    "list_all2 (enc_sample d (period_ns (cp_frequency c))) (filter exported (cp_samples c)) (pr_samples pr)"
    "map_option (\<lambda>t. (db_string_lookup d ''cpu'', db_string_lookup d ''nanoseconds'')) (pr_sample_type pr) =
       map_option (\<lambda>t. (Some (vt_type_strindex t), Some (vt_unit_strindex t))) (pr_sample_type pr)"
    "pr_sample_type pr \<noteq> None"
proof -
  obtain ss d1 a d2 b d3 where st: "sample_loop (period_ns (cp_frequency c)) (cp_samples c) dictionary_new = (ss, d1)"
    "intern ''cpu'' d1 = (a, d2)" "intern ''nanoseconds'' d2 = (b, d3)"
    by (metis surj_pair)
  note e = sample_loop_enc [OF st(1)] and g = st(2,3) [THEN intern_grows]
  have g1: "grows d1 d3" and g0: "grows dictionary_new d3" using e g by (blast intro: grows_trans)+
  have k: "list_all2 (enc_sample d3 (period_ns (cp_frequency c))) (filter exported (cp_samples c)) ss"
    using e g1 by (blast intro: list_all2_mono enc_sample_mono)
  have "db_string_lookup d3 ''cpu'' = Some a" using g by (blast intro: lookup_mono)
  then show thesis
    using assms st g g0 k dictionary_new_inv
    by (intro that [of d3 "hd (rq_profiles r)"])
      (auto simp: build_export_request_def new_profile_id_def grows_def Let_def)
qed

section \<open>The request's properties\<close>

lemma dict_le_new_hd:
  assumes "dict_le dictionary_new d"
  shows "hd (db_strings d) = [] \<and> hd (db_functions d) = default_function \<and>
    hd (db_locations d) = default_location \<and> hd (db_stacks d) = default_stack \<and> hd (db_attributes d) = default_attribute"
  using assms by (auto simp: dict_le_def dictionary_new_def prefix_def)

text \<open>C34. A reader who resolves the indices of an export request gets back the collected profile: one
  sample for each collected sample with a positive count and a symbolised frame, in order, with its
  frames, inline symbols, thread name and its count times the sampling period, saturated at \<open>i64\<close>;
  the unit resolves to cpu nanoseconds. The tables have to stay within the non-negative \<open>i32\<close> range.\<close>

theorem profile_roundtrip:
  assumes "build_export_request version now resource c n = (r, n')" and "small (rq_dictionary r)"
  shows "\<exists>pr. rq_profiles r = [pr] \<and> pr_period pr = period_ns (cp_frequency c) \<and>
     map (dec_sample (rq_dictionary r)) (pr_samples pr) =
       map (\<lambda>s. Some (sample_view (pr_period pr) s)) (filter exported (cp_samples c)) \<and>
     map_option (\<lambda>t. (get_at (string_table (rq_dictionary r)) (vt_type_strindex t),
        get_at (string_table (rq_dictionary r)) (vt_unit_strindex t))) (pr_sample_type pr) =
       Some (Some ''cpu'', Some ''nanoseconds'')"
proof -
  obtain d pr where p: "dict_inv d" "rq_dictionary r = dictionary_build d"
    "rq_profiles r = [pr]" "pr_period pr = period_ns (cp_frequency c)"
    "list_all2 (enc_sample d (period_ns (cp_frequency c))) (filter exported (cp_samples c)) (pr_samples pr)"
    "map_option (\<lambda>t. (db_string_lookup d ''cpu'', db_string_lookup d ''nanoseconds'')) (pr_sample_type pr) =
       map_option (\<lambda>t. (Some (vt_type_strindex t), Some (vt_unit_strindex t))) (pr_sample_type pr)"
    "pr_sample_type pr \<noteq> None"
    by (rule build_export_request_parts [OF assms(1)]) blast
  from p(1,2) assms(2) have d: "sound d" by (simp add: sound_def)
  have "map (dec_sample (rq_dictionary r)) (pr_samples pr) =
      map (\<lambda>s. Some (sample_view (pr_period pr) s)) (filter exported (cp_samples c))"
    using p(5) d by (auto simp: p(2,4) list_all2_conv_all_nth list_eq_iff_nth_eq dec_enc_sample)
  with p(2-4,6,7) show ?thesis
    by (auto dest!: table_at(1) [OF d, OF sym] table_at(1) [OF d])
qed

text \<open>Interning is exact: two exported samples carry the same stack index if and only if they have the
  same frames, so equal stacks are stored once and different stacks are never confused.\<close>

theorem stack_index_iff:
  assumes "build_export_request version now resource c n = (r, n')" and "small (rq_dictionary r)"
    and "rq_profiles r = [pr]" and "i < length (pr_samples pr)" and "j < length (pr_samples pr)"
  shows "sa_stack_index (pr_samples pr ! i) = sa_stack_index (pr_samples pr ! j) \<longleftrightarrow>
    stack_view (filter exported (cp_samples c) ! i) = stack_view (filter exported (cp_samples c) ! j)"
proof -
  obtain d where p: "dict_inv d" "rq_dictionary r = dictionary_build d"
    "list_all2 (enc_sample d (period_ns (cp_frequency c))) (filter exported (cp_samples c)) (pr_samples pr)"
    using assms(3) by (auto intro: build_export_request_parts [OF assms(1)])
  from p(1,2) assms(2) have d: "sound d" by (simp add: sound_def)
  have e: "enc_stack d (stack_view (filter exported (cp_samples c) ! k)) = Some (sa_stack_index (pr_samples pr ! k))"
    if "k < length (pr_samples pr)" for k
    using p(3) that by (simp add: list_all2_conv_all_nth enc_sample_def)
  show ?thesis
    using e [OF assms(4)] e [OF assms(5)] dec_enc_stack [OF d] by (metis option.inject)
qed

text \<open>Every table of the dictionary starts with the zero value the format asks for, whatever was
  collected.\<close>

theorem dictionary_zero_values:
  "let D = rq_dictionary (fst (build_export_request version now resource c n)) in
     hd (string_table D) = [] \<and> hd (mapping_table D) = Default_mapping \<and> hd (link_table D) = Default_link \<and>
     hd (function_table D) = default_function \<and> hd (location_table D) = default_location \<and>
     hd (stack_table D) = default_stack \<and> hd (attribute_table D) = default_attribute"
proof -
  obtain r n' where b: "build_export_request version now resource c n = (r, n')" by force
  obtain d where "dict_le dictionary_new d" "rq_dictionary r = dictionary_build d"
    by (rule build_export_request_parts [OF b]) blast
  with dict_le_new_hd show ?thesis by (simp add: b dictionary_build_def)
qed

section \<open>Profile identifiers\<close>

lemma u64_be_bytes_inject: "u64_be_bytes v = u64_be_bytes w \<longleftrightarrow> v = w"
proof
  assume "u64_be_bytes v = u64_be_bytes w"
  then have b: "(ucast (drop_bit (8 * k) v) :: u8) = ucast (drop_bit (8 * k) w)" if "k < 8" for k
    using that by (auto simp: u64_be_bytes_def)
  show "v = w"
  proof (rule bit_word_eqI)
    fix n :: nat assume n: "n < LENGTH(64)"
    have "bit (ucast (drop_bit (8 * (n div 8)) u) :: u8) (n mod 8) = bit u n" for u :: u64
      by (simp add: bit_simps)
    moreover have "n div 8 < 8" using n by simp
    ultimately show "bit v n = bit w n" using b by metis
  qed
qed simp

lemma profile_ids_distinct:
  "length (fst (new_profile_id t n)) = 16 \<and>
   (fst (new_profile_id t n) = fst (new_profile_id t' m) \<longrightarrow> n = m)"
proof -
  have "length (u64_be_bytes w) = 8" for w by (simp add: u64_be_bytes_def)
  then show ?thesis by (simp add: new_profile_id_def u64_be_bytes_inject)
qed

section \<open>A profile\<close>

definition sample_of :: "string \<Rightarrow> int \<Rightarrow> string \<Rightarrow> profile_sample" where
  "sample_of name k thread = \<lparr>
     smp_frames = [\<lparr>fr_symbols = [\<lparr>sym_name = name, sym_system_name = name, sym_filename = ''m.rs'', sym_line = 10, sym_address = 4096\<rparr>]\<rparr>,
                   \<lparr>fr_symbols = []\<rparr>],
     smp_count = k, smp_thread_name = Some thread\<rparr>"

definition a_profile :: collected_profile where
  "a_profile = \<lparr>cp_samples = [sample_of ''query'' 3 ''w1'', sample_of ''query'' 0 ''w1'', sample_of ''query'' 2 '' ''],
     cp_time_unix_nano = 0, cp_duration_nano = 0, cp_frequency = 100\<rparr>"

definition a_request :: "unit export_request \<times> u64" where
  "a_request = build_export_request ''1'' 7 () a_profile 1"

lemma a_request_lengths:
  "length (string_table (rq_dictionary (fst a_request))) = 6 \<and> length (function_table (rq_dictionary (fst a_request))) = 2 \<and>
   length (location_table (rq_dictionary (fst a_request))) = 2 \<and> length (stack_table (rq_dictionary (fst a_request))) = 2 \<and>
   length (attribute_table (rq_dictionary (fst a_request))) = 2"
  by code_simp

lemma a_request_small: "small (rq_dictionary (fst a_request))"
  by (simp add: small_def a_request_lengths)

theorem profile_roundtrip_witness:
  "\<exists>pr. rq_profiles (fst a_request) = [pr] \<and> pr_period pr = 10000000 \<and>
     map (dec_sample (rq_dictionary (fst a_request))) (pr_samples pr) =
       [Some ([(4096, [((''query'', ''query'', ''m.rs''), 10)])], [(''thread.name'', Some (StringValue ''w1''))], [30000000]),
        Some ([(4096, [((''query'', ''query'', ''m.rs''), 10)])], [], [20000000])]"
proof -
  have v: "map (\<lambda>s. Some (sample_view 10000000 s)) (filter exported (cp_samples a_profile)) =
      [Some ([(4096, [((''query'', ''query'', ''m.rs''), 10)])], [(''thread.name'', Some (StringValue ''w1''))], [30000000]),
       Some ([(4096, [((''query'', ''query'', ''m.rs''), 10)])], [], [20000000])]"
    by code_simp
  have p: "period_ns (cp_frequency a_profile) = 10000000" by code_simp
  have "build_export_request ''1'' 7 () a_profile 1 = (fst a_request, snd a_request)"
    by (simp add: a_request_def)
  from profile_roundtrip [OF this a_request_small] v show ?thesis by (auto simp: p)
qed

theorem stack_index_iff_witness:
  "sa_stack_index (pr_samples (hd (rq_profiles (fst a_request))) ! 0) =
   sa_stack_index (pr_samples (hd (rq_profiles (fst a_request))) ! 1)"
proof -
  have l: "length (pr_samples (hd (rq_profiles (fst a_request)))) = 2" by code_simp
  have p: "rq_profiles (fst a_request) = [hd (rq_profiles (fst a_request))]" by code_simp
  have b: "build_export_request ''1'' 7 () a_profile 1 = (fst a_request, snd a_request)"
    by (simp add: a_request_def)
  have "stack_view (filter exported (cp_samples a_profile) ! 0) = stack_view (filter exported (cp_samples a_profile) ! 1)"
    by code_simp
  with stack_index_iff [OF b a_request_small p, of 0 1] l show ?thesis by simp
qed

end
