(* ===== verification/Request_Handler.thy ===== *)
theory Request_Handler
  imports Authority_Chain
begin

text \<open>
  The request handler (\<open>crates/doggy-dns-core/src/handler.rs\<close>): middlewares around a chain lookup, the
  response and its flags, answer rotation, and the bytes offered to the XDP cache. One request is a
  function from the handler's state to its result and the list of its visible events, in order.
  Three things belong to the hickory library and are parameters: the response metadata derived
  from a request, the wire encoding under a size limit, and whether a send succeeds.
\<close>

section \<open>Requests and responses\<close>

record metadata =
  md_id :: u16
  md_is_response :: bool
  md_op_query :: bool
  md_recursion_desired :: bool
  md_code :: response_code
  md_authoritative :: bool
  md_recursion_available :: bool

record response =
  rs_metadata :: metadata
  rs_answers :: "dns_record list"
  rs_soa :: "dns_record list"

datatype protocol = Udp | Tcp | OtherProtocol

record request_info =
  ri_name :: dns_name
  ri_type :: record_type
  ri_class :: u16

record request =
  rq_metadata :: metadata
  rq_info :: "request_info option"
  rq_protocol :: protocol
  rq_max_payload :: "u16 option"

record hickory =
  response_from_request :: "metadata \<Rightarrow> metadata"
  emit :: "response \<Rightarrow> u16 \<Rightarrow> bytes option"
  send_ok :: "nat \<Rightarrow> response \<Rightarrow> bool"

section \<open>Answer rotation\<close>

definition rotation_apply :: "bool \<Rightarrow> u64 \<Rightarrow> dns_record list \<Rightarrow> dns_record list \<times> u64" where
  "rotation_apply enabled cursor recs =
     (let len = length recs in
      if \<not> enabled \<or> len < 2 then (recs, cursor)
      else (rotate (unat cursor mod len) recs, cursor + 1))"

section \<open>Helpers\<close>

definition response_code_for_lookup_error :: "lookup_error \<Rightarrow> response_code" where
  "response_code_for_lookup_error e = (case e of
       NameExists \<Rightarrow> NoError
     | LookupResponseCode code \<Rightarrow> code
     | LookupNetError ne \<Rightarrow> if is_nx_domain ne then NXDomain
                           else if is_no_records_found ne then NoError else ServFail
     | LookupOther \<Rightarrow> ServFail)"

text \<open>The span status recorded for an outcome.\<close>

definition span_status_ok :: "request_outcome \<Rightarrow> bool" where
  "span_status_ok oc = (response_code oc = NoError \<or> response_code oc = NXDomain)"

definition XDP_CACHE_MAX_SIZE :: nat where
  "XDP_CACHE_MAX_SIZE = 512"

definition max_message_size :: "protocol \<Rightarrow> u16 option \<Rightarrow> u16" where
  "max_message_size p edns = (case p of
       Udp \<Rightarrow> (case edns of Some n \<Rightarrow> n | None \<Rightarrow> 512)
     | _ \<Rightarrow> 0xFFFF)"

definition serialize_for_xdp :: "request \<Rightarrow> (u16 \<Rightarrow> bytes option) \<Rightarrow> bytes option" where
  "serialize_for_xdp rq emit_fn = (case emit_fn (max_message_size (rq_protocol rq) (rq_max_payload rq)) of
       None \<Rightarrow> None
     | Some bs \<Rightarrow>
         if length bs > XDP_CACHE_MAX_SIZE then None
         else if 2 < length bs \<and> bs ! 2 AND 0x02 \<noteq> 0 then None
         else Some bs)"

definition take_answer_records :: "auth_lookup \<Rightarrow> dns_record list" where
  "take_answer_records l = (case l of Section rs \<Rightarrow> rs | other \<Rightarrow> lookup_records other)"

definition min_ttl_from_records :: "dns_record list \<Rightarrow> u32 option" where
  "min_ttl_from_records rs = (case map rr_ttl rs of [] \<Rightarrow> None | t # ts \<Rightarrow> Some (fold min ts t))"

definition answer_metadata :: "hickory \<Rightarrow> request \<Rightarrow> bool \<Rightarrow> metadata" where
  "answer_metadata hk rq auth =
     (response_from_request hk (rq_metadata rq))
       \<lparr>md_is_response := True, md_op_query := True, md_code := NoError,
        md_authoritative := auth, md_recursion_available := \<not> auth\<rparr>"

definition error_metadata :: "hickory \<Rightarrow> request \<Rightarrow> response_code \<Rightarrow> bool \<Rightarrow> metadata" where
  "error_metadata hk rq code auth =
     (response_from_request hk (rq_metadata rq))
       \<lparr>md_is_response := True, md_op_query := True, md_code := code,
        md_authoritative := auth, md_recursion_available := \<not> auth\<rparr>"

definition error_response :: "hickory \<Rightarrow> request \<Rightarrow> response_code \<Rightarrow> bool \<Rightarrow> dns_record option \<Rightarrow> response" where
  "error_response hk rq code auth soa =
     \<lparr>rs_metadata = error_metadata hk rq code auth, rs_answers = [], rs_soa = (case soa of None \<Rightarrow> [] | Some r \<Rightarrow> [r])\<rparr>"

section \<open>Events\<close>

datatype handler_event =
    Ev_before nat
  | Ev_sent response bool
  | Ev_finish request_outcome
  | Ev_after nat request_outcome

text \<open>\<open>finish\<close> records the outcome and runs every middleware's \<open>after_request\<close>.\<close>

definition finish :: "nat \<Rightarrow> request_outcome \<Rightarrow> handler_event list" where
  "finish n oc = Ev_finish oc # map (\<lambda>k. Ev_after k oc) [0..<n]"

text \<open>\<open>send_error\<close> as the \<open>k\<close>-th send of the request: the response info returned and the event.\<close>

definition send_error ::
  "hickory \<Rightarrow> request \<Rightarrow> nat \<Rightarrow> response_code \<Rightarrow> bool \<Rightarrow> dns_record option \<Rightarrow> metadata \<times> handler_event list" where
  "send_error hk rq k code auth soa =
     (let r = error_response hk rq code auth soa in
      if send_ok hk k r then (rs_metadata r, [Ev_sent r True])
      else ((error_metadata hk rq ServFail False)\<lparr>md_code := ServFail\<rparr>, [Ev_sent r False]))"

section \<open>One request\<close>

record 'i handler_state =
  hs_chain :: "'i named_handler list"
  hs_cursor :: u64

record handler_config =
  hc_xdp_enabled :: bool
  hc_rotate :: bool
  hc_before :: "(request \<Rightarrow> middleware_action) list"

text \<open>The loop over \<open>before_request\<close>: the events, and whether one short-circuited.\<close>

fun run_before :: "nat \<Rightarrow> (request \<Rightarrow> middleware_action) list \<Rightarrow> request \<Rightarrow> handler_event list \<times> bool" where
  "run_before k [] rq = ([], False)"
| "run_before k (b # bs) rq =
     (case b rq of
        ShortCircuit \<Rightarrow> ([Ev_before k], True)
      | Continue_Request \<Rightarrow> let (ev, sc) = run_before (k + 1) bs rq in (Ev_before k # ev, sc))"

definition handler_name_of :: "resolve_result \<Rightarrow> string" where
  "handler_name_of r = (case rr_handler_name r of Some n \<Rightarrow> n | None \<Rightarrow> ''none'')"

text \<open>The three arms of the match on the chain's outcome: response info, events, outcome, cursor.\<close>

definition answer_positive ::
  "hickory \<Rightarrow> handler_config \<Rightarrow> request \<Rightarrow> resolve_result \<Rightarrow> auth_lookup \<Rightarrow> u64 \<Rightarrow>
     metadata \<times> handler_event list \<times> request_outcome \<times> u64" where
  "answer_positive hk cfg rq rr l cursor =
     (let (recs, cursor') = rotation_apply (hc_rotate cfg) cursor (take_answer_records l);
          md = answer_metadata hk rq (rr_authoritative rr);
          resp = \<lparr>rs_metadata = md, rs_answers = recs, rs_soa = []\<rparr>;
          resp_bytes = (if hc_xdp_enabled cfg then serialize_for_xdp rq (emit hk resp) else None);
          min_ttl = (if hc_xdp_enabled cfg then min_ttl_from_records recs else None)
      in if send_ok hk 0 resp
         then (md, [Ev_sent resp True], outcome_success (handler_name_of rr) (length recs) resp_bytes min_ttl, cursor')
         else let (info, ev) = send_error hk rq 1 ServFail False None
              in (info, Ev_sent resp False # ev, outcome_authority_error ServFail (handler_name_of rr), cursor'))"

definition answer_negative ::
  "hickory \<Rightarrow> handler_config \<Rightarrow> request \<Rightarrow> resolve_result \<Rightarrow> lookup_error \<Rightarrow>
     metadata \<times> handler_event list \<times> request_outcome" where
  "answer_negative hk cfg rq rr e =
     (let code = response_code_for_lookup_error e;
          negative_cacheable = (code = NoError \<or> code = NXDomain);
          resp_bytes = (if hc_xdp_enabled cfg \<and> negative_cacheable
             then serialize_for_xdp rq (emit hk (error_response hk rq code (rr_authoritative rr) (rr_soa rr)))
             else None);
          oc = (outcome_authority_error code (handler_name_of rr))\<lparr>response_bytes := resp_bytes\<rparr>;
          (info, ev) = send_error hk rq 0 code (rr_authoritative rr) (rr_soa rr)
      in (info, ev, oc))"

definition answer_skip ::
  "hickory \<Rightarrow> handler_config \<Rightarrow> request \<Rightarrow> metadata \<times> handler_event list \<times> request_outcome" where
  "answer_skip hk cfg rq =
     (let resp_bytes = (if hc_xdp_enabled cfg
             then serialize_for_xdp rq (emit hk (error_response hk rq NXDomain False None)) else None);
          (info, ev) = send_error hk rq 0 NXDomain False None
      in (info, ev, outcome_nxdomain resp_bytes))"

definition answer ::
  "hickory \<Rightarrow> handler_config \<Rightarrow> request \<Rightarrow> resolve_result \<Rightarrow> u64 \<Rightarrow>
     metadata \<times> handler_event list \<times> request_outcome \<times> u64" where
  "answer hk cfg rq rr cursor = (case rr_outcome rr of
       CF_Continue (Inr l) \<Rightarrow> answer_positive hk cfg rq rr l cursor
     | CF_Break (Inr l) \<Rightarrow> answer_positive hk cfg rq rr l cursor
     | CF_Continue (Inl e) \<Rightarrow> let (info, ev, oc) = answer_negative hk cfg rq rr e in (info, ev, oc, cursor)
     | CF_Break (Inl e) \<Rightarrow> let (info, ev, oc) = answer_negative hk cfg rq rr e in (info, ev, oc, cursor)
     | CF_Skip \<Rightarrow> let (info, ev, oc) = answer_skip hk cfg rq in (info, ev, oc, cursor))"

definition handle_request ::
  "hickory \<Rightarrow> handler_config \<Rightarrow> request \<Rightarrow> request_info handler_state \<Rightarrow>
     metadata \<times> handler_event list \<times> request_info handler_state" where
  "handle_request hk cfg rq st =
     (let n = length (hc_before cfg); (ev0, short) = run_before 0 (hc_before cfg) rq in
      if short then
        let oc = outcome_error Refused; (info, ev) = send_error hk rq 0 Refused False None
        in (info, ev0 @ finish n oc @ ev, st)
      else case rq_info rq of
        None \<Rightarrow>
          let oc = outcome_error FormErr; (info, ev) = send_error hk rq 0 FormErr False None
          in (info, ev0 @ finish n oc @ ev, st)
      | Some ri \<Rightarrow>
          let (rr, chain') = resolve (hs_chain st) (ri_name ri) (ri_type ri) (Some ri);
              (info, ev, oc, cursor') = answer hk cfg rq rr (hs_cursor st)
          in (info, ev0 @ ev @ finish n oc, \<lparr>hs_chain = chain', hs_cursor = cursor'\<rparr>))"


section \<open>Bookkeeping happens exactly once\<close>

definition is_sent :: "handler_event \<Rightarrow> bool" where
  "is_sent e = (case e of Ev_sent _ _ \<Rightarrow> True | _ \<Rightarrow> False)"

definition is_after :: "handler_event \<Rightarrow> bool" where
  "is_after e = (case e of Ev_after _ _ \<Rightarrow> True | _ \<Rightarrow> False)"

definition is_finish :: "handler_event \<Rightarrow> bool" where
  "is_finish e = (case e of Ev_finish _ \<Rightarrow> True | _ \<Rightarrow> False)"

lemmas event_kinds = is_sent_def is_after_def is_finish_def

lemma run_before_events: "e \<in> set (fst (run_before k bs rq)) \<Longrightarrow> \<exists>j. e = Ev_before j"
proof (induction bs arbitrary: k)
  case (Cons b bs)
  from Cons(2) have "e = Ev_before k \<or> e \<in> set (fst (run_before (k + 1) bs rq))"
    by (auto simp: split_beta Let_def split: middleware_action.splits)
  with Cons(1) show ?case by blast
qed simp

lemma send_error_events: "\<exists>ok. snd (send_error hk rq k code auth soa) = [Ev_sent (error_response hk rq code auth soa) ok]"
  by (auto simp: send_error_def Let_def)

lemma send_error_sent:
  "send_error hk rq k code auth soa = (info, ev) \<Longrightarrow> \<exists>ok. ev = [Ev_sent (error_response hk rq code auth soa) ok]"
  using send_error_events [of hk rq k code auth soa] by auto

lemma answer_positive_events:
  "answer_positive hk cfg rq rr l c = (info, ev, oc, c') \<Longrightarrow> list_all is_sent ev"
  by (auto simp: answer_positive_def Let_def is_sent_def dest!: send_error_sent split: prod.splits if_splits)

lemma answer_events: "answer hk cfg rq rr c = (info, ev, oc, c') \<Longrightarrow> list_all is_sent ev"
  by (auto simp: answer_def answer_negative_def answer_skip_def Let_def is_sent_def [of "Ev_sent _ _"]
      dest!: send_error_sent answer_positive_events split: control_flow.splits sum.splits prod.splits)

lemma filter_finish:
  "filter is_after (finish n oc) = map (\<lambda>k. Ev_after k oc) [0..<n]"
  "filter is_finish (finish n oc) = [Ev_finish oc]"
  by (auto simp: finish_def event_kinds filter_map comp_def)

text \<open>The hooks that ran are a prefix: all of them, or up to the first that short-circuits.\<close>

lemma run_before_prefix:
  "run_before k bs rq = (ev, short) \<Longrightarrow> \<exists>j \<le> length bs. ev = map Ev_before [k..<k + j] \<and>
     (\<forall>i. Suc i < j \<longrightarrow> (bs ! i) rq = Continue_Request) \<and>
     (if short then 0 < j \<and> (bs ! (j - 1)) rq = ShortCircuit else j = length bs \<and> list_all (\<lambda>b. b rq = Continue_Request) bs)"
proof (induction bs arbitrary: k ev short)
  case (Cons b bs)
  show ?case
  proof (cases "b rq")
    case ShortCircuit
    with Cons(2) show ?thesis by (intro exI [of _ 1]) auto
  next
    case Continue_Request
    then obtain ev' where r: "run_before (Suc k) bs rq = (ev', short)" "ev = Ev_before k # ev'"
      using Cons(2) by (auto split: prod.splits)
    from Cons(1) [OF r(1)] obtain j where j: "j \<le> length bs" "ev' = map Ev_before [Suc k..<Suc k + j]"
      "\<forall>i. Suc i < j \<longrightarrow> (bs ! i) rq = Continue_Request"
      "if short then 0 < j \<and> (bs ! (j - 1)) rq = ShortCircuit else j = length bs \<and> list_all (\<lambda>b. b rq = Continue_Request) bs"
      by blast
    have "ev = map Ev_before [k..<k + Suc j]" using r(2) j(2) by (simp add: upt_rec [of k])
    moreover have "((b # bs) ! i) rq = Continue_Request" if "Suc i < Suc j" for i
      using that j(3) Continue_Request by (cases i) auto
    ultimately show ?thesis using j(1,4) Continue_Request
      by (intro exI [of _ "Suc j"]) (auto simp: nth_Cons' split: if_splits)
  qed
qed simp

definition one_or_retried :: "handler_event list \<Rightarrow> bool" where
  "one_or_retried ss = ((\<exists>r ok. ss = [Ev_sent r ok]) \<or> (\<exists>r r' ok. ss = [Ev_sent r False, Ev_sent r' ok]))"

lemma send_error_one: "one_or_retried (snd (send_error hk rq k code auth soa))"
  using send_error_events [of hk rq k code auth soa] by (auto simp: one_or_retried_def)

lemma answer_one: "answer hk cfg rq rr c = (info, ev, oc, c') \<Longrightarrow> one_or_retried ev"
  by (auto simp: answer_def answer_positive_def answer_negative_def answer_skip_def Let_def one_or_retried_def
      dest!: send_error_sent split: control_flow.splits sum.splits prod.splits if_splits)

text \<open>C13. Every request is accounted for exactly once, and these are all the events it causes, in this order: \<open>before_request\<close>
  on the middlewares in turn, on all of them or up to the first that short-circuits; one response sent, or a second
  one after the first failed to be sent; the outcome recorded once, and \<open>after_request\<close> exactly once on every
  middleware, in order and with that outcome. The response goes out before the bookkeeping or, for a request that was
  short-circuited or could not be read, after it.\<close>

theorem finish_exactly_once:
  "\<exists>oc j ss. let evs = fst (snd (handle_request hk cfg rq st)); n = length (hc_before cfg);
       before = map Ev_before [0..<j]; fin = Ev_finish oc # map (\<lambda>k. Ev_after k oc) [0..<n];
       short = (\<exists>i < n. (hc_before cfg ! i) rq = ShortCircuit) in
     evs = (if short \<or> rq_info rq = None then before @ fin @ ss else before @ ss @ fin) \<and>
     ((\<exists>r ok. ss = [Ev_sent r ok]) \<or> (\<exists>r r' ok. ss = [Ev_sent r False, Ev_sent r' ok])) \<and>
     list_all (\<lambda>b. b rq = Continue_Request) (take (j - 1) (hc_before cfg)) \<and>
     (if short then 0 < j \<and> j \<le> n \<and> (hc_before cfg ! (j - 1)) rq = ShortCircuit else j = n)"
proof -
  obtain ev0 short where b: "run_before 0 (hc_before cfg) rq = (ev0, short)" by force
  from run_before_prefix [OF this] obtain j where j: "j \<le> length (hc_before cfg)" "ev0 = map Ev_before [0..<j]"
    "\<forall>i. Suc i < j \<longrightarrow> (hc_before cfg ! i) rq = Continue_Request"
    "if short then 0 < j \<and> (hc_before cfg ! (j - 1)) rq = ShortCircuit
     else j = length (hc_before cfg) \<and> list_all (\<lambda>b. b rq = Continue_Request) (hc_before cfg)" by auto
  have s: "(\<exists>i < length (hc_before cfg). (hc_before cfg ! i) rq = ShortCircuit) = short"
  proof (cases short)
    case True
    with j(1,4) show ?thesis by (auto intro!: exI [of _ "j - 1"])
  qed (use j(4) in \<open>auto simp: list_all_length\<close>)
  have "\<exists>oc ss. one_or_retried ss \<and> fst (snd (handle_request hk cfg rq st)) =
      (if short \<or> rq_info rq = None then ev0 @ finish (length (hc_before cfg)) oc @ ss else ev0 @ ss @ finish (length (hc_before cfg)) oc)"
  proof (cases "short \<or> rq_info rq = None")
    case True
    let ?code = "if short then Refused else FormErr"
    have "fst (snd (handle_request hk cfg rq st)) =
        ev0 @ finish (length (hc_before cfg)) (outcome_error ?code) @ snd (send_error hk rq 0 ?code False None)"
      using True b by (auto simp: handle_request_def Let_def split: prod.splits option.splits)
    with True send_error_one [of hk rq 0 ?code False None] show ?thesis
      by (intro exI [of _ "outcome_error ?code"] exI [of _ "snd (send_error hk rq 0 ?code False None)"]) simp
  next
    case False
    then obtain ri where ri: "rq_info rq = Some ri" by auto
    obtain rr ch where r: "resolve (hs_chain st) (ri_name ri) (ri_type ri) (Some ri) = (rr, ch)" by force
    obtain info ev oc c where a: "answer hk cfg rq rr (hs_cursor st) = (info, ev, oc, c)" by (metis prod_cases4)
    have "fst (snd (handle_request hk cfg rq st)) = ev0 @ ev @ finish (length (hc_before cfg)) oc"
      using False b ri r a by (simp add: handle_request_def)
    with False answer_one [OF a] show ?thesis by (intro exI [of _ oc] exI [of _ ev]) auto
  qed
  then obtain oc ss where o: "one_or_retried ss" and e: "fst (snd (handle_request hk cfg rq st)) =
      (if short \<or> rq_info rq = None then ev0 @ finish (length (hc_before cfg)) oc @ ss else ev0 @ ss @ finish (length (hc_before cfg)) oc)" by blast
  have p: "list_all (\<lambda>b. b rq = Continue_Request) (take (j - 1) (hc_before cfg))"
    using j(1,3) by (auto simp: list_all_length)
  have k: "if short then 0 < j \<and> j \<le> length (hc_before cfg) \<and> (hc_before cfg ! (j - 1)) rq = ShortCircuit else j = length (hc_before cfg)"
    using j(1,4) by (cases short) simp_all
  show ?thesis
    unfolding Let_def s e
    by (intro exI [of _ oc] exI [of _ j] exI [of _ ss] conjI p k o [unfolded one_or_retried_def])
      (simp only: j(2) finish_def)
qed

text \<open>A short-circuited request breaks the pairing of the two hooks: with two middlewares of which
  the first short-circuits, \<open>before_request\<close> runs on the first only and \<open>after_request\<close> on both.\<close>

theorem short_circuit_unpaired:
  "\<exists>oc. let ev = fst (snd (handle_request hk \<lparr>hc_xdp_enabled = x, hc_rotate = r,
        hc_before = [\<lambda>_. ShortCircuit, \<lambda>_. Continue_Request]\<rparr> rq st)) in
     filter (\<lambda>e. \<exists>j. e = Ev_before j) ev = [Ev_before 0] \<and>
     filter is_after ev = [Ev_after 0 oc, Ev_after 1 oc]"
  using send_error_events [of hk rq 0 Refused False None]
  by (auto simp: handle_request_def Let_def finish_def event_kinds upt_rec split: prod.splits)


section \<open>What is sent\<close>

definition response_ok :: "response \<Rightarrow> bool" where
  "response_ok r = (md_is_response (rs_metadata r) \<and> md_op_query (rs_metadata r) \<and>
     md_recursion_available (rs_metadata r) = (\<not> md_authoritative (rs_metadata r)) \<and>
     (rs_answers r = [] \<or> md_code (rs_metadata r) = NoError \<and> rs_soa r = []))"

lemma error_response_ok [simp]: "response_ok (error_response hk rq code auth soa)"
  by (simp add: response_ok_def error_response_def error_metadata_def)

lemma md_code_error [simp]: "md_code (rs_metadata (error_response hk rq code auth soa)) = code"
  by (simp add: error_response_def error_metadata_def)

text \<open>One answered lookup: the responses sent, and how the recorded outcome follows the last one.\<close>

definition answer_ok :: "handler_event list \<Rightarrow> request_outcome \<Rightarrow> bool" where
  "answer_ok ev oc =
     ((\<exists>r ok. ev = [Ev_sent r ok] \<and> response_ok r \<and> md_code (rs_metadata r) = response_code oc) \<or>
      (\<exists>r r' ok. ev = [Ev_sent r False, Ev_sent r' ok] \<and> response_ok r \<and> response_ok r' \<and>
        md_code (rs_metadata r') = ServFail \<and> response_code oc = ServFail))"

lemma answer_positive_ok:
  "answer_positive hk cfg rq rr l c = (info, ev, oc, c') \<Longrightarrow> answer_ok ev oc"
  by (auto simp: answer_positive_def answer_ok_def response_ok_def [of "\<lparr>rs_metadata = _, rs_answers = _, rs_soa = _\<rparr>"]
      answer_metadata_def outcome_defs Let_def dest!: send_error_sent split: prod.splits if_splits)

lemma answer_is_ok: "answer hk cfg rq rr c = (info, ev, oc, c') \<Longrightarrow> answer_ok ev oc"
  by (auto simp: answer_def answer_negative_def answer_skip_def Let_def
      dest!: send_error_sent answer_positive_ok split: control_flow.splits sum.splits prod.splits)
    (auto simp: answer_ok_def outcome_defs)

lemma handle_request_sent:
  "\<exists>oc. filter is_finish (fst (snd (handle_request hk cfg rq st))) = [Ev_finish oc] \<and>
     answer_ok (filter is_sent (fst (snd (handle_request hk cfg rq st)))) oc"
proof -
  obtain ev0 short where b: "run_before 0 (hc_before cfg) rq = (ev0, short)" by force
  then have e0: "\<forall>e \<in> set ev0. \<exists>j. e = Ev_before j"
    using run_before_events [of _ 0 "hc_before cfg" rq] by auto
  then have f0: "filter is_sent ev0 = []" "filter is_finish ev0 = []"
    by (auto simp: filter_empty_conv event_kinds)
  have fs: "filter is_sent (finish n oc) = []" for n oc
    by (auto simp: finish_def event_kinds filter_empty_conv)
  show ?thesis
  proof (cases "short \<or> rq_info rq = None")
    case True
    let ?code = "if short then Refused else FormErr"
    obtain ok where s: "snd (send_error hk rq 0 ?code False None) = [Ev_sent (error_response hk rq ?code False None) ok]"
      using send_error_events by blast
    have "fst (snd (handle_request hk cfg rq st)) =
        ev0 @ finish (length (hc_before cfg)) (outcome_error ?code) @ snd (send_error hk rq 0 ?code False None)"
      using True b by (auto simp: handle_request_def Let_def split: prod.splits option.splits)
    moreover have "answer_ok [Ev_sent (error_response hk rq ?code False None) ok] (outcome_error ?code)"
      by (simp add: answer_ok_def outcome_defs)
    ultimately show ?thesis
      by (intro exI [of _ "outcome_error ?code"]) (simp add: f0 fs filter_finish s event_kinds)
  next
    case False
    then obtain ri where ri: "rq_info rq = Some ri" by auto
    obtain rr ch where r: "resolve (hs_chain st) (ri_name ri) (ri_type ri) (Some ri) = (rr, ch)" by force
    obtain info ev oc c where a: "answer hk cfg rq rr (hs_cursor st) = (info, ev, oc, c)" by (metis prod_cases4)
    have "fst (snd (handle_request hk cfg rq st)) = ev0 @ ev @ finish (length (hc_before cfg)) oc"
      using False b ri r a by (simp add: handle_request_def)
    moreover have "filter is_sent ev = ev" "filter is_finish ev = []"
      using answer_events [OF a] by (auto simp: list_all_iff filter_empty_conv event_kinds split: handler_event.splits)
    ultimately show ?thesis using answer_is_ok [OF a] by (auto simp: f0 fs filter_finish)
  qed
qed

text \<open>C16. Every response the server sends is well formed and the books agree with it: it is a query response
  whose AA and RA flags are complementary, it carries answers only with NOERROR and never together
  with a SOA; one response is sent, or a second one, SERVFAIL, after the first failed; and the outcome recorded
  for the request has the code of the last response.\<close>

theorem responses_well_formed:
  "\<exists>oc. filter is_finish (fst (snd (handle_request hk cfg rq st))) = [Ev_finish oc] \<and>
     ((\<exists>r ok. filter is_sent (fst (snd (handle_request hk cfg rq st))) = [Ev_sent r ok] \<and>
         response_ok r \<and> md_code (rs_metadata r) = response_code oc) \<or>
      (\<exists>r r' ok. filter is_sent (fst (snd (handle_request hk cfg rq st))) = [Ev_sent r False, Ev_sent r' ok] \<and>
         response_ok r \<and> response_ok r' \<and> md_code (rs_metadata r') = ServFail \<and> response_code oc = ServFail))"
  using handle_request_sent [of hk cfg rq st] unfolding answer_ok_def .


section \<open>What is offered to the XDP cache\<close>

lemma serialize_for_xdp_Some:
  "serialize_for_xdp rq f = Some b \<Longrightarrow>
     length b \<le> 512 \<and> \<not> (2 < length b \<and> b ! 2 AND 0x02 \<noteq> 0) \<and>
     f (max_message_size (rq_protocol rq) (rq_max_payload rq)) = Some b"
  by (auto simp: serialize_for_xdp_def XDP_CACHE_MAX_SIZE_def split: option.splits if_splits)

text \<open>The bytes of an outcome are the encoding of a response that was sent with the outcome's code.\<close>

definition bytes_ok :: "hickory \<Rightarrow> handler_config \<Rightarrow> request \<Rightarrow> handler_event list \<Rightarrow> request_outcome \<Rightarrow> bytes \<Rightarrow> bool" where
  "bytes_ok hk cfg rq ev oc b =
     (hc_xdp_enabled cfg \<and> length b \<le> 512 \<and> \<not> (2 < length b \<and> b ! 2 AND 0x02 \<noteq> 0) \<and>
      response_code oc \<in> {NoError, NXDomain} \<and>
      (\<exists>r ok. Ev_sent r ok \<in> set ev \<and> md_code (rs_metadata r) = response_code oc \<and>
         emit hk r (max_message_size (rq_protocol rq) (rq_max_payload rq)) = Some b \<and>
         min_answer_ttl oc = min_ttl_from_records (rs_answers r)))"

lemma min_ttl_Nil [simp]: "min_ttl_from_records [] = None"
  by (simp add: min_ttl_from_records_def)

lemma answer_positive_bytes:
  "answer_positive hk cfg rq rr l c = (info, ev, oc, c') \<Longrightarrow> response_bytes oc = Some b \<Longrightarrow> bytes_ok hk cfg rq ev oc b"
  by (auto simp: answer_positive_def bytes_ok_def outcome_defs Let_def answer_metadata_def
      dest!: serialize_for_xdp_Some split: prod.splits if_splits)

lemma error_response_no_answers [simp]: "rs_answers (error_response hk rq code auth soa) = []"
  by (simp add: error_response_def)

lemma answer_bytes:
  "answer hk cfg rq rr c = (info, ev, oc, c') \<Longrightarrow> response_bytes oc = Some b \<Longrightarrow> bytes_ok hk cfg rq ev oc b"
proof -
  assume a: "answer hk cfg rq rr c = (info, ev, oc, c')" and b: "response_bytes oc = Some b"
  have neg: "bytes_ok hk cfg rq ev oc b"
    if "answer_negative hk cfg rq rr e = (info, ev, oc)" for e
    using that b
    by (auto simp: answer_negative_def bytes_ok_def outcome_defs Let_def
        dest!: serialize_for_xdp_Some send_error_sent split: prod.splits if_splits)
  have skip: "bytes_ok hk cfg rq ev oc b" if "answer_skip hk cfg rq = (info, ev, oc)"
    using that b
    by (auto simp: answer_skip_def bytes_ok_def outcome_defs Let_def
        dest!: serialize_for_xdp_Some send_error_sent split: prod.splits if_splits)
  show ?thesis
    using a b by (auto simp: answer_def intro: answer_positive_bytes neg skip split: control_flow.splits sum.splits prod.splits)
qed

lemma finished_bytes:
  assumes "Ev_finish oc \<in> set (fst (snd (handle_request hk cfg rq st)))" and "response_bytes oc = Some b"
  shows "bytes_ok hk cfg rq (fst (snd (handle_request hk cfg rq st))) oc b"
proof -
  obtain ev0 short where b: "run_before 0 (hc_before cfg) rq = (ev0, short)" by force
  then have e0: "Ev_finish oc \<notin> set ev0"
    using run_before_events [of _ 0 "hc_before cfg" rq] by auto
  have fin: "Ev_finish oc \<in> set (finish n oc') \<longleftrightarrow> oc = oc'" for n oc' by (auto simp: finish_def)
  show ?thesis
  proof (cases "short \<or> rq_info rq = None")
    case True
    let ?code = "if short then Refused else FormErr"
    have "fst (snd (handle_request hk cfg rq st)) =
        ev0 @ finish (length (hc_before cfg)) (outcome_error ?code) @ snd (send_error hk rq 0 ?code False None)"
      using True b by (auto simp: handle_request_def Let_def split: prod.splits option.splits)
    with assms e0 fin have "oc = outcome_error ?code"
      using send_error_events [of hk rq 0 ?code False None] by auto
    with assms(2) show ?thesis by (simp add: outcome_defs)
  next
    case False
    then obtain ri where ri: "rq_info rq = Some ri" by auto
    obtain rr ch where r: "resolve (hs_chain st) (ri_name ri) (ri_type ri) (Some ri) = (rr, ch)" by force
    obtain info ev oc' c where a: "answer hk cfg rq rr (hs_cursor st) = (info, ev, oc', c)" by (metis prod_cases4)
    have e: "fst (snd (handle_request hk cfg rq st)) = ev0 @ ev @ finish (length (hc_before cfg)) oc'"
      using False b ri r a by (simp add: handle_request_def)
    have "Ev_finish oc \<notin> set ev" using answer_events [OF a] by (auto simp: list_all_iff is_sent_def)
    with assms(1) e e0 fin have "oc' = oc" by auto
    with answer_bytes [OF a] assms(2) e show ?thesis unfolding bytes_ok_def by auto
  qed
qed

text \<open>C15. Only complete, small answers reach the XDP cache: the bytes of an outcome exist only with the
  fast path enabled, fit the 512 bytes of a cache value, do not have the TC bit, belong to NOERROR or
  NXDOMAIN, are the encoding of the response that was sent with that code, and travel with the smallest
  TTL of its answers.\<close>

theorem xdp_admission:
  assumes "Ev_finish oc \<in> set (fst (snd (handle_request hk cfg rq st)))" and "response_bytes oc = Some b"
  shows "hc_xdp_enabled cfg \<and> length b \<le> 512 \<and> \<not> (2 < length b \<and> b ! 2 AND 0x02 \<noteq> 0) \<and>
     response_code oc \<in> {NoError, NXDomain} \<and>
     (\<exists>r ok. Ev_sent r ok \<in> set (fst (snd (handle_request hk cfg rq st))) \<and>
        md_code (rs_metadata r) = response_code oc \<and>
        emit hk r (max_message_size (rq_protocol rq) (rq_max_payload rq)) = Some b \<and>
        min_answer_ttl oc = min_ttl_from_records (rs_answers r))"
  using finished_bytes [OF assms] by (simp add: bytes_ok_def)

definition sample_hickory :: hickory where
  "sample_hickory = \<lparr>response_from_request = (\<lambda>m. m), emit = (\<lambda>r n. Some [0, 7, 128, 3]), send_ok = (\<lambda>k r. True)\<rparr>"

definition sample_request :: request where
  "sample_request = \<lparr>rq_metadata = \<lparr>md_id = 7, md_is_response = False, md_op_query = True, md_recursion_desired = True,
       md_code = NoError, md_authoritative = False, md_recursion_available = False\<rparr>,
     rq_info = Some \<lparr>ri_name = [[97]], ri_type = RT_A, ri_class = 1\<rparr>, rq_protocol = Udp, rq_max_payload = None\<rparr>"

theorem xdp_admission_witness:
  "let hk = sample_hickory; cfg = \<lparr>hc_xdp_enabled = True, hc_rotate = True, hc_before = []\<rparr>;
       st = \<lparr>hs_chain = [], hs_cursor = 0\<rparr>; ev = fst (snd (handle_request hk cfg sample_request st));
       oc = outcome_nxdomain (Some [0, 7, 128, 3]) in
   Ev_finish oc \<in> set ev \<and> (\<exists>r ok. Ev_sent r ok \<in> set ev \<and> emit hk r 512 = Some [0, 7, 128, 3])"
proof -
  let ?cfg = "\<lparr>hc_xdp_enabled = True, hc_rotate = True, hc_before = []\<rparr>" and ?st = "\<lparr>hs_chain = [], hs_cursor = 0\<rparr>"
  have e: "Ev_finish (outcome_nxdomain (Some [0, 7, 128, 3])) \<in>
      set (fst (snd (handle_request sample_hickory ?cfg sample_request ?st)))"
    by (simp add: handle_request_def sample_request_def sample_hickory_def answer_def answer_skip_def Let_def
        serialize_for_xdp_def XDP_CACHE_MAX_SIZE_def send_error_def finish_def)
  from xdp_admission [OF e, of "[0, 7, 128, 3]"] e show ?thesis
    by (auto simp: Let_def outcome_nxdomain_def sample_request_def max_message_size_def)
qed

section \<open>Rotation is fair\<close>

lemma rotation_hd:
  assumes "2 \<le> length recs"
  shows "hd (fst (rotation_apply True c recs)) = recs ! (unat c mod length recs)"
proof -
  have "recs \<noteq> []" using assms by auto
  with assms show ?thesis by (simp add: rotation_apply_def Let_def hd_rotate_conv_nth)
qed

lemma mset_rot: "mset (rotate n xs) = mset xs"
proof -
  have "mset (rotate n xs) = mset (take (n mod length xs) xs @ drop (n mod length xs) xs)"
    unfolding rotate_drop_take by (simp add: add.commute del: append_take_drop_id)
  then show ?thesis by simp
qed

lemma map_nth_mod: "map (\<lambda>j. xs ! ((c + j) mod length xs)) [0..<length xs] = rotate c xs"
  by (rule nth_equalityI) (auto simp: nth_rotate add.commute)

text \<open>C17. Rotation neither loses, repeats nor invents records, and it is fair: over as many consecutive
  rotated responses as there are records (and no wrap of the 64-bit cursor), every record leads exactly
  once.\<close>

theorem rotation_fair:
  assumes "2 \<le> length recs" and "unat c + length recs \<le> 2 ^ 64"
  shows "mset (fst (rotation_apply b c recs)) = mset recs \<and>
     mset (map (\<lambda>j. hd (fst (rotation_apply True (c + of_nat j) recs))) [0..<length recs]) = mset recs \<and>
     snd (rotation_apply True c recs) = c + 1"
proof -
  have u: "unat (c + of_nat j) = unat c + j" if "j < length recs" for j
    using that assms(2) by (simp add: unat_word_ariths unat_of_nat)
  have "map (\<lambda>j. hd (fst (rotation_apply True (c + of_nat j) recs))) [0..<length recs] =
        map (\<lambda>j. recs ! ((unat c + j) mod length recs)) [0..<length recs]"
    by (rule map_cong) (auto simp: rotation_hd [OF assms(1)] u)
  then have "mset (map (\<lambda>j. hd (fst (rotation_apply True (c + of_nat j) recs))) [0..<length recs]) = mset recs"
    by (simp add: map_nth_mod mset_rot)
  then show ?thesis using assms(1) by (simp add: rotation_apply_def Let_def mset_rot)
qed

theorem rotation_fair_witness:
  "let r1 = sample_soa; r2 = sample_soa\<lparr>rr_ttl := 61\<rparr> in
   mset (map (\<lambda>j. hd (fst (rotation_apply True (5 + of_nat j) [r1, r2]))) [0..<length [r1, r2]]) = mset [r1, r2]"
  unfolding Let_def
  using rotation_fair [of "[sample_soa, sample_soa\<lparr>rr_ttl := 61\<rparr>]" 5 True, THEN conjunct2, THEN conjunct1]
  by simp

text \<open>Forwarding keeps the upstream's verdict: the code the forward authority classifies a resolver failure
  as is the code the handler answers with.\<close>

theorem forward_code_preserved:
  "response_code_for_lookup_error (snd (classify_error e)) = fst (classify_error e)"
  by (simp add: classify_error_def response_code_for_lookup_error_def Let_def)

end
