(* ===== verification/Otlp_Runtime.thy ===== *)
theory Otlp_Runtime
  imports Otlp_Profiles Request_Handler
begin

text \<open>
  The telemetry runtime of \<open>doggy-dns-observability\<close>: building and shutting down the providers (\<open>lib.rs\<close>, \<open>logs.rs\<close>,
  \<open>metrics.rs\<close>, \<open>traces.rs\<close>), the error-biased sampler (\<open>sampler.rs\<close>), the error event layer (\<open>error_events.rs\<close>), the
  in-flight metric middleware (\<open>metrics.rs\<close>).
  The OpenTelemetry SDK and the \<open>tracing\<close> subscriber are arguments: whether an exporter
  builds, how a ratio sampler decides, how a level name parses.
\<close>

section \<open>Sampling\<close>

datatype sampling_decision = Drop | RecordOnly | RecordAndSample

record span_context =
  sc_valid :: bool
  sc_sampled :: bool
  sc_trace_state :: "(string \<times> string) list"

record sampling_result =
  sr_decision :: sampling_decision
  sr_trace_state :: "(string \<times> string) list"

definition ERROR_SPAN_NAME :: string where
  "ERROR_SPAN_NAME = ''dns.error''"

text \<open>\<open>ratio_sampler\<close> is the SDK's decision for the request at hand.\<close>

definition should_sample :: "sampling_result \<Rightarrow> span_context option \<Rightarrow> string \<Rightarrow> sampling_result" where
  "should_sample ratio_sampler parent name = (
     let valid_parent = (case parent of Some p \<Rightarrow> if sc_valid p then Some p else None | None \<Rightarrow> None);
         trace_state = (case valid_parent of Some p \<Rightarrow> sc_trace_state p | None \<Rightarrow> [])
     in if name = ERROR_SPAN_NAME then \<lparr>sr_decision = RecordAndSample, sr_trace_state = trace_state\<rparr>
        else (case valid_parent of
                Some p \<Rightarrow> \<lparr>sr_decision = (if sc_sampled p then RecordAndSample else Drop), sr_trace_state = trace_state\<rparr>
              | None \<Rightarrow> ratio_sampler))"

section \<open>Events, filters and error spans\<close>

datatype level = L_error | L_warn | L_info | L_debug | L_trace

text \<open>The order of \<open>tracing::Level\<close>: an error is the least verbose.\<close>

definition verbosity :: "level \<Rightarrow> nat" where
  "verbosity l = (case l of L_error \<Rightarrow> 0 | L_warn \<Rightarrow> 1 | L_info \<Rightarrow> 2 | L_debug \<Rightarrow> 3 | L_trace \<Rightarrow> 4)"

record event =
  ev_level :: level
  ev_target :: string
  ev_is_span :: bool
  ev_file :: "string option"
  ev_line :: "u32 option"
  ev_fields :: "(string \<times> string) list"

definition otel_internal :: "string \<Rightarrow> bool" where
  "otel_internal target = (starts_with ''opentelemetry'' target \<or> starts_with ''tracing_opentelemetry'' target)"

record error_span =
  es_name :: string
  es_message :: string
  es_target :: string
  es_filepath :: "string option"
  es_lineno :: "u64 option"

text \<open>The visitor keeps the last field called \<open>message\<close>.\<close>

definition visit_message :: "(string \<times> string) list \<Rightarrow> string option" where
  "visit_message fs = fold (\<lambda>(name, v) m. if name = ''message'' then Some v else m) fs None"

definition on_event :: "event \<Rightarrow> error_span option" where
  "on_event e =
     (if ev_level e \<noteq> L_error then None
      else if otel_internal (ev_target e) then None
      else Some \<lparr>es_name = ERROR_SPAN_NAME,
        es_message = (case visit_message (ev_fields e) of Some m \<Rightarrow> m | None \<Rightarrow> ''error event''),
        es_target = ev_target e, es_filepath = ev_file e, es_lineno = map_option ucast (ev_line e)\<rparr>)"

definition log_filter :: "level \<Rightarrow> event \<Rightarrow> bool" where
  "log_filter l e = (verbosity (ev_level e) \<le> verbosity l \<and> \<not> starts_with ''opentelemetry'' (ev_target e) \<and>
     \<not> starts_with ''tracing_opentelemetry'' (ev_target e))"

definition trace_filter :: "event \<Rightarrow> bool" where
  "trace_filter e = (ev_is_span e \<and> verbosity (ev_level e) \<le> verbosity L_info)"

text \<open>The metadata of the span an \<open>error_span!\<close> opens.\<close>

definition span_event :: "error_span \<Rightarrow> event" where
  "span_event s = \<lparr>ev_level = L_error, ev_target = ''doggy_dns_observability::error_events'', ev_is_span = True,
     ev_file = None, ev_line = None, ev_fields = []\<rparr>"

section \<open>Providers\<close>

record exporter =
  xp_url :: string
  xp_headers :: headers
  xp_timeout_secs :: u64
  xp_resource :: attributes

record sdk =
  sdk_url_parse :: "string \<Rightarrow> parsed_url option"
  sdk_base64 :: "string \<Rightarrow> string"
  sdk_name_ok :: "string \<Rightarrow> bool"
  sdk_value_ok :: "string \<Rightarrow> bool"
  sdk_builds :: "signal \<Rightarrow> bool"
  sdk_parse_level :: "string \<Rightarrow> level option"
  sdk_subscriber_ok :: bool
  sdk_filter_ok :: "string \<Rightarrow> bool"

datatype runtime_error =
    RT_endpoint endpoint_error
  | RT_headers header_error
  | RT_build signal
  | RT_log_level string
  | RT_subscriber

definition build_exporter ::
  "sdk \<Rightarrow> (string \<Rightarrow> string option) \<Rightarrow> observability_config \<Rightarrow> attributes \<Rightarrow> signal \<Rightarrow> (runtime_error, exporter) result" where
  "build_exporter k env c resource s = (case resolve_signal_endpoint (sdk_url_parse k) env c s of
       Inl e \<Rightarrow> Inl (RT_endpoint e)
     | Inr url \<Rightarrow> (case resolve_headers (sdk_base64 k) (sdk_name_ok k) (sdk_value_ok k) env c of
           Inl e \<Rightarrow> Inl (RT_headers e)
         | Inr hs \<Rightarrow> if sdk_builds k s then Inr \<lparr>xp_url = url, xp_headers = hs, xp_timeout_secs = ob_timeout_secs c,
                        xp_resource = resource\<rparr>
                    else Inl (RT_build s)))"

definition build_logger_provider ::
  "sdk \<Rightarrow> (string \<Rightarrow> string option) \<Rightarrow> observability_config \<Rightarrow> attributes \<Rightarrow> (runtime_error, exporter) result" where
  "build_logger_provider k env c resource = build_exporter k env c resource Logs"

record meter_provider =
  mp_exporter :: exporter
  mp_temporality :: metrics_temporality
  mp_interval_secs :: u64

definition build_meter_provider ::
  "sdk \<Rightarrow> (string \<Rightarrow> string option) \<Rightarrow> observability_config \<Rightarrow> attributes \<Rightarrow> (runtime_error, meter_provider) result" where
  "build_meter_provider k env c resource = (case build_exporter k env c resource Metrics of
       Inl e \<Rightarrow> Inl e
     | Inr x \<Rightarrow> Inr \<lparr>mp_exporter = x, mp_temporality = metrics_temporality (ob_metrics c),
         mp_interval_secs = metrics_interval_secs (ob_metrics c)\<rparr>)"

record tracer_provider =
  tp_exporter :: exporter
  tp_max_queue_size :: u64
  tp_max_export_batch_size :: u64
  tp_scheduled_delay_ms :: u64
  tp_sample_ratio :: f64

definition build_tracer_provider ::
  "sdk \<Rightarrow> (string \<Rightarrow> string option) \<Rightarrow> observability_config \<Rightarrow> attributes \<Rightarrow> (runtime_error, tracer_provider) result" where
  "build_tracer_provider k env c resource = (case build_exporter k env c resource Traces of
       Inl e \<Rightarrow> Inl e
     | Inr x \<Rightarrow> Inr \<lparr>tp_exporter = x, tp_max_queue_size = max_queue_size (ob_traces c),
         tp_max_export_batch_size = max_export_batch_size (ob_traces c),
         tp_scheduled_delay_ms = scheduled_delay_ms (ob_traces c), tp_sample_ratio = sample_ratio (ob_traces c)\<rparr>)"

text \<open>Profiles go through an HTTP client whose header map has one value per name, up to case; the content type
  is set last.\<close>

record profile_exporter =
  px_base :: exporter
  px_interval_secs :: u64
  px_duration_secs :: u64
  px_frequency :: i32

definition profile_exporter_new ::
  "sdk \<Rightarrow> (string \<Rightarrow> string option) \<Rightarrow> observability_config \<Rightarrow> attributes \<Rightarrow> (runtime_error, profile_exporter) result" where
  "profile_exporter_new k env c resource = (case build_exporter k env c resource Profiles of
       Inl e \<Rightarrow> Inl e
     | Inr x \<Rightarrow> Inr \<lparr>px_base = x\<lparr>xp_headers := fold (\<lambda>(n, v). insert_header n v) (xp_headers x @ [(''content-type'', ''application/x-protobuf'')]) []\<rparr>,
         px_interval_secs = profiles_interval_secs (ob_profiles c),
         px_duration_secs = profiles_duration_secs (ob_profiles c),
         px_frequency = frequency_hz (ob_profiles c)\<rparr>)"

record observability =
  o_timeout_secs :: u64
  o_logger :: "exporter option"
  o_meter :: "meter_provider option"
  o_tracer :: "tracer_provider option"
  o_metrics :: bool
  o_xdp :: bool
  o_profile_exporter :: "profile_exporter option"
  o_profile_task :: bool
  o_profile_stopper :: bool

definition when_enabled :: "bool \<Rightarrow> (runtime_error, 'a) result \<Rightarrow> (runtime_error, 'a option) result" where
  "when_enabled b r = (if b then (case r of Inl e \<Rightarrow> Inl e | Inr x \<Rightarrow> Inr (Some x)) else Inr None)"

text \<open>The layers of the installed subscriber: the format layer (its filter, and whether it prints as JSON), the log bridge's
  level, and whether the trace and error layers are there.\<close>

definition env_filter :: "sdk \<Rightarrow> (string \<Rightarrow> string option) \<Rightarrow> bool \<Rightarrow> string" where
  "env_filter k env stdout =
     (if \<not> stdout then ''off''
      else (case env ''RUST_LOG'' of
              Some directives \<Rightarrow> if sdk_filter_ok k directives then directives else ''info''
            | None \<Rightarrow> ''info''))"

record sub_layers =
  ly_filter :: string
  ly_json :: bool
  ly_log :: "level option"
  ly_trace :: bool
  ly_error :: bool

definition install_subscriber ::
  "sdk \<Rightarrow> (string \<Rightarrow> string option) \<Rightarrow> observability_config \<Rightarrow> string option \<Rightarrow> bool \<Rightarrow> bool \<Rightarrow> (runtime_error, sub_layers) result" where
  "install_subscriber k env c log_format logger tracer = (
     let stdout = (\<not> ob_enabled c \<or> logs_stdout (ob_logs c));
         json = (stdout \<and> (case log_format of Some f \<Rightarrow> to_lower f = ''json'' | None \<Rightarrow> False))
     in if logger \<and> sdk_parse_level k (to_lower (logs_level (ob_logs c))) = None
        then Inl (RT_log_level (logs_level (ob_logs c)))
        else if \<not> sdk_subscriber_ok k then Inl RT_subscriber
        else Inr \<lparr>ly_filter = env_filter k env stdout, ly_json = json,
          ly_log = (if logger then sdk_parse_level k (to_lower (logs_level (ob_logs c))) else None),
          ly_trace = tracer, ly_error = tracer\<rparr>)"

section \<open>The start-up report\<close>

definition has_authorization :: "(string \<Rightarrow> string option) \<Rightarrow> observability_config \<Rightarrow> bool" where
  "has_authorization env c = (ob_basic_auth c \<noteq> None \<or>
     list_ex (\<lambda>(k, _). to_lower k = ''authorization'') (ob_headers c) \<or>
     (case env ''OTEL_EXPORTER_OTLP_HEADERS'' of Some h \<Rightarrow> contains_str ''authorization='' (to_lower h) | None \<Rightarrow> False))"

datatype telemetry_log =
    TL_enabled observability_backend string
  | TL_signal signal string
  | TL_signal_invalid signal endpoint_error
  | TL_vector_profiles
  | TL_collector_profiles
  | TL_no_authorization
  | TL_openobserve_profiles
  | TL_protocol_ignored string string

definition signal_enabled :: "observability_config \<Rightarrow> signal \<Rightarrow> bool" where
  "signal_enabled c s = (case s of
       Logs \<Rightarrow> logs_enabled (ob_logs c) | Metrics \<Rightarrow> metrics_enabled (ob_metrics c)
     | Traces \<Rightarrow> traces_enabled (ob_traces c) | Profiles \<Rightarrow> profiles_enabled (ob_profiles c))"

definition log_startup ::
  "sdk \<Rightarrow> (string \<Rightarrow> string option) \<Rightarrow> observability_config \<Rightarrow> string option \<Rightarrow> telemetry_log list" where
  "log_startup k env c service_name =
     [TL_enabled (ob_backend c) (case service_name of Some n \<Rightarrow> n | None \<Rightarrow> APP_NAME)] @
     map (\<lambda>s. case resolve_signal_endpoint (sdk_url_parse k) env c s of
         Inr url \<Rightarrow> TL_signal s url | Inl e \<Rightarrow> TL_signal_invalid s e)
       (filter (signal_enabled c) [Logs, Metrics, Traces, Profiles]) @
     (if profiles_enabled (ob_profiles c) \<and> ob_backend c = Vector_Backend then [TL_vector_profiles] else []) @
     (if profiles_enabled (ob_profiles c) \<and> ob_backend c = OtelCollector then [TL_collector_profiles] else []) @
     (if ob_backend c = OpenObserve \<and> \<not> has_authorization env c then [TL_no_authorization] else []) @
     (if profiles_enabled (ob_profiles c) \<and> ob_backend c = OpenObserve then [TL_openobserve_profiles] else []) @
     concat (map (\<lambda>var. case env var of
         Some v \<Rightarrow> if trim v \<noteq> [] \<and> to_lower (trim v) \<noteq> ''http/protobuf'' then [TL_protocol_ignored var v] else []
       | None \<Rightarrow> [])
       [''OTEL_EXPORTER_OTLP_PROTOCOL'', ''OTEL_EXPORTER_OTLP_LOGS_PROTOCOL'', ''OTEL_EXPORTER_OTLP_METRICS_PROTOCOL'',
        ''OTEL_EXPORTER_OTLP_TRACES_PROTOCOL'', ''OTEL_EXPORTER_OTLP_PROFILES_PROTOCOL''])"

section \<open>Initialisation\<close>

definition observability_new :: "observability_config \<Rightarrow> observability" where
  "observability_new c = \<lparr>o_timeout_secs = ob_timeout_secs c, o_logger = None, o_meter = None, o_tracer = None,
     o_metrics = False, o_xdp = False, o_profile_exporter = None, o_profile_task = False, o_profile_stopper = False\<rparr>"

text \<open>An error leaves behind the value as it was built so far, which is then dropped.\<close>

definition observability_init ::
  "sdk \<Rightarrow> node \<Rightarrow> (string \<Rightarrow> string option) \<Rightarrow> doggy_dns_config \<Rightarrow> string option \<Rightarrow>
     (runtime_error \<times> observability, observability \<times> sub_layers \<times> telemetry_log list) result" where
  "observability_init k nd env cfg log_format = (
     let exposure = node_attributes (detect_ip_addr (nd_show_ip nd) (nd_local nd)) (cfg_server cfg) (cfg_control cfg);
         c = cfg_observability cfg;
         resource = build_resource nd env c exposure;
         ob0 = observability_new c in
     case when_enabled (ob_enabled c \<and> logs_enabled (ob_logs c)) (build_logger_provider k env c resource) of Inl e \<Rightarrow> Inl (e, ob0) | Inr logger \<Rightarrow>
     let ob1 = ob0\<lparr>o_logger := logger\<rparr> in
     case when_enabled (ob_enabled c \<and> metrics_enabled (ob_metrics c)) (build_meter_provider k env c resource) of Inl e \<Rightarrow> Inl (e, ob1) | Inr meter \<Rightarrow>
     let ob2 = ob1\<lparr>o_meter := meter, o_metrics := (meter \<noteq> None), o_xdp := (meter \<noteq> None)\<rparr> in
     case when_enabled (ob_enabled c \<and> traces_enabled (ob_traces c)) (build_tracer_provider k env c resource) of Inl e \<Rightarrow> Inl (e, ob2) | Inr tracer \<Rightarrow>
     let ob3 = ob2\<lparr>o_tracer := tracer\<rparr> in
     case when_enabled (ob_enabled c \<and> profiles_enabled (ob_profiles c)) (profile_exporter_new k env c resource) of Inl e \<Rightarrow> Inl (e, ob3) | Inr profiles \<Rightarrow>
     let ob4 = ob3\<lparr>o_profile_exporter := profiles\<rparr> in
     case install_subscriber k env c log_format (logger \<noteq> None) (tracer \<noteq> None) of Inl e \<Rightarrow> Inl (e, ob4) | Inr ls \<Rightarrow>
     Inr (ob4, ls, if ob_enabled c then log_startup k env c (resource ''service.name'') else []))"

section \<open>Life cycle\<close>

datatype life_event =
    Spawned_profiles | Stopped_profiles | Aborted_task | Shut_down signal u64

definition spawn_profiles :: "observability \<Rightarrow> life_event list \<times> observability" where
  "spawn_profiles ob =
     (if o_profile_task ob then ([], ob)
      else (case o_profile_exporter ob of
              None \<Rightarrow> ([], ob)
            | Some _ \<Rightarrow> ([Spawned_profiles],
                ob\<lparr>o_profile_exporter := None, o_profile_task := True, o_profile_stopper := True\<rparr>)))"

definition shutdown_runtime :: "observability \<Rightarrow> life_event list \<times> observability" where
  "shutdown_runtime ob = (
     let timeout = max (o_timeout_secs ob) 1 in
     ((if o_profile_stopper ob then [Stopped_profiles] else []) @
      (if o_profile_task ob then [Aborted_task] else []) @
      (if o_logger ob \<noteq> None then [Shut_down Logs timeout] else []) @
      (if o_meter ob \<noteq> None then [Shut_down Metrics timeout] else []) @
      (if o_tracer ob \<noteq> None then [Shut_down Traces timeout] else []),
      ob\<lparr>o_profile_stopper := False, o_profile_task := False, o_logger := None, o_meter := None, o_tracer := None\<rparr>))"

text \<open>Flushing reports the first provider that fails.\<close>

definition force_flush :: "(signal \<Rightarrow> bool) \<Rightarrow> observability \<Rightarrow> (signal, unit) result" where
  "force_flush flush_ok ob =
     (if o_logger ob \<noteq> None \<and> \<not> flush_ok Logs then Inl Logs
      else if o_meter ob \<noteq> None \<and> \<not> flush_ok Metrics then Inl Metrics
      else if o_tracer ob \<noteq> None \<and> \<not> flush_ok Traces then Inl Traces
      else Inr ())"

datatype life_call = Call_spawn_profiles | Call_shutdown

fun run_calls :: "life_call list \<Rightarrow> observability \<Rightarrow> life_event list \<times> observability" where
  "run_calls [] ob = ([], ob)"
| "run_calls (call # calls) ob = (
     let (ev, ob') = (case call of Call_spawn_profiles \<Rightarrow> spawn_profiles ob | Call_shutdown \<Rightarrow> shutdown_runtime ob);
         (ev', ob'') = run_calls calls ob'
     in (ev @ ev', ob''))"

text \<open>The value is dropped after its last call, and dropping it shuts it down.\<close>

definition whole_life :: "life_call list \<Rightarrow> observability \<Rightarrow> life_event list" where
  "whole_life calls ob = fst (run_calls (calls @ [Call_shutdown]) ob)"

section \<open>The metrics middleware\<close>

text \<open>What the middleware at position \<open>k\<close> adds to \<open>dns.queries.in_flight\<close> and to \<open>dns.queries\<close> for one event of a
  request.\<close>

definition in_flight_delta :: "nat \<Rightarrow> handler_event \<Rightarrow> int" where
  "in_flight_delta k e = (case e of
       Ev_before j \<Rightarrow> if j = k then 1 else 0
     | Ev_after j _ \<Rightarrow> if j = k then - 1 else 0
     | _ \<Rightarrow> 0)"

definition queries_delta :: "nat \<Rightarrow> handler_event \<Rightarrow> nat" where
  "queries_delta k e = (case e of Ev_after j _ \<Rightarrow> if j = k then 1 else 0 | _ \<Rightarrow> 0)"

definition xdp_metrics_record :: "string \<Rightarrow> u64 \<Rightarrow> (string \<times> u64) list" where
  "xdp_metrics_record result n = (if n = 0 then [] else [(result, n)])"

section \<open>Errors are always exported, the exporter's own logs never\<close>

text \<open>Every error event of the program becomes a span that passes the trace filter and is recorded whatever
  the sampling ratio and whatever became of the request's own span, and stays in the trace of a valid parent;
  an event of the telemetry library itself makes no span and is not forwarded as a log at any level, so an
  export failure cannot feed on itself.\<close>

theorem error_spans_exported:
  "(ev_level e = L_error \<and> \<not> otel_internal (ev_target e) \<longrightarrow>
      (\<exists>s. on_event e = Some s \<and> es_target s = ev_target e \<and> trace_filter (span_event s) \<and>
         sr_decision (should_sample ratio parent (es_name s)) = RecordAndSample \<and>
         (\<forall>p. parent = Some p \<and> sc_valid p \<longrightarrow>
            sr_trace_state (should_sample ratio parent (es_name s)) = sc_trace_state p))) \<and>
   (otel_internal (ev_target e) \<longrightarrow> on_event e = None \<and> \<not> log_filter l e)"
  by (auto simp: on_event_def trace_filter_def span_event_def verbosity_def should_sample_def log_filter_def
      otel_internal_def Let_def)

definition an_error :: event where
  "an_error = \<lparr>ev_level = L_error, ev_target = ''doggy_dns'', ev_is_span = False, ev_file = None, ev_line = Some 7,
     ev_fields = [(''message'', ''boom'')]\<rparr>"

theorem error_spans_exported_witness:
  "\<exists>s. on_event an_error = Some s \<and> es_message s = ''boom'' \<and>
     sr_decision (should_sample \<lparr>sr_decision = Drop, sr_trace_state = []\<rparr>
       (Some \<lparr>sc_valid = True, sc_sampled = False, sc_trace_state = []\<rparr>) (es_name s)) = RecordAndSample"
proof -
  have "ev_level an_error = L_error \<and> \<not> otel_internal (ev_target an_error)" by code_simp
  moreover have "map_option es_message (on_event an_error) = Some ''boom''" by code_simp
  ultimately show ?thesis
    using error_spans_exported [of an_error "\<lparr>sr_decision = Drop, sr_trace_state = []\<rparr>"
        "Some \<lparr>sc_valid = True, sc_sampled = False, sc_trace_state = []\<rparr>" L_info] by auto
qed

lemma should_sample_parent_based:
  "name \<noteq> ERROR_SPAN_NAME \<Longrightarrow> sc_valid p \<Longrightarrow>
     sr_decision (should_sample ratio (Some p) name) = (if sc_sampled p then RecordAndSample else Drop)"
  by (simp add: should_sample_def)

section \<open>The life of the runtime\<close>

text \<open>What a state still has to do: spawn its profiler, shut a provider down; and what runs.\<close>

definition provider :: "observability \<Rightarrow> signal \<Rightarrow> exporter option" where
  "provider ob s = (case s of
       Logs \<Rightarrow> o_logger ob
     | Metrics \<Rightarrow> map_option mp_exporter (o_meter ob)
     | Traces \<Rightarrow> map_option tp_exporter (o_tracer ob)
     | Profiles \<Rightarrow> None)"

definition owed :: "observability \<Rightarrow> life_event \<Rightarrow> nat" where
  "owed ob e = (case e of
       Spawned_profiles \<Rightarrow> of_bool (o_profile_exporter ob \<noteq> None)
     | Shut_down s t \<Rightarrow> of_bool (t = max (o_timeout_secs ob) 1 \<and> provider ob s \<noteq> None)
     | _ \<Rightarrow> 0)"

definition ledger :: "observability \<Rightarrow> life_event list \<Rightarrow> observability \<Rightarrow> bool" where
  "ledger ob ev ob' \<longleftrightarrow>
     (\<forall>e. e \<noteq> Stopped_profiles \<and> e \<noteq> Aborted_task \<longrightarrow> count_list ev e + owed ob' e = owed ob e) \<and>
     count_list ev Spawned_profiles + of_bool (o_profile_task ob) = count_list ev Aborted_task + of_bool (o_profile_task ob') \<and>
     count_list ev Spawned_profiles + of_bool (o_profile_stopper ob) = count_list ev Stopped_profiles + of_bool (o_profile_stopper ob')"

lemma ledger_trans:
  assumes "ledger ob ev ob'" and "ledger ob' ev' ob''"
  shows "ledger ob (ev @ ev') ob''"
proof -
  have "count_list (ev @ ev') e + owed ob'' e = owed ob e" if "e \<noteq> Stopped_profiles \<and> e \<noteq> Aborted_task" for e
  proof -
    have "count_list ev e + owed ob' e = owed ob e" "count_list ev' e + owed ob'' e = owed ob' e"
      using assms that by (auto simp: ledger_def)
    then show ?thesis by simp
  qed
  moreover note assms [unfolded ledger_def, THEN conjunct2]
  ultimately show ?thesis by (simp add: ledger_def)
qed

lemma ledger_spawn:
  "o_profile_task ob = o_profile_stopper ob \<Longrightarrow> spawn_profiles ob = (ev, ob') \<Longrightarrow>
     ledger ob ev ob' \<and> o_profile_task ob' = o_profile_stopper ob'"
  by (cases "o_profile_exporter ob")
    (auto simp: spawn_profiles_def ledger_def owed_def provider_def split: if_splits life_event.splits signal.splits)

lemma count_when: "count_list (if b then [x] else []) e = of_bool (b \<and> x = e)"
  by (cases b; cases "x = e") auto

lemma ledger_shutdown:
  assumes "shutdown_runtime ob = (ev, ob')"
  shows "ledger ob ev ob' \<and> \<not> o_profile_task ob' \<and> \<not> o_profile_stopper ob' \<and> (\<forall>s. provider ob' s = None)"
proof -
  have ev: "ev = fst (shutdown_runtime ob)" and ob': "ob' = snd (shutdown_runtime ob)" using assms by simp_all
  have "count_list ev e + owed ob' e = owed ob e" if "e \<noteq> Stopped_profiles" "e \<noteq> Aborted_task" for e
  proof (cases e)
    case (Shut_down s t)
    then show ?thesis unfolding ev ob' shutdown_runtime_def Let_def
      by (cases s) (auto simp add: count_when owed_def provider_def simp del: if_split)
  qed (use that in \<open>simp_all add: ev ob' shutdown_runtime_def Let_def owed_def count_when\<close>)
  moreover have "count_list ev Spawned_profiles + of_bool (o_profile_task ob) = count_list ev Aborted_task + of_bool (o_profile_task ob')"
    "count_list ev Spawned_profiles + of_bool (o_profile_stopper ob) = count_list ev Stopped_profiles + of_bool (o_profile_stopper ob')"
    using assms by (auto simp: shutdown_runtime_def Let_def)
  ultimately show ?thesis
    using assms by (auto simp: ledger_def shutdown_runtime_def Let_def provider_def split: signal.splits)
qed

lemma run_calls_ledger:
  "run_calls calls ob = (ev, ob') \<Longrightarrow> o_profile_task ob = o_profile_stopper ob \<Longrightarrow>
     ledger ob ev ob' \<and> o_profile_task ob' = o_profile_stopper ob'"
proof (induction calls ob arbitrary: ev rule: run_calls.induct)
  case (2 call calls ob)
  obtain e1 ob1 where c: "(case call of Call_spawn_profiles \<Rightarrow> spawn_profiles ob | Call_shutdown \<Rightarrow> shutdown_runtime ob) = (e1, ob1)"
    by force
  obtain e2 where r: "run_calls calls ob1 = (e2, ob')" and ev: "ev = e1 @ e2"
    using 2(2) c by (auto split: prod.splits)
  have l: "ledger ob e1 ob1 \<and> o_profile_task ob1 = o_profile_stopper ob1"
    using c ledger_spawn [OF 2(3)] ledger_shutdown [of ob] by (cases call) auto
  with 2(1) [OF c [symmetric] refl r] ledger_trans ev show ?case by blast
qed (simp add: ledger_def)

lemma run_calls_append:
  "run_calls (xs @ ys) ob = (let (ev, ob') = run_calls xs ob; (ev', ob'') = run_calls ys ob' in (ev @ ev', ob''))"
  by (induction xs ob rule: run_calls.induct) (auto split: prod.splits)

text \<open>The value that is there after the initialisation, to be dropped at once when it failed and at the end of the run
  otherwise.\<close>

definition left_behind :: "(runtime_error \<times> observability, observability \<times> 'l) result \<Rightarrow> observability" where
  "left_behind r = (case r of Inl (_, ob) \<Rightarrow> ob | Inr (ob, _) \<Rightarrow> ob)"

lemma left_behind_simps [simp]: "left_behind (Inl (e, ob)) = ob" "left_behind (Inr (ob, l)) = ob"
  by (simp_all add: left_behind_def)

lemma left_behind_fresh:
  assumes "left_behind (observability_init k nd env cfg log_format) = ob"
  shows "\<not> o_profile_task ob" "\<not> o_profile_stopper ob" "o_timeout_secs ob = ob_timeout_secs (cfg_observability cfg)"
  using assms by (auto simp: observability_init_def observability_new_def Let_def split: sum.splits)

lemma whole_life_counts:
  assumes "left_behind (observability_init k nd env cfg log_format) = ob"
  shows "count_list (whole_life calls ob) (Shut_down s t) =
      of_bool (t = max (ob_timeout_secs (cfg_observability cfg)) 1 \<and> provider ob s \<noteq> None) \<and>
    count_list (whole_life calls ob) Spawned_profiles \<le> 1 \<and>
    count_list (whole_life calls ob) Aborted_task = count_list (whole_life calls ob) Spawned_profiles \<and>
    count_list (whole_life calls ob) Stopped_profiles = count_list (whole_life calls ob) Spawned_profiles"
proof -
  note fresh = left_behind_fresh [OF assms]
  obtain e1 ob1 e2 ob2 where r: "run_calls calls ob = (e1, ob1)" "shutdown_runtime ob1 = (e2, ob2)" by (metis surj_pair)
  then have w: "whole_life calls ob = e1 @ e2" by (simp add: whole_life_def run_calls_append)
  have l: "ledger ob (whole_life calls ob) ob2"
    using run_calls_ledger [OF r(1)] ledger_shutdown [OF r(2)] fresh w by (auto intro: ledger_trans)
  have z: "\<not> o_profile_task ob2" "\<not> o_profile_stopper ob2" "owed ob2 (Shut_down s t) = 0"
    using ledger_shutdown [OF r(2)] by (auto simp: owed_def)
  have sd: "count_list (whole_life calls ob) (Shut_down s t) + owed ob2 (Shut_down s t) = owed ob (Shut_down s t)"
    and sp: "count_list (whole_life calls ob) Spawned_profiles + owed ob2 Spawned_profiles = owed ob Spawned_profiles"
    using l unfolding ledger_def by blast+
  have "owed ob Spawned_profiles \<le> 1" by (simp add: owed_def)
  with sp have "count_list (whole_life calls ob) Spawned_profiles \<le> 1" by linarith
  moreover have "count_list (whole_life calls ob) (Shut_down s t) = of_bool (t = max (ob_timeout_secs (cfg_observability cfg)) 1 \<and> provider ob s \<noteq> None)"
    using sd unfolding z(3) by (simp add: owed_def fresh(3))
  ultimately show ?thesis using l [unfolded ledger_def, THEN conjunct2] z(1,2) fresh(1,2) by simp
qed

text \<open>Whatever the order of the calls on it, and whether its initialisation went through or not, a runtime cleans up after
  itself by the time it is dropped: every
  provider it built is shut down exactly once, with the configured timeout of at least a second, and the profiler
  is started at most once and stopped and aborted exactly as often as it was started.\<close>

theorem runtime_cleans_up:
  assumes "left_behind (observability_init k nd env cfg log_format) = ob"
  shows "count_list (whole_life calls ob) (Shut_down s t) =
      of_bool (t = max (ob_timeout_secs (cfg_observability cfg)) 1 \<and> provider ob s \<noteq> None) \<and>
    count_list (whole_life calls ob) Spawned_profiles \<le> 1 \<and>
    count_list (whole_life calls ob) Aborted_task = count_list (whole_life calls ob) Spawned_profiles \<and>
    count_list (whole_life calls ob) Stopped_profiles = count_list (whole_life calls ob) Spawned_profiles"
  using whole_life_counts [OF assms] by blast

definition a_sdk :: sdk where
  "a_sdk = \<lparr>sdk_url_parse = \<lambda>_. Some \<lparr>url_scheme = ''http'', url_username = [], url_password = None\<rparr>,
     sdk_base64 = id, sdk_name_ok = \<lambda>_. True, sdk_value_ok = \<lambda>_. True, sdk_builds = \<lambda>_. True,
     sdk_parse_level = \<lambda>_. Some L_warn, sdk_subscriber_ok = True, sdk_filter_ok = \<lambda>_. True\<rparr>"

definition a_config :: observability_config where
  "a_config = default_observability\<lparr>ob_enabled := True, ob_profiles := default_profiles\<lparr>profiles_enabled := True\<rparr>\<rparr>"

definition a_node :: node where
  "a_node = \<lparr>nd_gethostname = (0, [104, 0]), nd_pid = 7, nd_local = None, nd_show_ip = \<lambda>_. []\<rparr>"

definition a_runtime :: observability where
  "a_runtime = left_behind (observability_init a_sdk a_node (\<lambda>_. None)
     ((default_config ''127.0.0.1'' 53)\<lparr>cfg_observability := a_config\<rparr>) None)"

theorem runtime_cleans_up_witness:
  "count_list (whole_life [Call_spawn_profiles, Call_spawn_profiles, Call_shutdown] a_runtime) (Shut_down Logs 10) = 1"
proof -
  have t: "max (ob_timeout_secs a_config) 1 = 10" by code_simp
  have p: "\<not> Option.is_none (provider a_runtime Logs)" by code_simp
  show ?thesis
    using runtime_cleans_up [OF a_runtime_def [symmetric], of "[Call_spawn_profiles, Call_spawn_profiles, Call_shutdown]" Logs 10] p
    by (simp add: t Option.is_none_def)
qed

section \<open>A validated configuration has a usable log level\<close>

lemma build_exporter_error: "build_exporter k env c resource s \<noteq> Inl (RT_log_level l)"
  by (auto simp: build_exporter_def split: sum.splits)

lemma provider_errors:
  "profile_exporter_new k env c resource \<noteq> Inl (RT_log_level l)" "build_logger_provider k env c resource \<noteq> Inl (RT_log_level l)"
  "build_meter_provider k env c resource \<noteq> Inl (RT_log_level l)" "build_tracer_provider k env c resource \<noteq> Inl (RT_log_level l)"
  using build_exporter_error
  by (auto simp: profile_exporter_new_def build_logger_provider_def build_meter_provider_def build_tracer_provider_def
      split: sum.splits)

lemma when_enabled_Inl: "when_enabled b r = Inl x \<longleftrightarrow> b \<and> r = Inl x"
  by (auto simp: when_enabled_def split: sum.splits)

lemma log_level_error:
  assumes "observability_init k nd env cfg log_format = Inl (RT_log_level l, ob)"
  shows "ob_enabled (cfg_observability cfg) \<and> sdk_parse_level k (to_lower (logs_level (ob_logs (cfg_observability cfg)))) = None"
proof -
  let ?c = "cfg_observability cfg"
  obtain logger resource and tracer :: "tracer_provider option" where
    "when_enabled (ob_enabled ?c \<and> logs_enabled (ob_logs ?c)) (build_logger_provider k env ?c resource) = Inr logger"
    "install_subscriber k env ?c log_format (logger \<noteq> None) (tracer \<noteq> None) = Inl (RT_log_level l)"
    using assms unfolding observability_init_def Let_def
    by (simp split: sum.splits add: when_enabled_Inl provider_errors)
  then show ?thesis by (auto simp: install_subscriber_def Let_def when_enabled_def split: if_splits)
qed

lemma validated_log_level:
  assumes "\<forall>n \<in> {''trace'', ''debug'', ''info'', ''warn'', ''error''}. sdk_parse_level k n \<noteq> None"
    and "passes (validate_observability h (cfg_observability cfg))"
  shows "observability_init k nd env cfg log_format \<noteq> Inl (RT_log_level l, ob)"
proof
  let ?c = "cfg_observability cfg"
  assume "observability_init k nd env cfg log_format = Inl (RT_log_level l, ob)"
  from log_level_error [OF this] have on: "ob_enabled ?c" and bad: "sdk_parse_level k (to_lower (logs_level (ob_logs ?c))) = None" by auto
  have "ensure (to_lower (logs_level (ob_logs ?c)) \<in> {''trace'', ''debug'', ''info'', ''warn'', ''error''}) O_log_level
      \<in> set (validate_observability h ?c)"
    by (simp add: validate_observability_def on)
  then have "to_lower (logs_level (ob_logs ?c)) \<in> {''trace'', ''debug'', ''info'', ''warn'', ''error''}"
    using assms(2) unfolding passes_iff by (auto simp: ensure_def list_all_iff split: if_splits)
  with bad assms(1) show False by blast
qed

section \<open>In-flight queries\<close>

lemma run_before_all:
  "\<forall>b \<in> set bs. b rq \<noteq> ShortCircuit \<Longrightarrow> run_before j bs rq = (map Ev_before [j..<j + length bs], False)"
proof (induction bs arbitrary: j)
  case (Cons b bs)
  then show ?case by (cases "b rq") (simp_all add: upt_rec)
qed simp

lemma sum_indicator:
  "a \<le> k \<Longrightarrow> k < b \<Longrightarrow> (\<Sum>j\<leftarrow>[a..<b]. if j = k then c else 0) = (c :: int)"
  by (simp add: sum_list_distinct_conv_sum_set)

lemma finish_in_flight: "k < n \<Longrightarrow> sum_list (map (in_flight_delta k) (finish n oc)) = - 1"
  by (simp add: finish_def in_flight_delta_def comp_def sum_indicator)

lemma sent_in_flight: "list_all is_sent ev \<Longrightarrow> sum_list (map (in_flight_delta k) ev) = 0"
  by (induction ev) (auto simp: in_flight_delta_def is_sent_def split: handler_event.splits)

text \<open>As long as no middleware short-circuits a request, the in-flight gauge is balanced: over one request the
  metrics middleware, wherever it stands in the list, adds one and takes one away.\<close>

theorem in_flight_balanced:
  assumes "\<forall>b \<in> set (hc_before cfg). b rq \<noteq> ShortCircuit" and "k < length (hc_before cfg)"
  shows "sum_list (map (in_flight_delta k) (fst (snd (handle_request hk cfg rq st)))) = 0"
proof -
  let ?n = "length (hc_before cfg)"
  have b: "run_before 0 (hc_before cfg) rq = (map Ev_before [0..<?n], False)"
    using run_before_all [OF assms(1), of 0] by simp
  have b1: "sum_list (map (in_flight_delta k) (map Ev_before [0..<?n])) = 1"
    using assms(2) by (simp add: in_flight_delta_def comp_def sum_indicator)
  show ?thesis
  proof (cases "rq_info rq")
    case None
    obtain info ev where s: "send_error hk rq 0 FormErr False None = (info, ev)" by force
    have "list_all is_sent ev" using send_error_sent [OF s] by (auto simp: is_sent_def)
    with None b s b1 assms(2) show ?thesis
      by (simp add: handle_request_def sent_in_flight finish_in_flight)
  next
    case (Some ri)
    obtain rr ch where r: "resolve (hs_chain st) (ri_name ri) (ri_type ri) (Some ri) = (rr, ch)" by force
    obtain info ev oc c where a: "answer hk cfg rq rr (hs_cursor st) = (info, ev, oc, c)" by (metis prod_cases4)
    from Some b r a b1 assms(2) answer_events [OF a] show ?thesis
      by (simp add: handle_request_def sent_in_flight finish_in_flight)
  qed
qed

theorem in_flight_balanced_witness:
  "sum_list (map (in_flight_delta 1) (fst (snd (handle_request sample_hickory \<lparr>hc_xdp_enabled = False, hc_rotate = True,
     hc_before = [\<lambda>_. Continue_Request, \<lambda>_. Continue_Request]\<rparr> sample_request \<lparr>hs_chain = [], hs_cursor = 0\<rparr>)))) = 0"
  by (rule in_flight_balanced) simp_all

end
