(* ===== verification/Xdp_Hash.thy ===== *)
theory Xdp_Hash
  imports Xdp_Types
begin

text \<open>
  Cache keys, on both sides of the BPF map. Userspace (\<open>crates/doggy-dns-xdp/src/cache.rs\<close>) hashes
  the lowercased wire form of a name with a word-wise FNV-1a; the kernel
  (\<open>xdp/doggy-dns-xdp-ebpf/src/main.rs\<close>) hashes the QNAME of a packet eight bytes at a time, with
  byte-parallel lowercasing and terminator search, and a byte loop at the end of the frame.
  The main result is \<open>parse_dns_question_spec\<close>: the kernel parser is exactly "the bytes up to
  the first zero, lowercased, terminated and hashed as userspace does", with its bounds.
\<close>

definition FNV_OFFSET_BASIS :: u64 where
  "FNV_OFFSET_BASIS = 0xcbf29ce484222325"

definition FNV_PRIME :: u64 where
  "FNV_PRIME = 0x100000001b3"

definition BYTE_ONES :: u64 where
  "BYTE_ONES = 0x0101010101010101"

definition BYTE_HIGHS :: u64 where
  "BYTE_HIGHS = 0x8080808080808080"

definition to_ascii_lowercase :: "u8 \<Rightarrow> u8" where
  "to_ascii_lowercase b = (if 0x41 \<le> b \<and> b \<le> 0x5A then b OR 0x20 else b)"

definition fnv1a_word :: "u64 \<Rightarrow> u64 \<Rightarrow> u64" where
  "fnv1a_word hash word = (hash XOR word) * FNV_PRIME"

definition lower_word :: "u64 \<Rightarrow> u64" where
  "lower_word word =
     (let ge_a = ((word OR BYTE_HIGHS) - 0x4141414141414141) AND NOT word AND BYTE_HIGHS;
          gt_z = ((word OR BYTE_HIGHS) - 0x5B5B5B5B5B5B5B5B) AND NOT word AND BYTE_HIGHS
      in word OR drop_bit 2 (ge_a AND NOT gt_z))"

function zero_index_from :: "u64 \<Rightarrow> nat \<Rightarrow> nat" where
  "zero_index_from word i =
     (if i < 8 then
        if drop_bit (i * 8) word AND 0xFF = 0 then i else zero_index_from word (i + 1)
      else 8)"
  by pat_completeness auto
termination
  by (relation "measure (\<lambda>(word, i). 8 - i)") auto

declare zero_index_from.simps [simp del]

definition zero_index :: "u64 \<Rightarrow> nat" where
  "zero_index word = zero_index_from word 0"

definition zero_bits :: "u64 \<Rightarrow> u64" where
  "zero_bits word = (word - BYTE_ONES) AND NOT word AND BYTE_HIGHS"

section \<open>Byte-parallel lowercasing and terminator search\<close>

lemma rep_consts:
  "word_of_int (rep 128 8) = BYTE_HIGHS" "word_of_int (rep 1 8) = BYTE_ONES"
  "word_of_int (rep 65 8) = (0x4141414141414141 :: u64)"
  "word_of_int (rep 91 8) = (0x5B5B5B5B5B5B5B5B :: u64)"
  by (simp_all add: eval_nat_numeral BYTE_HIGHS_def BYTE_ONES_def)

lemma lower_byte_table:
  "list_all (\<lambda>x. uint (to_ascii_lowercase (word_of_int x)) =
      x OR ((ge_byte 65 x AND (255 - ge_byte 91 x)) div 4)) (map int [0..<256])"
  by code_simp

lemma uint_lowercase: "uint (to_ascii_lowercase b) =
    uint b OR ((ge_byte 65 (uint b) AND (255 - ge_byte 91 (uint b))) div 4)"
  using byte_in_table [OF lower_byte_table, of "uint b"] by simp

definition case_mask :: "bytes \<Rightarrow> int" where
  "case_mask bs = ge_mask 65 (le_int bs) (length bs) AND NOT (ge_mask 91 (le_int bs) (length bs))"

lemma ge_byte_range: "0 \<le> x \<Longrightarrow> x < 256 \<Longrightarrow> ge_byte 65 x \<in> {0, 128} \<and> ge_byte 91 x \<in> {0, 128}"
  by (simp add: ge_byte_eq)

lemma case_mask_Cons:
  "case_mask (b # bs) = (ge_byte 65 (uint b) AND (255 - ge_byte 91 (uint b))) + 256 * case_mask bs"
proof -
  have "case_mask (b # bs) =
     (ge_byte 65 (uint b) + 256 * ge_mask 65 (le_int bs) (length bs)) AND
     ((255 - ge_byte 91 (uint b)) + 256 * NOT (ge_mask 91 (le_int bs) (length bs)))"
    by (simp add: case_mask_def ge_mask_Cons byte_cons_not del: rep.simps)
  then show ?thesis
    unfolding case_mask_def using ge_byte_range [of "uint b"] by (subst (asm) byte_cons_and) auto
qed

lemma case_mask_dvd: "128 dvd case_mask bs"
proof (induction bs)
  case (Cons b bs)
  have "ge_byte 65 (uint b) AND (255 - ge_byte 91 (uint b)) \<in> {0, 128}"
    using ge_byte_range [of "uint b"] by auto
  with Cons show ?case by (auto simp: case_mask_Cons)
qed (simp add: case_mask_def ge_mask_def)

lemma lower_int: "le_int bs OR case_mask bs div 4 = le_int (map to_ascii_lowercase bs)"
proof (induction bs)
  case (Cons b bs)
  let ?g = "ge_byte 65 (uint b) AND (255 - ge_byte 91 (uint b))"
  have g: "?g \<in> {0, 128}" using ge_byte_range [of "uint b"] by auto
  obtain m where m: "case_mask bs = 128 * m" using case_mask_dvd by blast
  have "case_mask (b # bs) div 4 = ?g div 4 + 256 * (case_mask bs div 4)"
    using g m by (auto simp: case_mask_Cons)
  then have "le_int (b # bs) OR case_mask (b # bs) div 4 =
      (uint b OR ?g div 4) + 256 * (le_int bs OR case_mask bs div 4)"
    using g by (auto simp: byte_cons_or byte_cons_or [of _ 0, simplified])
  then show ?case by (simp add: Cons uint_lowercase)
qed (simp add: case_mask_def ge_mask_def)

lemma case_mask_word:
  assumes "length bs = 8"
  shows "((from_le_bytes bs OR BYTE_HIGHS) - 0x4141414141414141) AND NOT (from_le_bytes bs) AND BYTE_HIGHS AND
     NOT (((from_le_bytes bs OR BYTE_HIGHS) - 0x5B5B5B5B5B5B5B5B) AND NOT (from_le_bytes bs) AND BYTE_HIGHS)
    = word_of_int (case_mask bs)"
  unfolding case_mask_def ge_mask_def from_le_bytes_def assms
  by (simp add: of_int_and_eq of_int_or_eq of_int_not_eq rep_consts and.assoc)

lemma case_mask_bounds: "0 \<le> case_mask bs \<and> case_mask bs < 256 ^ length bs"
proof (induction bs)
  case (Cons b bs)
  have "ge_byte 65 (uint b) AND (255 - ge_byte 91 (uint b)) \<in> {0, 128}"
    using ge_byte_range [of "uint b"] by auto
  with Cons show ?case by (auto simp: case_mask_Cons)
qed (simp add: case_mask_def ge_mask_def)

lemma drop_bit_word_of_int:
  "0 \<le> r \<Longrightarrow> r < 2 ^ 64 \<Longrightarrow> drop_bit n (word_of_int r :: u64) = word_of_int (drop_bit n r)"
  by transfer (simp add: take_bit_int_eq_self)

lemma take_bit_word_of_int:
  "n \<le> 64 \<Longrightarrow> take_bit n (word_of_int r :: u64) = word_of_int (take_bit n r)"
  by transfer (simp add: min_def)

lemma lower_word_bytes:
  assumes "length bs = 8"
  shows "lower_word (from_le_bytes bs) = from_le_bytes (map to_ascii_lowercase bs)"
proof -
  have "drop_bit 2 (word_of_int (case_mask bs) :: u64) = word_of_int (case_mask bs div 4)"
    using case_mask_bounds [of bs] assms drop_bit_word_of_int [of "case_mask bs" 2]
    by (simp add: drop_bit_eq_div)
  then have "lower_word (from_le_bytes bs) = word_of_int (le_int bs OR case_mask bs div 4)"
    unfolding lower_word_def Let_def case_mask_word [OF assms, unfolded and.assoc] and.assoc
    by (simp only: of_int_or_eq from_le_bytes_def)
  then show ?thesis by (simp add: lower_int from_le_bytes_def)
qed

lemma zero_bits_word:
  "length bs = 8 \<Longrightarrow> zero_bits (from_le_bytes bs) = word_of_int (zero_mask (le_int bs) 8)"
  by (simp add: zero_bits_def zero_mask_def from_le_bytes_def of_int_and_eq of_int_or_eq of_int_not_eq rep_consts)

lemma zero_bits_none: "length bs = 8 \<Longrightarrow> 0 \<notin> set bs \<Longrightarrow> zero_bits (from_le_bytes bs) = 0"
  using zero_mask_none [of bs] by (simp add: zero_bits_word)

lemma uint_from_le_bytes: "length bs = 8 \<Longrightarrow> uint (from_le_bytes bs) = le_int bs"
  using le_int_bound [of bs] by (simp add: from_le_bytes_def uint_word_of_int_eq take_bit_int_eq_self)

lemma le_int_nth: "i < length bs \<Longrightarrow> le_int bs div 256 ^ i mod 256 = uint (bs ! i)"
proof (induction bs arbitrary: i)
  case (Cons b bs)
  show ?case
  proof (cases i)
    case 0
    then show ?thesis by (simp add: mod_pos_pos_trivial)
  next
    case (Suc j)
    have "(uint b + 256 * le_int bs) div 256 = le_int bs" by (simp add: div_add1_eq)
    then have "le_int (b # bs) div 256 ^ i = le_int bs div 256 ^ j"
      using Suc by (simp add: zdiv_zmult2_eq)
    with Cons Suc show ?thesis by simp
  qed
qed simp

lemma from_le_bytes_byte:
  assumes "length bs = 8" and "i < 8"
  shows "(drop_bit (i * 8) (from_le_bytes bs) AND 0xFF = 0) = (bs ! i = 0)"
proof -
  have "drop_bit (i * 8) (from_le_bytes bs) AND 0xFF =
      word_of_int (drop_bit (i * 8) (le_int bs) AND 0xFF)"
    using le_int_bound [of bs] assms(1)
    by (simp add: from_le_bytes_def drop_bit_word_of_int of_int_and_eq)
  also have "drop_bit (i * 8) (le_int bs) AND 0xFF = le_int bs div 256 ^ i mod 256"
    using take_bit_eq_mask [of 8 "drop_bit (i * 8) (le_int bs)"]
    by (simp add: take_bit_eq_mod drop_bit_eq_div power_mult mult.commute [of i] mask_eq_exp_minus_1)
  also have "\<dots> = uint (bs ! i)" using le_int_nth assms by simp
  finally have e: "drop_bit (i * 8) (from_le_bytes bs) AND 0xFF = (word_of_int (uint (bs ! i)) :: u64)" .
  have "uint (bs ! i) < 2 ^ 64" by (rule less_trans [OF uint_byte_bounds]) simp
  then have "uint (word_of_int (uint (bs ! i)) :: u64) = uint (bs ! i)"
    by (simp only: uint_word_of_int_eq) (simp add: take_bit_int_eq_self)
  then show ?thesis unfolding e by (metis uint_0_iff)
qed

lemma zero_index_from_eq:
  assumes "length bs = 8" "bs ! k = 0" "k < 8" "i \<le> k" "\<forall>j<k. bs ! j \<noteq> 0"
  shows "zero_index_from (from_le_bytes bs) i = k"
  using assms(4)
proof (induction "k - i" arbitrary: i)
  case 0
  with assms show ?case by (subst zero_index_from.simps) (simp add: from_le_bytes_byte)
next
  case (Suc n)
  then have "i < k" by simp
  with Suc assms show ?case by (subst zero_index_from.simps) (simp add: from_le_bytes_byte)
qed

lemma zero_index_first:
  "length (xs @ 0 # ys) = 8 \<Longrightarrow> 0 \<notin> set xs \<Longrightarrow> zero_index (from_le_bytes (xs @ 0 # ys)) = length xs"
  unfolding zero_index_def
  by (rule zero_index_from_eq) (auto simp: nth_append in_set_conv_nth)

lemma zero_bits_first:
  assumes "length (xs @ 0 # ys) = 8" and "0 \<notin> set xs"
  defines "z \<equiv> zero_bits (from_le_bytes (xs @ 0 # ys))"
  shows "z \<noteq> 0" and "(z AND - z) - 1 = mask (8 * length xs + 7)"
proof -
  obtain m where m: "m \<ge> 0"
    "zero_mask (le_int (xs @ 0 # ys)) 8 = 2 ^ (8 * length xs + 7) * (2 * m + 1)"
    using zero_mask_first [OF assms(2), of ys] assms(1) by auto
  have k: "8 * length xs + 7 < 64" using assms(1) by simp
  have z: "z = word_of_int (2 ^ (8 * length xs + 7) * (2 * m + 1))"
    unfolding z_def by (simp only: zero_bits_word [OF assms(1)] m)
  have "z AND - z = word_of_int ((2 ^ (8 * length xs + 7) * (2 * m + 1)) AND
      - (2 ^ (8 * length xs + 7) * (2 * m + 1)))"
    by (simp only: z of_int_and_eq of_int_minus)
  then have f: "z AND - z = 2 ^ (8 * length xs + 7)"
    by (simp only: lowest_bit of_int_power of_int_numeral)
  moreover have "(2 ^ (8 * length xs + 7) :: u64) \<noteq> 0"
    using k by simp
  ultimately show "z \<noteq> 0" by auto
  show "(z AND - z) - 1 = mask (8 * length xs + 7)"
    by (simp only: f mask_eq_exp_minus_1)
qed

lemma le_int_take_bit:
  "take_bit (8 * length xs + 7) (le_int (xs @ 0 # ys)) = le_int xs"
proof -
  have "le_int (xs @ 0 # ys) = le_int xs + 2 ^ (8 * length xs + 7) * (2 * le_int ys)"
    by (simp add: le_int_append power_mult power_add)
  moreover have "le_int xs < 2 ^ (8 * length xs + 7)"
  proof -
    have "(256::int) ^ length xs \<le> 256 ^ length xs * 128" by simp
    with le_int_bound [of xs] have "le_int xs < 256 ^ length xs * 128" by linarith
    then show ?thesis by (simp add: power_mult power_add)
  qed
  ultimately show ?thesis by (simp add: take_bit_eq_mod mod_pos_pos_trivial)
qed

lemma lower_word_masked:
  assumes "length (xs @ 0 # ys) = 8"
  shows "lower_word (from_le_bytes (xs @ 0 # ys)) AND mask (8 * length xs + 7) =
         from_le_bytes (map to_ascii_lowercase xs)"
proof -
  have l0: "to_ascii_lowercase 0 = 0" by (simp add: to_ascii_lowercase_def)
  have "lower_word (from_le_bytes (xs @ 0 # ys)) AND mask (8 * length xs + 7) =
     take_bit (8 * length xs + 7) (word_of_int (le_int (map to_ascii_lowercase xs @ 0 # map to_ascii_lowercase ys)))"
    using lower_word_bytes [OF assms] by (simp add: take_bit_eq_mask from_le_bytes_def l0)
  also have "\<dots> = word_of_int (le_int (map to_ascii_lowercase xs))"
    using le_int_take_bit [of "map to_ascii_lowercase xs" "map to_ascii_lowercase ys"] assms
    by (simp add: take_bit_word_of_int)
  finally show ?thesis by (simp add: from_le_bytes_def)
qed


section \<open>Userspace: hashing a byte string and a name\<close>

function as_chunks :: "bytes \<Rightarrow> bytes list \<times> bytes" where
  "as_chunks xs =
     (if length xs < 8 then ([], xs)
      else let (cs, tail) = as_chunks (drop 8 xs) in (take 8 xs # cs, tail))"
  by pat_completeness auto
termination
  by (relation "measure length") auto

declare as_chunks.simps [simp del]

definition fnv1a_64 :: "bytes \<Rightarrow> u64" where
  "fnv1a_64 xs =
     (let (chunks, tail) = as_chunks xs;
          hash = foldl (\<lambda>hash chunk. fnv1a_word hash (from_le_bytes chunk)) FNV_OFFSET_BASIS chunks
      in if tail \<noteq> [] then fnv1a_word hash (from_le_bytes (tail @ replicate (8 - length tail) 0))
         else hash)"

text \<open>A name is its labels, leftmost first. \<open>wire_push\<close> is one store into the 257-byte buffer on
  the stack, \<^term>\<open>None\<close> when it would write past the buffer.\<close>

definition WIRE_BUF_LEN :: nat where
  "WIRE_BUF_LEN = 255 + 2"

definition wire_push :: "bytes \<Rightarrow> u8 \<Rightarrow> bytes option" where
  "wire_push wire b = (if length wire < WIRE_BUF_LEN then Some (wire @ [b]) else None)"

fun wire_push_lower :: "bytes \<Rightarrow> bytes \<Rightarrow> bytes option" where
  "wire_push_lower wire [] = Some wire"
| "wire_push_lower wire (b # bs) =
     do { wire' \<leftarrow> wire_push wire (to_ascii_lowercase b); wire_push_lower wire' bs }"

fun wire_push_labels :: "bytes \<Rightarrow> bytes list \<Rightarrow> bytes option" where
  "wire_push_labels wire [] = Some wire"
| "wire_push_labels wire (label # labels) =
     do { wire1 \<leftarrow> wire_push wire (of_nat (length label));
          wire2 \<leftarrow> wire_push_lower wire1 label;
          wire_push_labels wire2 labels }"

definition qtype_class_of :: "u16 \<Rightarrow> u16 \<Rightarrow> u32" where
  "qtype_class_of qtype qclass = (push_bit 16 (ucast qtype)) OR ucast qclass"

definition make_cache_key :: "bytes list \<Rightarrow> u16 \<Rightarrow> u16 \<Rightarrow> cache_key option" where
  "make_cache_key name qtype qclass =
     do { wire \<leftarrow> wire_push_labels [] name;
          wire' \<leftarrow> wire_push wire 0;
          Some \<lparr>name_hash = fnv1a_64 wire', qtype_class = qtype_class_of qtype qclass,
                key_pad = 0\<rparr> }"

section \<open>Kernel: parsing the question\<close>

definition MAX_QNAME_LEN :: nat where
  "MAX_QNAME_LEN = 255"

definition DNS_HDR_LEN :: nat where
  "DNS_HDR_LEN = 12"

text \<open>The byte loop for the last bytes of the frame. The outer option is a memory fault, the inner
  one the \<open>return None\<close> of the source.\<close>

function qname_tail :: "bytes \<Rightarrow> nat \<Rightarrow> nat \<Rightarrow> nat \<Rightarrow> u64 \<Rightarrow> (u64 \<times> nat \<times> nat) option option" where
  "qname_tail f pos name_len i word =
     (if i < 8 then
        if name_len \<ge> MAX_QNAME_LEN then Some None
        else if pos + 2 > length f then Some None
        else do {
          byte \<leftarrow> rd_u8 f pos;
          let word' = word OR push_bit (i * 8) (ucast (to_ascii_lowercase byte));
          if byte = 0 then Some (Some (word', pos + 1, name_len + 1))
          else qname_tail f (pos + 1) (name_len + 1) (i + 1) word' }
      else Some None)"
  by pat_completeness auto
termination
  by (relation "measure (\<lambda>(f, pos, name_len, i, word). 8 - i)") auto

declare qname_tail.simps [simp del]

function qname_loop :: "bytes \<Rightarrow> u64 \<Rightarrow> nat \<Rightarrow> nat \<Rightarrow> (u64 \<times> nat \<times> nat) option option" where
  "qname_loop f hash pos name_len =
     (if name_len \<ge> MAX_QNAME_LEN then Some None
      else if pos + 8 \<le> length f then do {
        bs \<leftarrow> rd_bytes f pos 8;
        let word = from_le_bytes bs;
        let zeros = zero_bits word;
        if zeros = 0 then qname_loop f (fnv1a_word hash (lower_word word)) (pos + 8) (name_len + 8)
        else let consumed = zero_index word + 1 in
          if name_len + consumed > MAX_QNAME_LEN then Some None
          else let first = zeros AND - zeros in
            Some (Some (fnv1a_word hash (lower_word word AND (first - 1)),
                        pos + consumed, name_len + consumed)) }
      else do {
        t \<leftarrow> qname_tail f pos name_len 0 0;
        Some (map_option (\<lambda>(word, pos', name_len'). (fnv1a_word hash word, pos', name_len')) t) })"
  by pat_completeness auto
termination
  by (relation "measure (\<lambda>(f, hash, pos, name_len). MAX_QNAME_LEN - name_len)") auto

declare qname_loop.simps [simp del]

definition be16 :: "u8 \<Rightarrow> u8 \<Rightarrow> u16" where
  "be16 hi lo = (push_bit 8 (ucast hi)) OR ucast lo"

definition parse_dns_question :: "bytes \<Rightarrow> nat \<Rightarrow> (u64 \<times> u16 \<times> u16 \<times> nat) option option" where
  "parse_dns_question f dns_offset = do {
     r \<leftarrow> qname_loop f FNV_OFFSET_BASIS (dns_offset + DNS_HDR_LEN) 0;
     case r of
       None \<Rightarrow> Some None
     | Some (hash, pos, name_len) \<Rightarrow>
         if pos + 4 > length f then Some None
         else do {
           b0 \<leftarrow> rd_u8 f pos; b1 \<leftarrow> rd_u8 f (pos + 1);
           b2 \<leftarrow> rd_u8 f (pos + 2); b3 \<leftarrow> rd_u8 f (pos + 3);
           Some (Some (hash, be16 b0 b1, be16 b2 b3, name_len + 4)) } }"

section \<open>The kernel parser hashes what userspace hashes\<close>

text \<open>Folding a byte string into a running hash, the form both loops refine.\<close>

function fnv_fold :: "u64 \<Rightarrow> bytes \<Rightarrow> u64" where
  "fnv_fold hash xs =
     (if xs = [] then hash
      else if length xs < 8 then fnv1a_word hash (from_le_bytes xs)
      else fnv_fold (fnv1a_word hash (from_le_bytes (take 8 xs))) (drop 8 xs))"
  by pat_completeness auto
termination
  by (relation "measure (\<lambda>(hash, xs). length xs)") auto

declare fnv_fold.simps [simp del]

lemma as_chunks_fold:
  "as_chunks xs = (cs, tail) \<Longrightarrow>
     fnv_fold hash xs = (let h = foldl (\<lambda>hash chunk. fnv1a_word hash (from_le_bytes chunk)) hash cs
       in if tail \<noteq> [] then fnv1a_word h (from_le_bytes (tail @ replicate (8 - length tail) 0)) else h)"
proof (induction xs arbitrary: hash cs tail rule: as_chunks.induct)
  case (1 xs)
  show ?case
  proof (cases "length xs < 8")
    case True
    with 1(2) show ?thesis
      by (subst fnv_fold.simps) (auto simp: as_chunks.simps [of xs] Let_def from_le_bytes_pad)
  next
    case False
    then obtain cs' where "as_chunks (drop 8 xs) = (cs', tail)" "cs = take 8 xs # cs'"
      using 1(2) by (auto simp: as_chunks.simps [of xs] Let_def split: prod.splits)
    with 1(1) [OF False] False show ?thesis by (subst fnv_fold.simps) auto
  qed
qed

lemma fnv1a_64_fold: "fnv1a_64 xs = fnv_fold FNV_OFFSET_BASIS xs"
  by (cases "as_chunks xs") (simp add: fnv1a_64_def as_chunks_fold)

lemma fnv_fold_word: "length ws = 8 \<Longrightarrow> fnv_fold hash (ws @ xs) = fnv_fold (fnv1a_word hash (from_le_bytes ws)) xs"
  by (subst fnv_fold.simps) auto

lemma fnv_fold_last:
  assumes "length xs < 8"
  shows "fnv_fold hash (xs @ [0]) = fnv1a_word hash (from_le_bytes xs)"
proof -
  have p: "from_le_bytes (xs @ [0]) = from_le_bytes xs"
    using from_le_bytes_pad [of xs 1] by simp
  show ?thesis
  proof (cases "length xs < 7")
    case True
    then show ?thesis by (subst fnv_fold.simps) (simp add: p)
  next
    case False
    with assms have "length (xs @ [0::u8]) = 8" by simp
    then have "fnv_fold hash ((xs @ [0]) @ []) = fnv_fold (fnv1a_word hash (from_le_bytes (xs @ [0]))) []"
      by (rule fnv_fold_word)
    then show ?thesis by (simp add: p fnv_fold.simps [of _ "[]"])
  qed
qed

lemma lowercase_0 [simp]: "to_ascii_lowercase 0 = 0"
  by (simp add: to_ascii_lowercase_def)


lemma from_le_bytes_snoc:
  assumes "length xs < 8"
  shows "from_le_bytes (xs @ [b]) = from_le_bytes xs OR push_bit (length xs * 8) (ucast b)"
proof -
  have "le_int xs < 2 ^ (length xs * 8)"
    using le_int_bound [of xs] by (simp add: power_mult mult.commute [of "length xs"])
  then have "take_bit (length xs * 8) (le_int xs) = le_int xs" by (simp add: take_bit_int_eq_self)
  then have "le_int (xs @ [b]) = concat_bit (length xs * 8) (le_int xs) (uint b)"
    by (simp add: concat_bit_eq le_int_append push_bit_eq_mult power_mult mult.commute [of "length xs"])
  also have "\<dots> = le_int xs OR push_bit (length xs * 8) (uint b)"
    using \<open>take_bit _ _ = _\<close> by (simp add: concat_bit_def)
  finally show ?thesis
    by (simp add: from_le_bytes_def of_int_or_eq push_bit_eq_mult)
qed

lemma from_le_bytes_snoc0 [simp]: "from_le_bytes (xs @ [0]) = from_le_bytes xs"
  using from_le_bytes_pad [of xs 1] by simp

text \<open>The bytes of the QNAME before its terminator, as the frame has them.\<close>

definition qname_bytes :: "bytes \<Rightarrow> nat \<Rightarrow> bytes" where
  "qname_bytes f pos = takeWhile (\<lambda>b. b \<noteq> 0) (drop pos f)"

lemma qname_bytes_step:
  "pos < length f \<Longrightarrow>
     qname_bytes f pos = (if f ! pos = 0 then [] else f ! pos # qname_bytes f (Suc pos))"
  by (simp add: qname_bytes_def Cons_nth_drop_Suc [symmetric])

lemma qname_bytes_end: "length f \<le> pos \<Longrightarrow> qname_bytes f pos = []"
  by (simp add: qname_bytes_def)

lemma qname_tail_eq:
  assumes "pos \<le> length f" and "length f < pos + (8 - length ds)" and "length ds \<le> 8"
  shows "qname_tail f pos nl (length ds) (from_le_bytes (map to_ascii_lowercase ds)) =
     Some (let ns = qname_bytes f pos in
       if nl + length ns + 1 \<le> MAX_QNAME_LEN \<and> pos + length ns + 2 \<le> length f
       then Some (from_le_bytes (map to_ascii_lowercase (ds @ ns)), pos + length ns + 1, nl + length ns + 1)
       else None)"
  using assms
proof (induction "8 - length ds" arbitrary: pos nl ds)
  case 0
  then show ?case by simp
next
  case (Suc n)
  let ?w = "from_le_bytes (map to_ascii_lowercase ds)"
  show ?case
  proof (cases "nl < MAX_QNAME_LEN \<and> pos + 2 \<le> length f")
    case False
    then have "qname_tail f pos nl (length ds) ?w = Some None"
      using Suc by (subst qname_tail.simps) auto
    with False show ?thesis by (auto simp: Let_def)
  next
    case True
    let ?b = "f ! pos"
    have l: "length ds < 8" using Suc(2) by simp
    have w: "?w OR push_bit (length ds * 8) (ucast (to_ascii_lowercase ?b)) =
        from_le_bytes (map to_ascii_lowercase (ds @ [?b]))"
      using from_le_bytes_snoc [of "map to_ascii_lowercase ds"] l by simp
    have r: "rd_u8 f pos = Some ?b" using True by (simp add: rd_u8_def)
    have u: "qname_tail f pos nl (length ds) ?w =
        (if ?b = 0 then Some (Some (from_le_bytes (map to_ascii_lowercase (ds @ [?b])), pos + 1, nl + 1))
         else qname_tail f (pos + 1) (nl + 1) (length ds + 1)
           (from_le_bytes (map to_ascii_lowercase (ds @ [?b]))))"
      using True l w by (subst qname_tail.simps) (simp add: r Let_def)
    show ?thesis
    proof (cases "?b = 0")
      case True': True
      with True u show ?thesis by (simp add: qname_bytes_step Let_def)
    next
      case False
      have "qname_tail f (pos + 1) (nl + 1) (length (ds @ [?b]))
          (from_le_bytes (map to_ascii_lowercase (ds @ [?b]))) =
        Some (let ns = qname_bytes f (pos + 1) in
          if nl + 1 + length ns + 1 \<le> MAX_QNAME_LEN \<and> pos + 1 + length ns + 2 \<le> length f
          then Some (from_le_bytes (map to_ascii_lowercase ((ds @ [?b]) @ ns)),
                     pos + 1 + length ns + 1, nl + 1 + length ns + 1)
          else None)"
        using Suc(2-5) True by (intro Suc(1)) auto
      with False True u show ?thesis by (simp add: qname_bytes_step Let_def)
    qed
  qed
qed

text \<open>One word of the name: either it has no terminator and the name goes on, or it is split at
  the first zero byte.\<close>

lemma qname_word_cases:
  assumes "pos + 8 \<le> length f"
  obtains (full) ws where "take 8 (drop pos f) = ws" "length ws = 8" "0 \<notin> set ws"
      "qname_bytes f pos = ws @ qname_bytes f (pos + 8)"
  | (split) ys where "take 8 (drop pos f) = qname_bytes f pos @ 0 # ys" "0 \<notin> set (qname_bytes f pos)"
      "length (qname_bytes f pos @ 0 # ys) = 8"
proof (cases "0 \<in> set (take 8 (drop pos f))")
  case False
  have "drop 8 (drop pos f) = drop (pos + 8) f" by (simp add: add.commute)
  then have "drop pos f = take 8 (drop pos f) @ drop (pos + 8) f"
    by (metis append_take_drop_id)
  then have "qname_bytes f pos =
      takeWhile (\<lambda>b. b \<noteq> 0) (take 8 (drop pos f) @ drop (pos + 8) f)"
    unfolding qname_bytes_def by (rule arg_cong)
  also have "\<dots> = take 8 (drop pos f) @ qname_bytes f (pos + 8)"
    unfolding qname_bytes_def using False by (intro takeWhile_append2) auto
  finally have "qname_bytes f pos = take 8 (drop pos f) @ qname_bytes f (pos + 8)" .
  with False assms full show ?thesis by auto
next
  case True
  then obtain xs ys where s: "take 8 (drop pos f) = xs @ 0 # ys" "0 \<notin> set xs"
    by (meson split_list_first)
  then have "drop pos f = (xs @ 0 # ys) @ drop 8 (drop pos f)" by (metis append_take_drop_id)
  then have "qname_bytes f pos = takeWhile (\<lambda>b. b \<noteq> 0) ((xs @ 0 # ys) @ drop 8 (drop pos f))"
    unfolding qname_bytes_def by (rule arg_cong)
  also have "\<dots> = xs" using s(2) by (simp add: takeWhile_append)
  finally have q: "qname_bytes f pos = xs" .
  have "length (xs @ 0 # ys) = 8" using assms arg_cong [OF s(1), of length] by simp
  with q s split show ?thesis by metis
qed


lemma qname_loop_spec:
  assumes "pos \<le> length f"
  defines "ns \<equiv> qname_bytes f pos"
  shows "\<exists>r. qname_loop f hash pos nl = Some r \<and>
     (case r of
        None \<Rightarrow> \<not> (nl + length ns + 1 \<le> MAX_QNAME_LEN \<and> pos + length ns + 5 \<le> length f)
      | Some (h, p, n) \<Rightarrow> h = fnv_fold hash (map to_ascii_lowercase ns @ [0]) \<and>
          p = pos + length ns + 1 \<and> n = nl + length ns + 1 \<and> n \<le> MAX_QNAME_LEN)"
  using assms(1) unfolding ns_def
proof (induction "MAX_QNAME_LEN - nl" arbitrary: hash pos nl rule: less_induct)
  case less
  show ?case
  proof (cases "nl < MAX_QNAME_LEN")
    case False
    then show ?thesis by (subst qname_loop.simps) simp
  next
    case nl: True
    show ?thesis
    proof (cases "pos + 8 \<le> length f")
      case False
      have "qname_tail f pos nl 0 0 =
        Some (let ns = qname_bytes f pos in
         if nl + length ns + 1 \<le> MAX_QNAME_LEN \<and> pos + length ns + 2 \<le> length f
         then Some (from_le_bytes (map to_ascii_lowercase ns), pos + length ns + 1, nl + length ns + 1)
         else None)"
        using qname_tail_eq [of pos f "[]" nl] False less(2)
        by (simp add: from_le_bytes_def Let_def)
      moreover have "length (qname_bytes f pos) < 8"
        using False length_takeWhile_le [of "\<lambda>b. b \<noteq> 0" "drop pos f"] by (simp add: qname_bytes_def)
      ultimately show ?thesis using nl False
        by (subst qname_loop.simps) (auto simp: Let_def fnv_fold_last)
    next
      case True
      then show ?thesis
      proof (cases rule: qname_word_cases)
        case (full ws)
        have u: "qname_loop f hash pos nl =
            qname_loop f (fnv1a_word hash (from_le_bytes (map to_ascii_lowercase ws))) (pos + 8) (nl + 8)"
          using nl True full
          by (subst qname_loop.simps) (simp add: rd_bytes_def zero_bits_none lower_word_bytes Let_def)
        have "MAX_QNAME_LEN - (nl + 8) < MAX_QNAME_LEN - nl" using nl by simp
        from less(1) [OF this True, of "fnv1a_word hash (from_le_bytes (map to_ascii_lowercase ws))"]
        obtain r where "qname_loop f hash pos nl = Some r"
          "case r of
             None \<Rightarrow> \<not> (nl + 8 + length (qname_bytes f (pos + 8)) + 1 \<le> MAX_QNAME_LEN \<and>
                       pos + 8 + length (qname_bytes f (pos + 8)) + 5 \<le> length f)
           | Some (h, p, n) \<Rightarrow>
               h = fnv_fold (fnv1a_word hash (from_le_bytes (map to_ascii_lowercase ws)))
                     (map to_ascii_lowercase (qname_bytes f (pos + 8)) @ [0]) \<and>
               p = pos + 8 + length (qname_bytes f (pos + 8)) + 1 \<and>
               n = nl + 8 + length (qname_bytes f (pos + 8)) + 1 \<and> n \<le> MAX_QNAME_LEN"
          unfolding u by blast
        then show ?thesis
          using full(2,4) by (intro exI [of _ r]) (cases r; auto simp: fnv_fold_word)
      next
        case (split ys)
        then show ?thesis using nl True zero_bits_first [of "qname_bytes f pos" ys]
          by (subst qname_loop.simps)
            (auto simp: rd_bytes_def zero_index_first lower_word_masked fnv_fold_last Let_def)
      qed
    qed
  qed
qed


theorem parse_dns_question_spec:
  assumes "dns_offset + DNS_HDR_LEN \<le> length f"
  shows "parse_dns_question f dns_offset =
    (let pos = dns_offset + DNS_HDR_LEN; ns = qname_bytes f pos; q = pos + length ns + 1 in
     Some (if length ns + 1 \<le> MAX_QNAME_LEN \<and> q + 4 \<le> length f
           then Some (fnv1a_64 (map to_ascii_lowercase ns @ [0]),
                      be16 (f ! q) (f ! (q + 1)), be16 (f ! (q + 2)) (f ! (q + 3)), length ns + 1 + 4)
           else None))"
proof -
  let ?pos = "dns_offset + DNS_HDR_LEN"
  obtain r where r: "qname_loop f FNV_OFFSET_BASIS ?pos 0 = Some r"
    and c: "case r of
        None \<Rightarrow> \<not> (0 + length (qname_bytes f ?pos) + 1 \<le> MAX_QNAME_LEN \<and>
                   ?pos + length (qname_bytes f ?pos) + 5 \<le> length f)
      | Some (h, p, n) \<Rightarrow>
          h = fnv_fold FNV_OFFSET_BASIS (map to_ascii_lowercase (qname_bytes f ?pos) @ [0]) \<and>
          p = ?pos + length (qname_bytes f ?pos) + 1 \<and>
          n = 0 + length (qname_bytes f ?pos) + 1 \<and> n \<le> MAX_QNAME_LEN"
    using qname_loop_spec [OF assms, of FNV_OFFSET_BASIS 0] by blast
  show ?thesis
  proof (cases r)
    case None
    with r c show ?thesis by (auto simp: parse_dns_question_def Let_def)
  next
    case (Some t)
    with r c show ?thesis
      by (cases t) (auto simp: parse_dns_question_def rd_u8_def fnv1a_64_fold Let_def)
  qed
qed

section \<open>Names\<close>

text \<open>The names hickory hands to \<open>make_cache_key\<close>: labels of 1 to 63 bytes and at most 255 bytes
  on the wire. \<open>wire_name\<close> is the lowercased wire form, \<open>wire_query\<close> the form a client sends.\<close>

definition wire_name :: "bytes list \<Rightarrow> bytes" where
  "wire_name name = concat (map (\<lambda>l. of_nat (length l) # map to_ascii_lowercase l) name) @ [0]"

definition wire_query :: "bytes list \<Rightarrow> bytes" where
  "wire_query name = concat (map (\<lambda>l. of_nat (length l) # l) name) @ [0]"

definition name_ok :: "bytes list \<Rightarrow> bool" where
  "name_ok name = (list_all (\<lambda>l. 1 \<le> length l \<and> length l \<le> 63) name \<and> length (wire_name name) \<le> 255)"

lemma length_wire_query [simp]: "length (wire_query name) = length (wire_name name)"
  by (simp add: wire_query_def wire_name_def length_concat comp_def)

lemma wire_push_lower_eq:
  "length wire + length bs \<le> WIRE_BUF_LEN \<Longrightarrow>
     wire_push_lower wire bs = Some (wire @ map to_ascii_lowercase bs)"
  by (induction bs arbitrary: wire) (auto simp: wire_push_def)

lemma wire_push_labels_eq:
  "length wire + length (wire_name name) \<le> WIRE_BUF_LEN \<Longrightarrow>
     wire_push_labels wire name = Some (wire @ butlast (wire_name name))"
  by (induction name arbitrary: wire)
    (auto simp: wire_push_def wire_push_lower_eq wire_name_def butlast_append)

lemma make_cache_key_eq:
  assumes "name_ok name"
  shows "make_cache_key name qtype qclass =
    Some \<lparr>name_hash = fnv1a_64 (wire_name name), qtype_class = qtype_class_of qtype qclass, key_pad = 0\<rparr>"
proof -
  have "wire_push_labels [] name = Some (butlast (wire_name name))"
    using assms wire_push_labels_eq [of "[]" name] by (simp add: name_ok_def WIRE_BUF_LEN_def)
  moreover have "length (butlast (wire_name name)) < WIRE_BUF_LEN"
    using assms by (auto simp: name_ok_def WIRE_BUF_LEN_def)
  moreover have "butlast (wire_name name) @ [0] = wire_name name"
    by (simp add: wire_name_def)
  ultimately show ?thesis by (simp add: make_cache_key_def wire_push_def)
qed

text \<open>Length octets are below \<open>'A'\<close>, so lowercasing the whole wire form lowercases the labels.\<close>

lemma lowercase_len: "n \<le> 63 \<Longrightarrow> to_ascii_lowercase (of_nat n) = of_nat n"
  by (auto simp: to_ascii_lowercase_def word_le_nat_alt unat_of_nat)

lemma map_lowercase_wire:
  "list_all (\<lambda>l. length l \<le> 63) name \<Longrightarrow> map to_ascii_lowercase (wire_query name) = wire_name name"
  by (induction name) (auto simp: wire_query_def wire_name_def lowercase_len)

lemma of_nat_len_nz: "1 \<le> n \<Longrightarrow> n \<le> 63 \<Longrightarrow> (of_nat n :: u8) \<noteq> 0"
  by (auto simp: unat_eq_zero [symmetric] unat_of_nat)

lemma qname_bytes_wire:
  assumes "list_all (\<lambda>l. 1 \<le> length l \<and> length l \<le> 63 \<and> 0 \<notin> set l) name"
    and "drop pos f = wire_query name @ rest"
  shows "qname_bytes f pos = butlast (wire_query name)"
proof -
  have "0 \<notin> set (concat (map (\<lambda>l. of_nat (length l) # l) name))"
    using assms(1) of_nat_len_nz by (force simp: list_all_iff)
  then have "takeWhile (\<lambda>b. b \<noteq> 0) (wire_query name @ rest) = butlast (wire_query name)"
    by (auto simp: wire_query_def butlast_append takeWhile_append)
  then show ?thesis by (simp add: qname_bytes_def assms(2))
qed


lemma wire_name_cong:
  "map (map to_ascii_lowercase) name = map (map to_ascii_lowercase) name' \<Longrightarrow>
     wire_name name = wire_name name'"
proof (induction name arbitrary: name')
  case (Cons l name)
  then obtain l' name'' where n: "name' = l' # name''" and l: "map to_ascii_lowercase l = map to_ascii_lowercase l'"
    and r: "map (map to_ascii_lowercase) name = map (map to_ascii_lowercase) name''" by auto
  have "length l = length l'" using arg_cong [OF l, of length] by simp
  with Cons(1) [OF r] l n show ?case by (simp add: wire_name_def)
qed simp

lemma parse_wire_key:
  assumes "name_ok name" and "list_all (\<lambda>l. 0 \<notin> set l) name"
    and "drop (dns_offset + DNS_HDR_LEN) f = wire_query name @ [t1, t0, c1, c0] @ rest"
    and "map (map to_ascii_lowercase) name' = map (map to_ascii_lowercase) name"
    and "name_ok name'"
  shows "\<exists>k. make_cache_key name' (be16 t1 t0) (be16 c1 c0) = Some k \<and>
     parse_dns_question f dns_offset =
       Some (Some (name_hash k, be16 t1 t0, be16 c1 c0, length (wire_query name) + 4)) \<and>
     qtype_class k = qtype_class_of (be16 t1 t0) (be16 c1 c0) \<and> key_pad k = 0"
proof -
  let ?pos = "dns_offset + DNS_HDR_LEN" and ?n = "length (wire_query name)"
  have lab: "list_all (\<lambda>l. 1 \<le> length l \<and> length l \<le> 63 \<and> 0 \<notin> set l) name"
    using assms(1,2) by (auto simp: name_ok_def list_all_iff)
  have q: "qname_bytes f ?pos = butlast (wire_query name)"
    using qname_bytes_wire [OF lab assms(3)] .
  have len: "length f = ?pos + ?n + 4 + length rest"
    using arg_cong [OF assms(3), of length] by simp
  have nth: "f ! (?pos + ?n + i) = ([t1, t0, c1, c0] @ rest) ! i" if "i < 4" for i
  proof -
    have "f ! (?pos + (?n + i)) = drop ?pos f ! (?n + i)" using len that by (intro nth_drop [symmetric]) simp
    then show ?thesis using that by (simp only: assms(3)) (simp add: nth_append add.assoc)
  qed
  obtain m where m: "length (wire_name name) = Suc m"
    by (cases "wire_name name") (auto simp: wire_name_def)
  have h: "map to_ascii_lowercase (butlast (wire_query name)) @ [0] = wire_name name'"
  proof -
    have "map to_ascii_lowercase (wire_query name) = wire_name name"
      using lab by (intro map_lowercase_wire) (auto simp: list_all_iff)
    moreover have "wire_query name = butlast (wire_query name) @ [0]" by (simp add: wire_query_def)
    ultimately have "map to_ascii_lowercase (butlast (wire_query name)) @ [0] = wire_name name"
      by (metis lowercase_0 list.simps(8) list.simps(9) map_append)
    then show ?thesis using wire_name_cong [OF assms(4)] by simp
  qed
  have "parse_dns_question f dns_offset =
      Some (Some (fnv1a_64 (wire_name name'), be16 t1 t0, be16 c1 c0, ?n + 4))"
    using parse_dns_question_spec [of dns_offset f] len m q h assms(1) nth [of 0] nth [of 1] nth [of 2] nth [of 3]
    by (simp add: Let_def name_ok_def MAX_QNAME_LEN_def)
  with make_cache_key_eq [OF assms(5)] show ?thesis by simp
qed


text \<open>C1. The kernel and userspace compute the same cache key: if the bytes after the DNS header of
  a frame are the wire form of a name (with no zero byte inside a label), its type and its class,
  then the kernel's word-at-a-time parser succeeds without faulting, and the hash, type and class
  it returns are those of the key userspace builds for any spelling of that name in
  upper and lower case.\<close>

theorem kernel_key_agrees:
  assumes "name_ok name" and "list_all (\<lambda>l. 0 \<notin> set l) name"
    and "drop (dns_offset + DNS_HDR_LEN) f = wire_query name @ [t1, t0, c1, c0] @ rest"
    and "map (map to_ascii_lowercase) name' = map (map to_ascii_lowercase) name"
    and "name_ok name'"
  shows "\<exists>k. make_cache_key name' (be16 t1 t0) (be16 c1 c0) = Some k \<and>
     parse_dns_question f dns_offset =
       Some (Some (name_hash k, be16 t1 t0, be16 c1 c0, length (wire_query name) + 4)) \<and>
     qtype_class k = qtype_class_of (be16 t1 t0) (be16 c1 c0) \<and> key_pad k = 0"
  using assms by (rule parse_wire_key)

theorem kernel_key_agrees_witness:
  "\<exists>k. make_cache_key [[97]] 1 1 = Some k \<and>
     parse_dns_question (replicate 12 0 @ wire_query [[65]] @ [0, 1, 0, 1] @ []) 0 =
       Some (Some (name_hash k, 1, 1, 7)) \<and>
     qtype_class k = qtype_class_of 1 1 \<and> key_pad k = 0"
proof -
  have b: "be16 0 1 = 1" by code_simp
  have "\<exists>k. make_cache_key [[97]] (be16 0 1) (be16 0 1) = Some k \<and>
     parse_dns_question (replicate 12 0 @ wire_query [[65]] @ [0, 1, 0, 1] @ []) 0 =
       Some (Some (name_hash k, be16 0 1, be16 0 1, length (wire_query [[65]]) + 4)) \<and>
     qtype_class k = qtype_class_of (be16 0 1) (be16 0 1) \<and> key_pad k = 0"
  proof (rule kernel_key_agrees)
    show "name_ok [[65]]" "name_ok [[97]]" "list_all (\<lambda>l. 0 \<notin> set l) [[65 :: u8]]"
      "map (map to_ascii_lowercase) [[97]] = map (map to_ascii_lowercase) [[65]]" by code_simp+
  qed (simp add: DNS_HDR_LEN_def)
  then show ?thesis by (simp add: b) (simp add: wire_name_def)
qed

text \<open>The hash is not injective on names: these two 14-letter host names have the same cache
  key. The lookup compares keys only, so an entry written for one name is served for the
  other.\<close>

theorem cache_key_collision:
  "let n1 = [[122, 107, 113, 119, 98, 115, 102, 97, 97, 97, 101, 97, 97, 101]];
       n2 = [[113, 110, 101, 104, 107, 109, 112, 97, 122, 108, 122, 106, 110, 122]]
   in n1 \<noteq> n2 \<and> name_ok n1 \<and> name_ok n2 \<and>
      make_cache_key n1 1 1 \<noteq> None \<and> make_cache_key n1 1 1 = make_cache_key n2 1 1"
  by code_simp

end
