(* ===== verification/Xdp_Program.thy ===== *)
theory Xdp_Program
  imports Xdp_Hash
begin

text \<open>
  The XDP program (\<open>xdp/doggy-dns-xdp-ebpf/src/main.rs\<close>, \<open>protocol.rs\<close>): packet parsing, the cache
  lookup, the rewrite of the frame into a reply, and the per-CPU counters.

  A frame is its bytes; \<open>ctx.data()\<close> is offset 0 and \<open>ctx.data_end()\<close> its length. Every packet or map
  access is a partial read or write, so a missing bounds check shows as \<^term>\<open>None\<close>.
  \<open>bpf_xdp_adjust_tail\<close> and \<open>bpf_ktime_get_ns\<close> are kernel helpers: the first is the parameter
  \<open>adjust\<close> (\<^term>\<open>None\<close> for a non-zero return code), the second the parameter \<open>now\<close>.
\<close>

section \<open>Packet helpers (\<open>protocol.rs\<close>)\<close>

definition ETH_P_IP :: u16 where "ETH_P_IP = 0x0800"
definition IPPROTO_UDP :: u8 where "IPPROTO_UDP = 17"
definition ETH_HDR_LEN :: nat where "ETH_HDR_LEN = repr_c_size [(6, 1), (6, 1), (2, 2)]"
definition IP_HDR_LEN :: nat where
  "IP_HDR_LEN = repr_c_size [(1, 1), (1, 1), (2, 2), (2, 2), (2, 2), (1, 1), (1, 1), (2, 2), (4, 4), (4, 4)]"
definition UDP_HDR_LEN :: nat where "UDP_HDR_LEN = repr_c_size [(2, 2), (2, 2), (2, 2), (2, 2)]"
definition COPY_CHUNK :: nat where "COPY_CHUNK = 16"

definition ihl :: "u8 \<Rightarrow> u8" where
  "ihl ihl_ver = ihl_ver AND 0x0F"

definition copy_chunk :: "bytes \<Rightarrow> nat \<Rightarrow> bytes \<Rightarrow> nat \<Rightarrow> bytes option" where
  "copy_chunk f dst src src_off = do {
     lo \<leftarrow> rd_bytes src src_off 8;
     hi \<leftarrow> rd_bytes src (src_off + 8) 8;
     f1 \<leftarrow> wr_bytes f dst lo;
     wr_bytes f1 (dst + 8) hi }"

definition swap_u16 :: "bytes \<Rightarrow> nat \<Rightarrow> nat \<Rightarrow> nat \<Rightarrow> bytes option" where
  "swap_u16 f p a b = do {
     x \<leftarrow> rd_bytes f (p + a) 2;
     y \<leftarrow> rd_bytes f (p + b) 2;
     f1 \<leftarrow> wr_bytes f (p + a) y;
     wr_bytes f1 (p + b) x }"

definition swap_u32 :: "bytes \<Rightarrow> nat \<Rightarrow> nat \<Rightarrow> nat \<Rightarrow> bytes option" where
  "swap_u32 f p a b = do {
     x \<leftarrow> rd_bytes f (p + a) 4;
     y \<leftarrow> rd_bytes f (p + b) 4;
     f1 \<leftarrow> wr_bytes f (p + a) y;
     wr_bytes f1 (p + b) x }"

definition read_u16_be :: "bytes \<Rightarrow> nat \<Rightarrow> nat \<Rightarrow> u16 option" where
  "read_u16_be f p off = do {
     hi \<leftarrow> rd_u8 f (p + off);
     lo \<leftarrow> rd_u8 f (p + off + 1);
     Some ((push_bit 8 (ucast hi)) OR ucast lo) }"

definition write_u16_be :: "bytes \<Rightarrow> nat \<Rightarrow> nat \<Rightarrow> u16 \<Rightarrow> bytes option" where
  "write_u16_be f p off val = do {
     f1 \<leftarrow> wr_bytes f (p + off) [ucast (drop_bit 8 val)];
     wr_bytes f1 (p + off + 1) [ucast (val AND 0xFF)] }"

section \<open>State and results\<close>

definition MAX_DNS_LEN :: nat where "MAX_DNS_LEN = 512"
definition MAX_UDP_DNS_LEN :: nat where "MAX_UDP_DNS_LEN = 1500"
definition MIN_POSITIVE_LEN :: nat where "MIN_POSITIVE_LEN = DNS_HDR_LEN + 1 + 4"

datatype outcome = Hit | NegativeHit | Miss | Expired | Drop

datatype xdp_action = XDP_PASS | XDP_TX | XDP_DROP

text \<open>One constructor per \<open>warn!\<close> or \<open>error!\<close> site, with the values it prints.\<close>

datatype klog =
    Warn_config_missing
  | Warn_resp_len nat u16 u64
  | Warn_adjust_failed nat nat u16 u64
  | Error_frame_too_small nat nat u16 u64 u16
  | Error_nxdomain_fit nat u16
  | Error_truncated_copy u16
  | Error_truncated_txid u16
  | Error_eth_missing u16
  | Error_ip_missing u16
  | Error_udp_missing u16

definition is_error_log :: "klog \<Rightarrow> bool" where
  "is_error_log l = (case l of
       Warn_config_missing \<Rightarrow> False | Warn_resp_len _ _ _ \<Rightarrow> False
     | Warn_adjust_failed _ _ _ _ \<Rightarrow> False | _ \<Rightarrow> True)"

text \<open>The three maps of the program, as the running CPU sees them.\<close>

record xdp_maps =
  DNS_CACHE :: "cache_key \<Rightarrow> cache_value option"
  XDP_CONFIG :: "xdp_runtime_config option"
  XDP_STATS :: "xdp_stats option"

definition record_outcome :: "outcome \<Rightarrow> xdp_maps \<Rightarrow> xdp_maps" where
  "record_outcome oc m = (case XDP_STATS m of
       None \<Rightarrow> m
     | Some s \<Rightarrow> m\<lparr>XDP_STATS := Some (case oc of
           Hit \<Rightarrow> s\<lparr>hit := hit s + 1\<rparr>
         | NegativeHit \<Rightarrow> s\<lparr>negative_hit := negative_hit s + 1\<rparr>
         | Miss \<Rightarrow> s\<lparr>miss := miss s + 1\<rparr>
         | Expired \<Rightarrow> s\<lparr>expired := expired s + 1\<rparr>
         | Drop \<Rightarrow> s\<lparr>drop_count := drop_count s + 1\<rparr>)\<rparr>)"

text \<open>A write step either faults, fails with an optional log line (\<open>Err(())\<close>, the frame as it is then),
  or succeeds with the new frame. \<open>try_bind\<close> is the \<open>?\<close> operator.\<close>

type_synonym write_result = "(klog option \<times> bytes, bytes) result option"

definition try_bind :: "('e, 'a) result option \<Rightarrow> ('a \<Rightarrow> ('e, 'b) result option) \<Rightarrow> ('e, 'b) result option" where
  "try_bind m k = (case m of
       None \<Rightarrow> None | Some (Inl e) \<Rightarrow> Some (Inl e) | Some (Inr a) \<Rightarrow> k a)"

section \<open>Response construction\<close>

definition write_nxdomain :: "bytes \<Rightarrow> nat \<Rightarrow> u16 \<Rightarrow> write_result" where
  "write_nxdomain f dns txid =
     (if dns + DNS_HDR_LEN > length f then Some (Inl (Some (Error_nxdomain_fit DNS_HDR_LEN txid), f))
      else do {
        orig_flags \<leftarrow> read_u16_be f dns 2;
        let new_flags = 0x8000 OR (orig_flags AND 0x0100) OR 0x0003;
        f1 \<leftarrow> write_u16_be f dns 2 new_flags;
        f2 \<leftarrow> write_u16_be f1 dns 6 0;
        f3 \<leftarrow> write_u16_be f2 dns 8 0;
        f4 \<leftarrow> write_u16_be f3 dns 10 0;
        Some (Inr f4) })"

function copy_loop :: "bytes \<Rightarrow> nat \<Rightarrow> bytes \<Rightarrow> nat \<Rightarrow> u16 \<Rightarrow> nat \<Rightarrow> write_result" where
  "copy_loop f dns src len txid i =
     (if i < len then
        if dns + i + COPY_CHUNK > length f then Some (Inl (Some (Error_truncated_copy txid), f))
        else do {
          f1 \<leftarrow> copy_chunk f (dns + i) src i;
          copy_loop f1 dns src len txid (i + COPY_CHUNK) }
      else Some (Inr f))"
  by pat_completeness auto
termination
  by (relation "measure (\<lambda>(f, dns, src, len, txid, i). len - i)") (auto simp: COPY_CHUNK_def)

declare copy_loop.simps [simp del]

definition write_positive :: "bytes \<Rightarrow> nat \<Rightarrow> cache_value \<Rightarrow> nat \<Rightarrow> u16 \<Rightarrow> write_result" where
  "write_positive f dns entry len txid =
     (if len < MIN_POSITIVE_LEN \<or> len > MAX_DNS_LEN then Some (Inl (None, f))
      else let src = resp_data entry; lead = len AND (COPY_CHUNK - 1) in
        try_bind
          (if lead \<noteq> 0 then
             if dns + COPY_CHUNK > length f then Some (Inl (Some (Error_truncated_copy txid), f))
             else map_option Inr (copy_chunk f dns src 0)
           else Some (Inr f))
          (\<lambda>f1. try_bind (copy_loop f1 dns src len txid lead)
            (\<lambda>f2. if dns + 2 > length f2 then Some (Inl (Some (Error_truncated_txid txid), f2))
                  else map_option Inr (write_u16_be f2 dns 0 txid))))"

section \<open>Header swap, lengths and checksum\<close>

definition fold_sum :: "u32 \<Rightarrow> u32" where
  "fold_sum s = (s AND 0xFFFF) + drop_bit 16 s"

definition update_check :: "u16 \<Rightarrow> u16 \<Rightarrow> u16 \<Rightarrow> u16 \<Rightarrow> u16 \<Rightarrow> u16" where
  "update_check old_check old_tot_len new_tot_len old_frag_off new_frag_off =
     (let s = ucast (NOT old_check) + ucast (NOT old_tot_len) + ucast new_tot_len +
              ucast (NOT old_frag_off) + ucast new_frag_off;
          s1 = fold_sum s;
          s2 = fold_sum s1
      in NOT (ucast s2))"

definition finalize_headers :: "bytes \<Rightarrow> nat \<Rightarrow> nat \<Rightarrow> nat \<Rightarrow> u16 \<Rightarrow> write_result" where
  "finalize_headers f ip_hdr_len udp_offset new_dns_len txid =
     (if ETH_HDR_LEN > length f then Some (Inl (Some (Error_eth_missing txid), f))
      else do {
        f1 \<leftarrow> swap_u32 f 0 0 6;
        f2 \<leftarrow> swap_u16 f1 0 4 10;
        if ETH_HDR_LEN + IP_HDR_LEN > length f2 then Some (Inl (Some (Error_ip_missing txid), f2))
        else do {
          old_tot_len \<leftarrow> read_u16_be f2 ETH_HDR_LEN 2;
          old_frag_off \<leftarrow> read_u16_be f2 ETH_HDR_LEN 6;
          old_check \<leftarrow> read_u16_be f2 ETH_HDR_LEN 10;
          f3 \<leftarrow> swap_u32 f2 ETH_HDR_LEN 12 16;
          let new_tot_len = of_nat (ip_hdr_len + UDP_HDR_LEN + new_dns_len);
          let new_frag_off = old_frag_off OR 0x4000;
          f4 \<leftarrow> write_u16_be f3 ETH_HDR_LEN 2 new_tot_len;
          f5 \<leftarrow> write_u16_be f4 ETH_HDR_LEN 6 new_frag_off;
          f6 \<leftarrow> write_u16_be f5 ETH_HDR_LEN 10
                 (update_check old_check old_tot_len new_tot_len old_frag_off new_frag_off);
          if udp_offset + UDP_HDR_LEN > length f6 then Some (Inl (Some (Error_udp_missing txid), f6))
          else do {
            f7 \<leftarrow> swap_u16 f6 udp_offset 0 2;
            f8 \<leftarrow> write_u16_be f7 udp_offset 4 (of_nat (UDP_HDR_LEN + new_dns_len));
            f9 \<leftarrow> write_u16_be f8 udp_offset 6 0;
            Some (Inr f9) } } })"

section \<open>The program\<close>

record dns_query =
  q_ip_hdr_len :: nat
  q_udp_offset :: nat
  q_dns_offset :: nat
  q_old_dns_len :: nat
  q_name_hash :: u64
  q_qtype :: u16
  q_qclass :: u16
  q_question_len :: nat

text \<open>Steps 1 to 5: \<open>Inl logs\<close> is \<open>return Ok((XDP_PASS, None))\<close> with what was logged before it.\<close>

definition parse_query :: "xdp_maps \<Rightarrow> bytes \<Rightarrow> (klog list, dns_query) result option" where
  "parse_query m f =
     (if ETH_HDR_LEN > length f then Some (Inl [])
      else do {
        h_proto \<leftarrow> read_u16_be f 0 12;
        if h_proto \<noteq> ETH_P_IP then Some (Inl [])
        else if ETH_HDR_LEN + IP_HDR_LEN > length f then Some (Inl [])
        else do {
          protocol \<leftarrow> rd_u8 f (ETH_HDR_LEN + 9);
          if protocol \<noteq> IPPROTO_UDP then Some (Inl [])
          else do {
            ihl_ver \<leftarrow> rd_u8 f ETH_HDR_LEN;
            let ip_hdr_len = unat (ihl ihl_ver) * 4;
            if ip_hdr_len < 20 \<or> ETH_HDR_LEN + ip_hdr_len > length f then Some (Inl [])
            else let udp_offset = ETH_HDR_LEN + ip_hdr_len in
              if udp_offset + UDP_HDR_LEN > length f then Some (Inl [])
              else (case XDP_CONFIG m of
                  None \<Rightarrow> Some (Inl [Warn_config_missing])
                | Some config \<Rightarrow> do {
                    dest \<leftarrow> read_u16_be f udp_offset 2;
                    if dest \<noteq> dns_port config then Some (Inl [])
                    else do {
                      udp_len16 \<leftarrow> read_u16_be f udp_offset 4;
                      let udp_len = unat udp_len16;
                      if \<not> (UDP_HDR_LEN \<le> udp_len \<and> udp_len \<le> MAX_UDP_DNS_LEN) then Some (Inl [])
                      else let dns_offset = udp_offset + UDP_HDR_LEN in
                        if dns_offset + DNS_HDR_LEN > length f then Some (Inl [])
                        else do {
                          flags \<leftarrow> read_u16_be f dns_offset 2;
                          qdcount \<leftarrow> read_u16_be f dns_offset 4;
                          if flags AND 0x8000 \<noteq> 0 \<or> qdcount \<noteq> 1 then Some (Inl [])
                          else do {
                            r \<leftarrow> parse_dns_question f dns_offset;
                            (case r of
                               None \<Rightarrow> Some (Inl [])
                             | Some (hash, qtype, qclass, question_len) \<Rightarrow>
                                 Some (Inr \<lparr>q_ip_hdr_len = ip_hdr_len, q_udp_offset = udp_offset,
                                   q_dns_offset = dns_offset, q_old_dns_len = udp_len - UDP_HDR_LEN,
                                   q_name_hash = hash, q_qtype = qtype, q_qclass = qclass,
                                   q_question_len = question_len\<rparr>)) } } } }) } } })"

type_synonym xdp_result = "klog list \<times> bytes \<times> (unit, xdp_action \<times> outcome option) result"

text \<open>Steps 6 to 9: the lookup, the freshness check, the resize and the rewrite.\<close>

definition answer_query ::
  "(bytes \<Rightarrow> int \<Rightarrow> bytes option) \<Rightarrow> u64 \<Rightarrow> xdp_maps \<Rightarrow> bytes \<Rightarrow> dns_query \<Rightarrow> xdp_result option" where
  "answer_query adjust now m f q =
     (case DNS_CACHE m \<lparr>name_hash = q_name_hash q,
                        qtype_class = qtype_class_of (q_qtype q) (q_qclass q), key_pad = 0\<rparr> of
        None \<Rightarrow> Some ([], f, Inr (XDP_PASS, Some Miss))
      | Some entry \<Rightarrow>
          if expires_at entry \<le> now then Some ([], f, Inr (XDP_PASS, Some Expired))
          else do {
            txid \<leftarrow> read_u16_be f (q_dns_offset q) 0;
            let negative = (cv_flags entry AND FLAG_NEGATIVE \<noteq> 0);
            let rlen = unat (resp_len entry);
            if \<not> negative \<and> (rlen < MIN_POSITIVE_LEN \<or> rlen > MAX_DNS_LEN)
            then Some ([Warn_resp_len rlen txid (q_name_hash q)], f, Inr (XDP_PASS, None))
            else let new_dns_len = (if negative then DNS_HDR_LEN + q_question_len q else rlen);
                     delta = int new_dns_len - int (q_old_dns_len q) in
              (case adjust f delta of
                 None \<Rightarrow> Some ([Warn_adjust_failed (q_old_dns_len q) new_dns_len txid (q_name_hash q)],
                               f, Inr (XDP_PASS, None))
               | Some f1 \<Rightarrow>
                   if q_dns_offset q + new_dns_len > length f1
                   then Some ([Error_frame_too_small new_dns_len (q_dns_offset q) txid
                                 (q_name_hash q) (q_qtype q)], f1, Inl ())
                   else do {
                     r \<leftarrow> try_bind
                       (if negative then write_nxdomain f1 (q_dns_offset q) txid
                        else write_positive f1 (q_dns_offset q) entry rlen txid)
                       (\<lambda>f2. finalize_headers f2 (q_ip_hdr_len q) (q_udp_offset q) new_dns_len txid);
                     (case r of
                        Inl (l, f3) \<Rightarrow> Some (case l of None \<Rightarrow> [] | Some x \<Rightarrow> [x], f3, Inl ())
                      | Inr f3 \<Rightarrow>
                          Some ([], f3, Inr (XDP_TX, Some (if negative then NegativeHit else Hit)))) }) })"

definition try_dns_xdp ::
  "(bytes \<Rightarrow> int \<Rightarrow> bytes option) \<Rightarrow> u64 \<Rightarrow> xdp_maps \<Rightarrow> bytes \<Rightarrow> xdp_result option" where
  "try_dns_xdp adjust now m f = do {
     r \<leftarrow> parse_query m f;
     (case r of
        Inl logs \<Rightarrow> Some (logs, f, Inr (XDP_PASS, None))
      | Inr q \<Rightarrow> answer_query adjust now m f q) }"

text \<open>The entry point: the action, the frame as it leaves the program, the log lines and the maps.\<close>

definition dns_xdp ::
  "(bytes \<Rightarrow> int \<Rightarrow> bytes option) \<Rightarrow> u64 \<Rightarrow> xdp_maps \<Rightarrow> bytes \<Rightarrow>
     (xdp_action \<times> bytes \<times> klog list \<times> xdp_maps) option" where
  "dns_xdp adjust now m f = do {
     (logs, f', r) \<leftarrow> try_dns_xdp adjust now m f;
     let (action, outcome) = (case r of Inr x \<Rightarrow> x | Inl _ \<Rightarrow> (XDP_DROP, Some Drop));
     Some (action, f', logs, (case outcome of None \<Rightarrow> m | Some oc \<Rightarrow> record_outcome oc m)) }"


section \<open>Constants and helper specifications\<close>

lemma header_lens [simp]: "ETH_HDR_LEN = 14" "IP_HDR_LEN = 20" "UDP_HDR_LEN = 8" "COPY_CHUNK = 16"
  "DNS_HDR_LEN = 12" "MIN_POSITIVE_LEN = 17" "MAX_DNS_LEN = 512" "MAX_UDP_DNS_LEN = 1500"
  by code_simp+

definition hi8 :: "u16 \<Rightarrow> u8" where "hi8 v = ucast (drop_bit 8 v)"
definition lo8 :: "u16 \<Rightarrow> u8" where "lo8 v = ucast (v AND 0xFF)"

lemma read_u16_be_Some [mem_simps]:
  "p + off + 2 \<le> length f \<Longrightarrow> read_u16_be f p off = Some (be16 (f ! (p + off)) (f ! (p + off + 1)))"
  by (simp add: read_u16_be_def mem_simps be16_def)

lemma write_u16_be_Some [mem_simps]:
  assumes "p + off + 2 \<le> length f"
  shows "write_u16_be f p off v = wr_bytes f (p + off) [hi8 v, lo8 v]"
proof -
  have "wr_bytes f (p + off) [hi8 v] = Some (take (p + off) f @ hi8 v # drop (p + off + 1) f)"
    using assms by (simp add: mem_simps)
  then show ?thesis
    using assms by (simp add: write_u16_be_def hi8_def lo8_def mem_simps)
qed


lemma copy_chunk_Some:
  assumes "dst + 16 \<le> length f" and "off + 16 \<le> length src"
  shows "copy_chunk f dst src off = wr_bytes f dst (take 16 (drop off src))"
proof -
  have "wr_bytes f dst (take 8 (drop off src)) = Some (take dst f @ take 8 (drop off src) @ drop (dst + 8) f)"
    using assms by (simp add: mem_simps)
  moreover have "take 16 (drop off src) = take 8 (drop off src) @ take 8 (drop (off + 8) src)"
    using take_add [of 8 8 "drop off src"] by (simp add: add.commute)
  ultimately show ?thesis
    using assms by (simp add: copy_chunk_def mem_simps add.commute)
qed

lemma swap_Some:
  assumes "p + a + n \<le> length f" and "p + b + n \<le> length f"
  shows "\<exists>f'. do { x \<leftarrow> rd_bytes f (p + a) n; y \<leftarrow> rd_bytes f (p + b) n;
                 f1 \<leftarrow> wr_bytes f (p + a) y; wr_bytes f1 (p + b) x } = Some f' \<and> length f' = length f"
  using assms by (simp add: mem_simps)

lemma swap_u16_Some:
  "length f = n \<Longrightarrow> p + a + 2 \<le> n \<Longrightarrow> p + b + 2 \<le> n \<Longrightarrow>
     \<exists>f'. swap_u16 f p a b = Some f' \<and> length f' = n"
  unfolding swap_u16_def using swap_Some by blast

lemma swap_u32_Some:
  "length f = n \<Longrightarrow> p + a + 4 \<le> n \<Longrightarrow> p + b + 4 \<le> n \<Longrightarrow>
     \<exists>f'. swap_u32 f p a b = Some f' \<and> length f' = n"
  unfolding swap_u32_def using swap_Some by blast

lemma write_u16_be_length:
  "length f = n \<Longrightarrow> p + off + 2 \<le> n \<Longrightarrow> \<exists>f'. write_u16_be f p off v = Some f' \<and> length f' = n"
  by (auto simp: mem_simps)

section \<open>Memory safety of the writers\<close>

text \<open>What a writer promises: it never faults and keeps the length of the frame, and a failure
  carries an error line.\<close>

definition writer_ok :: "bytes \<Rightarrow> write_result \<Rightarrow> bool" where
  "writer_ok f r = (case r of
       None \<Rightarrow> False
     | Some (Inl (l, f')) \<Rightarrow> (\<exists>x. l = Some x \<and> is_error_log x) \<and> length f' = length f
     | Some (Inr f') \<Rightarrow> length f' = length f)"

lemma writer_ok_simps [simp]:
  "writer_ok f (Some (Inr f')) = (length f' = length f)"
  "writer_ok f (Some (Inl (Some x, f'))) = (is_error_log x \<and> length f' = length f)"
  "writer_ok f None = False"
  by (auto simp: writer_ok_def)

lemma writer_ok_cong: "length f1 = length f \<Longrightarrow> writer_ok f1 r = writer_ok f r"
  by (simp only: writer_ok_def)

lemma try_bind_ok:
  assumes "writer_ok f m" and "\<And>f1. m = Some (Inr f1) \<Longrightarrow> length f1 = length f \<Longrightarrow> writer_ok f1 (k f1)"
  shows "writer_ok f (try_bind m k)"
  using assms by (auto simp: writer_ok_def try_bind_def split: option.splits sum.splits)

lemma bind_ok:
  assumes "\<exists>f1. m = Some f1 \<and> length f1 = length f"
    and "\<And>f1. m = Some f1 \<Longrightarrow> length f1 = length f \<Longrightarrow> writer_ok f (k f1)"
  shows "writer_ok f (Option.bind m k)"
  using assms by auto

lemma is_error_log_simps [simp]:
  "is_error_log (Error_frame_too_small a b t h q)" "is_error_log (Error_nxdomain_fit n t)"
  "is_error_log (Error_truncated_copy t)" "is_error_log (Error_truncated_txid t)"
  "is_error_log (Error_eth_missing t)" "is_error_log (Error_ip_missing t)"
  "is_error_log (Error_udp_missing t)"
  by (simp_all add: is_error_log_def)

lemma write_nxdomain_ok: "writer_ok f (write_nxdomain f dns txid)"
proof (cases "dns + 12 \<le> length f")
  case True
  then have "writer_ok f (do {
        f1 \<leftarrow> write_u16_be f dns 2 v;
        f2 \<leftarrow> write_u16_be f1 dns 6 0;
        f3 \<leftarrow> write_u16_be f2 dns 8 0;
        f4 \<leftarrow> write_u16_be f3 dns 10 0;
        Some (Inr f4) })" for v
    by (intro bind_ok write_u16_be_length) auto
  with True show ?thesis by (simp add: write_nxdomain_def read_u16_be_Some Let_def)
qed (simp add: write_nxdomain_def)

lemma copy_loop_ok:
  "length src = 512 \<Longrightarrow> len \<le> 512 \<Longrightarrow> i mod 16 = len mod 16 \<Longrightarrow>
     writer_ok f (copy_loop f dns src len txid i)"
proof (induction f dns src len txid i rule: copy_loop.induct)
  case (1 f dns src len txid i)
  show ?case
  proof (cases "i < len \<and> dns + i + 16 \<le> length f")
    case False
    then show ?thesis by (subst copy_loop.simps) auto
  next
    case True
    have "16 dvd len - i" using True 1(4) by (metis less_imp_le mod_eq_dvd_iff_nat)
    then have "i + 16 \<le> len" using True by (auto dest: dvd_imp_le)
    with True 1(2,3) obtain f1 where f1: "copy_chunk f (dns + i) src i = Some f1" "length f1 = length f"
      by (auto simp: copy_chunk_Some mem_simps)
    have "writer_ok f1 (copy_loop f1 dns src len txid (i + 16))"
      using 1(1) [of f1] True f1 1(2-4) by auto
    with True f1 writer_ok_cong [OF f1(2)] show ?thesis by (subst copy_loop.simps) simp
  qed
qed

lemma nat_and_15: "n AND 15 = n mod (16 :: nat)"
  using take_bit_eq_mask [of 4 n] by (simp add: take_bit_eq_mod mask_eq_exp_minus_1)

lemma write_positive_ok:
  assumes "cache_value_wf entry" and "17 \<le> len" and "len \<le> 512"
  shows "writer_ok f (write_positive f dns entry len txid)"
proof -
  have src: "length (resp_data entry) = 512" using assms(1) by (simp add: cache_value_wf_def MAX_RESPONSE_SIZE_def)
  show ?thesis
    unfolding write_positive_def Let_def
    using assms(2,3) src
    by (auto simp: nat_and_15 copy_chunk_Some mem_simps intro!: try_bind_ok copy_loop_ok)
qed

lemma finalize_headers_ok: "writer_ok f (finalize_headers f ip_hdr_len udp_offset n txid)"
  unfolding finalize_headers_def Let_def
  by (auto simp: read_u16_be_Some intro!: bind_ok swap_u16_Some swap_u32_Some write_u16_be_length)


section \<open>Memory safety and exit classification\<close>

lemma parse_dns_question_total: "dns_offset + 12 \<le> length f \<Longrightarrow> \<exists>r. parse_dns_question f dns_offset = Some r"
  using parse_dns_question_spec [of dns_offset f] by (auto simp: Let_def)

lemma parse_query_total: "\<exists>r. parse_query m f = Some r"
proof -
  have q: "(\<exists>r. do { x \<leftarrow> parse_dns_question f d; k x } = Some r)"
    if "d + 12 \<le> length f" and "\<And>x. \<exists>r. k x = Some r" for d and k :: "_ \<Rightarrow> 'b option"
    using parse_dns_question_total [OF that(1)] that(2) by auto
  show ?thesis
    unfolding parse_query_def Let_def
    by (auto simp: read_u16_be_Some rd_u8_Some split: option.split intro!: q)
qed

text \<open>What the parser establishes about an accepted query.\<close>

definition query_wf :: "bytes \<Rightarrow> dns_query \<Rightarrow> bool" where
  "query_wf f q = (q_udp_offset q = 14 + q_ip_hdr_len q \<and> q_dns_offset q = q_udp_offset q + 8 \<and>
     20 \<le> q_ip_hdr_len q \<and> q_ip_hdr_len q \<le> 60 \<and> q_dns_offset q + 12 \<le> length f \<and>
     q_old_dns_len q \<le> 1492 \<and>
     parse_dns_question f (q_dns_offset q) =
       Some (Some (q_name_hash q, q_qtype q, q_qclass q, q_question_len q)))"

lemma ihl_bound: "unat (ihl b) \<le> 15"
proof -
  have "ihl b \<le> 0x0F" unfolding ihl_def by (rule word_and_le1)
  then show ?thesis by (simp add: word_le_nat_alt)
qed

lemma parse_query_wf: "parse_query m f = Some (Inr q) \<Longrightarrow> query_wf f q"
  unfolding parse_query_def Let_def query_wf_def
  using ihl_bound
  by (auto simp: read_u16_be_Some rd_u8_Some split: if_splits option.splits bind_splits)

definition cache_wf :: "xdp_maps \<Rightarrow> bool" where
  "cache_wf m = (\<forall>k v. DNS_CACHE m k = Some v \<longrightarrow> cache_value_wf v)"

text \<open>Where the program looks an accepted query up.\<close>

definition query_key :: "dns_query \<Rightarrow> cache_key" where
  "query_key q = \<lparr>name_hash = q_name_hash q, qtype_class = qtype_class_of (q_qtype q) (q_qclass q), key_pad = 0\<rparr>"

text \<open>How the answer to an accepted query can end, by what the cache holds for it.\<close>

definition query_exit_ok :: "(bytes \<Rightarrow> int \<Rightarrow> bytes option) \<Rightarrow> u64 \<Rightarrow> xdp_maps \<Rightarrow> bytes \<Rightarrow> dns_query \<Rightarrow> xdp_result \<Rightarrow> bool" where
  "query_exit_ok adjust now m f q = (\<lambda>(logs, f', r). case DNS_CACHE m (query_key q) of
      None \<Rightarrow> logs = [] \<and> f' = f \<and> r = Inr (XDP_PASS, Some Miss)
    | Some v \<Rightarrow>
        if expires_at v \<le> now then logs = [] \<and> f' = f \<and> r = Inr (XDP_PASS, Some Expired)
        else (case r of
            Inr (XDP_PASS, oc) \<Rightarrow> oc = None \<and> f' = f \<and> (\<exists>l. logs = [l] \<and> \<not> is_error_log l) \<and>
              (\<not> is_negative v \<and> (unat (resp_len v) < 17 \<or> 512 < unat (resp_len v)) \<or> (\<exists>d. adjust f d = None))
          | Inr (XDP_TX, oc) \<Rightarrow> oc = Some (if is_negative v then NegativeHit else Hit) \<and> logs = []
          | Inr (XDP_DROP, oc) \<Rightarrow> False
          | Inl _ \<Rightarrow> (\<exists>l. logs = [l] \<and> is_error_log l)))"

lemma written_exit:
  assumes "DNS_CACHE m (query_key q) = Some v" and "\<not> expires_at v \<le> now" and "writer_ok f1 w"
    and "oc = (if is_negative v then NegativeHit else Hit)"
  shows "\<exists>r. do { r \<leftarrow> w; (case r of
                Inl (l, f3) \<Rightarrow> Some (case l of None \<Rightarrow> [] | Some x \<Rightarrow> [x], f3, Inl ())
              | Inr f3 \<Rightarrow> Some ([], f3, Inr (XDP_TX, Some oc))) } = Some r \<and> query_exit_ok adjust now m f q r"
  using assms by (auto simp: writer_ok_def query_exit_ok_def split: option.splits sum.splits)

lemma answer_query_exit:
  assumes "query_wf f q" and "cache_wf m"
  shows "\<exists>r. answer_query adjust now m f q = Some r \<and> query_exit_ok adjust now m f q r"
proof (cases "DNS_CACHE m (query_key q)")
  case None
  then show ?thesis by (simp add: answer_query_def query_key_def query_exit_ok_def)
next
  case (Some v)
  note entry = Some [unfolded query_key_def]
  show ?thesis
  proof (cases "expires_at v \<le> now")
    case True
    with Some entry show ?thesis by (simp add: answer_query_def query_exit_ok_def)
  next
    case False
    have wf: "cache_value_wf v" using assms(2) Some by (auto simp: cache_wf_def)
    have x: "\<exists>x. read_u16_be f (q_dns_offset q) 0 = Some x"
      using assms(1) by (auto simp: query_wf_def read_u16_be_Some)
    have w: "writer_ok f1 (try_bind (write_nxdomain f1 d t) (\<lambda>f2. finalize_headers f2 a u n t))" for f1 d t a u n
      by (intro try_bind_ok write_nxdomain_ok finalize_headers_ok)
    have w': "writer_ok f1 (try_bind (write_positive f1 d v l t) (\<lambda>f2. finalize_headers f2 a u n t))"
      if "\<not> l < 17" "\<not> 512 < l" for f1 d l t a u n
      using that wf by (intro try_bind_ok write_positive_ok finalize_headers_ok) auto
    have pass: "query_exit_ok adjust now m f q ([l], f, Inr (XDP_PASS, None))"
      if "\<not> is_error_log l" "\<not> is_negative v \<and> (unat (resp_len v) < 17 \<or> 512 < unat (resp_len v)) \<or> (\<exists>d. adjust f d = None)" for l
      using that Some False by (simp add: query_exit_ok_def)
    have fail: "query_exit_ok adjust now m f q ([l], f1, Inl ())" if "is_error_log l" for l f1
      using that Some False by (simp add: query_exit_ok_def)
    show ?thesis
      using entry x False
      by (auto simp: answer_query_def Let_def is_negative_def [symmetric] is_error_log_def [of "Warn_resp_len _ _ _"]
          is_error_log_def [of "Warn_adjust_failed _ _ _ _"] is_error_log_def [of "Error_frame_too_small _ _ _ _ _"] simp del: split_paired_Ex
          split: option.split intro!: pass fail written_exit [OF Some False w] written_exit [OF Some False w'])
  qed
qed


lemma try_dns_xdp_exit:
  assumes "cache_wf m"
  shows "\<exists>r. try_dns_xdp adjust now m f = Some r \<and> (case parse_query m f of
      None \<Rightarrow> False
    | Some (Inl logs) \<Rightarrow> r = (logs, f, Inr (XDP_PASS, None))
    | Some (Inr q) \<Rightarrow> query_exit_ok adjust now m f q r)"
proof -
  obtain r where r: "parse_query m f = Some r" using parse_query_total by blast
  show ?thesis
  proof (cases r)
    case (Inr q)
    with r parse_query_wf answer_query_exit [OF _ assms] show ?thesis
      by (simp add: try_dns_xdp_def)
  qed (simp add: r try_dns_xdp_def)
qed

text \<open>C2. Memory safety of the whole program: whatever the frame, whatever the kernel answers to the
  resize (any new frame, of any length, or a refusal), whatever the clock, the configuration and
  the counters, and for every cache content of the map's value layout, the program never reads or
  writes outside the frame or the cached value.\<close>


theorem dns_xdp_memory_safe:
  assumes "cache_wf m"
  shows "dns_xdp adjust now m f \<noteq> None"
  using try_dns_xdp_exit [OF assms, of adjust now f]
  by (auto simp: dns_xdp_def Let_def split: prod.splits)




end
