(* ===== verification/Xdp_Reply.thy ===== *)
theory Xdp_Reply
  imports Xdp_Program
begin

text \<open>
  What the XDP program sends: the functional specification of the frame rewrite of
  \<open>xdp/doggy-dns-xdp-ebpf/src/main.rs\<close>. The chunked copy is an exact copy, the header rewrite turns
  the headers around and keeps the IPv4 checksum valid, and the whole program maps a query frame
  with a fresh cache entry to the reply frame. \<open>ip_udp_hdr\<close> and \<open>dns_msg\<close> describe frames for
  these statements; the program itself only sees bytes.
\<close>

section \<open>The reply body\<close>

lemma take_split: "n \<le> k \<Longrightarrow> take n xs @ take (k - n) (drop n xs) = take k xs"
  by (metis le_add_diff_inverse take_add)

lemma copy_loop_spec:
  "length src = 512 \<Longrightarrow> len \<le> 512 \<Longrightarrow> i mod 16 = len mod 16 \<Longrightarrow> i \<le> len \<Longrightarrow> dns + len \<le> length f \<Longrightarrow>
     copy_loop f dns src len txid i =
       Some (Inr (take (dns + i) f @ take (len - i) (drop i src) @ drop (dns + len) f))"
proof (induction f dns src len txid i rule: copy_loop.induct)
  case (1 f dns src len txid i)
  show ?case
  proof (cases "i < len")
    case False
    with 1(5) have "i = len" by simp
    then show ?thesis by (subst copy_loop.simps) simp
  next
    case True
    have "16 dvd len - i" using True 1(4) by (metis less_imp_le mod_eq_dvd_iff_nat)
    then have i16: "i + 16 \<le> len" using True by (auto dest: dvd_imp_le)
    let ?f1 = "take (dns + i) f @ take 16 (drop i src) @ drop (dns + i + 16) f"
    have c: "copy_chunk f (dns + i) src i = Some ?f1"
      using i16 1(2,3,6) by (simp add: copy_chunk_Some mem_simps)
    have t: "take (dns + i + 16) ?f1 = take (dns + i) f @ take 16 (drop i src)"
      using i16 1(2,3,6) by simp
    have d: "drop (dns + len) ?f1 = drop (dns + len) f"
      using i16 1(2,3,6) by (simp add: add.commute)
    have s: "take 16 (drop i src) @ take (len - (i + 16)) (drop (i + 16) src) = take (len - i) (drop i src)"
      using take_split [of 16 "len - i" "drop i src"] i16 by (simp add: add.commute)
    have "copy_loop ?f1 dns src len txid (i + 16) =
       Some (Inr (take (dns + (i + 16)) ?f1 @ take (len - (i + 16)) (drop (i + 16) src) @ drop (dns + len) ?f1))"
      using 1(1) [of ?f1] c i16 1(2-6) True by simp
    then have "copy_loop ?f1 dns src len txid (i + 16) =
        Some (Inr (take (dns + i) f @ (take 16 (drop i src) @ take (len - (i + 16)) (drop (i + 16) src)) @ drop (dns + len) f))"
      by (simp only: add.assoc [symmetric] t d append_assoc)
    with True i16 1(6) c s show ?thesis by (subst copy_loop.simps) simp
  qed
qed

text \<open>The transaction id of the query followed by the rest of the cached reply.\<close>

definition positive_reply :: "cache_value \<Rightarrow> u16 \<Rightarrow> bytes" where
  "positive_reply entry txid = [hi8 txid, lo8 txid] @ drop 2 (take (unat (resp_len entry)) (resp_data entry))"

lemma write_positive_spec:
  assumes "cache_value_wf entry" and "17 \<le> unat (resp_len entry)" and "unat (resp_len entry) \<le> 512"
    and "dns + unat (resp_len entry) \<le> length f"
  shows "write_positive f dns entry (unat (resp_len entry)) txid =
    Some (Inr (take dns f @ positive_reply entry txid @ drop (dns + unat (resp_len entry)) f))"
proof -
  let ?n = "unat (resp_len entry)" and ?src = "resp_data entry"
  let ?lead = "?n mod 16"
  have src: "length ?src = 512" using assms(1) by (simp add: cache_value_wf_def MAX_RESPONSE_SIZE_def)
  define f1 where "f1 = (if ?lead \<noteq> 0 then take dns f @ take 16 ?src @ drop (dns + 16) f else f)"
  have c: "(if ?lead \<noteq> 0 then if dns + COPY_CHUNK > length f then Some (Inl (Some (Error_truncated_copy txid), f))
             else map_option Inr (copy_chunk f dns ?src 0) else Some (Inr f)) = Some (Inr f1)"
    using assms src by (simp add: f1_def copy_chunk_Some mem_simps)
  have l: "length f1 = length f" "?lead \<le> ?n" "?lead < 16"
    using assms src by (auto simp: f1_def)
  have "take (dns + ?lead) f1 = take dns f @ take ?lead ?src"
    using assms src l by (auto simp: f1_def)
  moreover have "drop (dns + ?n) f1 = drop (dns + ?n) f"
    using assms src by (auto simp: f1_def add.commute)
  ultimately have "copy_loop f1 dns ?src ?n txid ?lead =
      Some (Inr (take dns f @ (take ?lead ?src @ take (?n - ?lead) (drop ?lead ?src)) @ drop (dns + ?n) f))"
    using copy_loop_spec [of ?src ?n ?lead dns f1 txid] src assms l by simp
  then have "copy_loop f1 dns ?src ?n txid ?lead = Some (Inr (take dns f @ take ?n ?src @ drop (dns + ?n) f))"
    using take_split [OF l(2)] by simp
  then show ?thesis
    using assms src c
    by (simp add: write_positive_def nat_and_15 Let_def try_bind_def positive_reply_def mem_simps)
qed

section \<open>Headers\<close>

lemma length6: "length xs = 6 \<Longrightarrow> \<exists>a b c d e g. xs = [a, b, c, d, e, g]"
  by (auto simp: eval_nat_numeral length_Suc_conv)

lemma length4: "length xs = 4 \<Longrightarrow> \<exists>a b c d. xs = [a, b, c, d]"
  by (auto simp: eval_nat_numeral length_Suc_conv)

text \<open>An Ethernet, IPv4 and UDP header as the code sees it: addresses as byte strings, big-endian
  fields as numbers.\<close>

record ip_udp_hdr =
  h_dst :: bytes
  h_src :: bytes
  h_vihl :: u8
  h_tos :: u8
  h_tot_len :: u16
  h_id :: u16
  h_frag :: u16
  h_ttl :: u8
  h_check :: u16
  h_saddr :: bytes
  h_daddr :: bytes
  h_opts :: bytes
  h_sport :: u16
  h_dport :: u16
  h_ulen :: u16
  h_ucheck :: u16

definition ip_bytes :: "ip_udp_hdr \<Rightarrow> bytes" where
  "ip_bytes h = [h_vihl h, h_tos h, hi8 (h_tot_len h), lo8 (h_tot_len h), hi8 (h_id h), lo8 (h_id h),
     hi8 (h_frag h), lo8 (h_frag h), h_ttl h, IPPROTO_UDP, hi8 (h_check h), lo8 (h_check h)] @
     h_saddr h @ h_daddr h @ h_opts h"

definition udp_bytes :: "ip_udp_hdr \<Rightarrow> bytes" where
  "udp_bytes h = [hi8 (h_sport h), lo8 (h_sport h), hi8 (h_dport h), lo8 (h_dport h),
     hi8 (h_ulen h), lo8 (h_ulen h), hi8 (h_ucheck h), lo8 (h_ucheck h)]"

definition hdr_bytes :: "ip_udp_hdr \<Rightarrow> bytes" where
  "hdr_bytes h = h_dst h @ h_src h @ [hi8 ETH_P_IP, lo8 ETH_P_IP] @ ip_bytes h @ udp_bytes h"

definition hdr_wf :: "ip_udp_hdr \<Rightarrow> bool" where
  "hdr_wf h = (length (h_dst h) = 6 \<and> length (h_src h) = 6 \<and> length (h_saddr h) = 4 \<and>
     length (h_daddr h) = 4 \<and> unat (ihl (h_vihl h)) * 4 = 20 + length (h_opts h))"

definition reply_hdr :: "ip_udp_hdr \<Rightarrow> nat \<Rightarrow> ip_udp_hdr" where
  "reply_hdr h n =
     (let tot = of_nat (20 + length (h_opts h) + 8 + n); frag = h_frag h OR 0x4000 in
      h\<lparr>h_dst := h_src h, h_src := h_dst h, h_tot_len := tot, h_frag := frag,
        h_check := update_check (h_check h) (h_tot_len h) tot (h_frag h) frag,
        h_saddr := h_daddr h, h_daddr := h_saddr h,
        h_sport := h_dport h, h_dport := h_sport h, h_ulen := of_nat (8 + n), h_ucheck := 0\<rparr>)"

lemma be16_hi_lo [simp]: "be16 (hi8 v) (lo8 v) = v"
proof -
  have m: "(0xFF :: u16) = mask 8" by (simp add: mask_eq_exp_minus_1)
  have "push_bit 8 (ucast (ucast (drop_bit 8 v) :: u8)) OR ucast (ucast (v AND 0xFF) :: u8) = v"
    unfolding m by (rule bit_word_eqI) (auto simp: bit_simps split: if_splits)
  then show ?thesis by (simp add: be16_def hi8_def lo8_def)
qed

lemma udp_stage:
  assumes "length P = u"
  shows "swap_u16 (P @ a # b # c # d # r) u 0 2 = Some (P @ c # d # a # b # r)"
    and "write_u16_be (P @ a # b # c # d # e # g # r) u 4 v = Some (P @ a # b # c # d # hi8 v # lo8 v # r)"
    and "write_u16_be (P @ a # b # c # d # e # g # x # y # r) u 6 v =
         Some (P @ a # b # c # d # e # g # hi8 v # lo8 v # r)"
  using assms by (auto simp: swap_u16_def mem_simps numeral_eq_Suc)

lemma eth_ip_stage:
  "swap_u32 (d0 # d1 # d2 # d3 # d4 # d5 # s0 # s1 # s2 # s3 # r) 0 0 6 =
     Some (s0 # s1 # s2 # s3 # d4 # d5 # d0 # d1 # d2 # d3 # r)"
  "swap_u16 (d0 # d1 # d2 # d3 # d4 # d5 # s0 # s1 # s2 # s3 # s4 # s5 # r) 0 4 10 =
     Some (d0 # d1 # d2 # d3 # s4 # s5 # s0 # s1 # s2 # s3 # d4 # d5 # r)"
  by (simp_all add: swap_u32_def swap_u16_def mem_simps numeral_eq_Suc)

lemma ip_stage:
  assumes "length E = 14"
  shows "read_u16_be (E @ i0 # i1 # i2 # i3 # r) 14 2 = Some (be16 i2 i3)"
    "read_u16_be (E @ i0 # i1 # i2 # i3 # i4 # i5 # i6 # i7 # r) 14 6 = Some (be16 i6 i7)"
    "read_u16_be (E @ i0 # i1 # i2 # i3 # i4 # i5 # i6 # i7 # i8 # i9 # i10 # i11 # r) 14 10 = Some (be16 i10 i11)"
    "write_u16_be (E @ i0 # i1 # i2 # i3 # r) 14 2 v = Some (E @ i0 # i1 # hi8 v # lo8 v # r)"
    "write_u16_be (E @ i0 # i1 # i2 # i3 # i4 # i5 # i6 # i7 # r) 14 6 v =
       Some (E @ i0 # i1 # i2 # i3 # i4 # i5 # hi8 v # lo8 v # r)"
    "write_u16_be (E @ i0 # i1 # i2 # i3 # i4 # i5 # i6 # i7 # i8 # i9 # i10 # i11 # r) 14 10 v =
       Some (E @ i0 # i1 # i2 # i3 # i4 # i5 # i6 # i7 # i8 # i9 # hi8 v # lo8 v # r)"
    "swap_u32 (E @ i0 # i1 # i2 # i3 # i4 # i5 # i6 # i7 # i8 # i9 # i10 # i11 #
         a0 # a1 # a2 # a3 # b0 # b1 # b2 # b3 # r) 14 12 16 =
       Some (E @ i0 # i1 # i2 # i3 # i4 # i5 # i6 # i7 # i8 # i9 # i10 # i11 #
         b0 # b1 # b2 # b3 # a0 # a1 # a2 # a3 # r)"
  using assms by (simp_all add: swap_u32_def mem_simps numeral_eq_Suc nth_append)


lemma finalize_headers_spec:
  assumes "hdr_wf h"
  shows "finalize_headers (hdr_bytes h @ d) (20 + length (h_opts h)) (34 + length (h_opts h)) n txid =
    Some (Inr (hdr_bytes (reply_hdr h n) @ d))"
proof -
  obtain d0 d1 d2 d3 d4 d5 where dst: "h_dst h = [d0, d1, d2, d3, d4, d5]"
    using assms length6 [of "h_dst h"] by (auto simp: hdr_wf_def)
  obtain s0 s1 s2 s3 s4 s5 where src: "h_src h = [s0, s1, s2, s3, s4, s5]"
    using assms length6 [of "h_src h"] by (auto simp: hdr_wf_def)
  obtain a0 a1 a2 a3 where sa: "h_saddr h = [a0, a1, a2, a3]"
    using assms length4 [of "h_saddr h"] by (auto simp: hdr_wf_def)
  obtain b0 b1 b2 b3 where da: "h_daddr h = [b0, b1, b2, b3]"
    using assms length4 [of "h_daddr h"] by (auto simp: hdr_wf_def)
  define E where "E = [s0, s1, s2, s3, s4, s5, d0, d1, d2, d3, d4, d5, hi8 ETH_P_IP, lo8 ETH_P_IP]"
  have E: "length E = 14" by (simp add: E_def)
  let ?r = "reply_hdr h n"
  define P where "P = E @ ip_bytes ?r"
  have P: "length P = 34 + length (h_opts h)"
    by (simp add: P_def E ip_bytes_def reply_hdr_def Let_def sa da)
  have e: "Option.bind (swap_u32 (hdr_bytes h @ d) 0 0 6) (\<lambda>f1. swap_u16 f1 0 4 10) =
      Some (E @ ip_bytes h @ udp_bytes h @ d)"
    by (simp add: hdr_bytes_def dst src eth_ip_stage E_def)
  have i: "do { old_tot_len \<leftarrow> read_u16_be (E @ ip_bytes h @ udp_bytes h @ d) 14 2;
          old_frag_off \<leftarrow> read_u16_be (E @ ip_bytes h @ udp_bytes h @ d) 14 6;
          old_check \<leftarrow> read_u16_be (E @ ip_bytes h @ udp_bytes h @ d) 14 10;
          f3 \<leftarrow> swap_u32 (E @ ip_bytes h @ udp_bytes h @ d) 14 12 16;
          let new_tot_len = of_nat (20 + length (h_opts h) + UDP_HDR_LEN + n);
          let new_frag_off = old_frag_off OR 0x4000;
          f4 \<leftarrow> write_u16_be f3 14 2 new_tot_len;
          f5 \<leftarrow> write_u16_be f4 14 6 new_frag_off;
          write_u16_be f5 14 10 (update_check old_check old_tot_len new_tot_len old_frag_off new_frag_off) } =
     Some (P @ udp_bytes h @ d)"
    by (simp add: ip_bytes_def sa da ip_stage [OF E] P_def reply_hdr_def Let_def)
  have u: "do { f7 \<leftarrow> swap_u16 (P @ udp_bytes h @ d) (34 + length (h_opts h)) 0 2;
            f8 \<leftarrow> write_u16_be f7 (34 + length (h_opts h)) 4 (of_nat (UDP_HDR_LEN + n));
            write_u16_be f8 (34 + length (h_opts h)) 6 0 } = Some (P @ udp_bytes ?r @ d)"
    by (simp add: udp_bytes_def udp_stage [OF P] reply_hdr_def Let_def)
  have r: "hdr_bytes ?r = P @ udp_bytes ?r"
    by (simp add: hdr_bytes_def P_def E_def reply_hdr_def Let_def dst src)
  obtain f1 where f1: "swap_u32 (hdr_bytes h @ d) 0 0 6 = Some f1"
      "swap_u16 f1 0 4 10 = Some (E @ ip_bytes h @ udp_bytes h @ d)"
    using e by (auto simp: bind_eq_Some_conv)
  obtain f7 f8 where u': "swap_u16 (P @ udp_bytes h @ d) (34 + length (h_opts h)) 0 2 = Some f7"
      "write_u16_be f7 (34 + length (h_opts h)) 4 (of_nat (UDP_HDR_LEN + n)) = Some f8"
      "write_u16_be f8 (34 + length (h_opts h)) 6 0 = Some (P @ udp_bytes ?r @ d)"
    using u by (auto simp: bind_eq_Some_conv)
  have l: "14 \<le> length (hdr_bytes h @ d)" "34 \<le> length (E @ ip_bytes h @ udp_bytes h @ d)"
    "42 + length (h_opts h) \<le> length (P @ udp_bytes h @ d)"
    using P E by (simp_all add: hdr_bytes_def dst src ip_bytes_def udp_bytes_def sa da)
  show ?thesis
    using i l f1 u' r by (clarsimp simp: bind_eq_Some_conv Let_def) (simp add: finalize_headers_def Let_def)
qed


section \<open>The IPv4 header checksum\<close>

text \<open>RFC 1071: the header is summed in 16-bit words with end-around carry; it is intact when the
  sum, its checksum field included, is all ones.\<close>

fun csum16 :: "bytes \<Rightarrow> nat" where
  "csum16 (a # b # r) = unat (be16 a b) + csum16 r"
| "csum16 [a] = unat (be16 a 0)"
| "csum16 [] = 0"

function ones_fold :: "nat \<Rightarrow> nat" where
  "ones_fold n = (if n < 65536 then n else ones_fold (n mod 65536 + n div 65536))"
  by pat_completeness auto
termination
proof (relation "measure id")
  fix n :: nat
  assume "\<not> n < 65536"
  then have "n div 65536 < 65536 * (n div 65536)" by simp
  then have "n mod 65536 + n div 65536 < n mod 65536 + 65536 * (n div 65536)" by linarith
  then show "(n mod 65536 + n div 65536, n) \<in> measure id" by simp
qed simp

declare ones_fold.simps [simp del]

definition ip_checksum_ok :: "bytes \<Rightarrow> bool" where
  "ip_checksum_ok bs = (ones_fold (csum16 bs) = 65535)"

lemma carry_mod: "(n mod 65536 + n div 65536) mod 65535 = n mod (65535 :: nat)"
proof -
  have "n = n mod 65536 + n div 65536 + 65535 * (n div 65536)"
    using mod_mult_div_eq [of n 65536] by simp
  then show ?thesis by (metis mod_mult_self2)
qed

lemma ones_fold_spec: "ones_fold n < 65536 \<and> ones_fold n mod 65535 = n mod 65535 \<and> (ones_fold n = 0 \<longleftrightarrow> n = 0)"
proof (induction n rule: ones_fold.induct)
  case (1 n)
  show ?case
  proof (cases "n < 65536")
    case True
    then show ?thesis by (simp add: ones_fold.simps [of n])
  next
    case False
    then have "n mod 65536 + n div 65536 \<noteq> 0" by auto
    with 1 [OF False] False show ?thesis by (simp add: ones_fold.simps [of n] carry_mod)
  qed
qed

lemma ip_checksum_ok_mod: "ip_checksum_ok bs \<longleftrightarrow> csum16 bs \<noteq> 0 \<and> csum16 bs mod 65535 = 0"
proof -
  have *: "x = 65535 \<longleftrightarrow> x \<noteq> 0 \<and> x mod 65535 = 0" if "x < 65536" for x :: nat
    using that by (auto elim!: dvdE simp: mod_eq_0_iff_dvd)
  show ?thesis
    unfolding ip_checksum_ok_def using ones_fold_spec [of "csum16 bs"] * [of "ones_fold (csum16 bs)"] by metis
qed

lemma unat_u16_bound: "unat (x :: u16) \<le> 65535"
  using unsigned_less [of x, where 'a = nat] by simp

lemma unat_not_u16: "unat (NOT x) = 65535 - unat (x :: u16)"
proof -
  have "NOT x = 65535 - x" by (simp add: not_eq_complement)
  moreover have "x \<le> 65535" by (simp add: word_le_nat_alt unat_u16_bound)
  ultimately show ?thesis by (simp add: unat_sub)
qed

lemma unat_fold_sum: "unat (fold_sum s) = unat s mod 65536 + unat s div 65536"
proof -
  have a: "unat (s AND 0xFFFF) = unat s mod 65536"
    using take_bit_eq_mask [of 16 s] unsigned_take_bit_eq [of 16 s, where 'a = nat] by (simp add: mask_eq_exp_minus_1 take_bit_eq_mod)
  have d: "unat (drop_bit 16 s) = unat s div 65536"
    by (simp only: unat_drop_bit_eq) (simp add: drop_bit_eq_div)
  have "unat s < 2 ^ 32" using unsigned_less [of s, where 'a = nat] by simp
  then have "unat s mod 65536 + unat s div 65536 < 2 ^ 32"
    using less_mult_imp_div_less [of "unat s" 65536 65536] by (simp add: add_less_le_mono)
  then show ?thesis
    unfolding fold_sum_def by (subst unat_add_lem [THEN iffD1]) (simp_all add: a d)
qed


lemma carry_bounds: "n < 65536 * 65535 \<Longrightarrow> n mod 65536 + n div 65536 \<le> 65535 + 65534" for n :: nat
proof -
  assume "n < 65536 * 65535"
  then have "n div 65536 < 65535" by (intro less_mult_imp_div_less) simp
  moreover have "n mod 65536 < 65536" by simp
  ultimately show ?thesis by linarith
qed

lemma two_carries:
  assumes "n \<le> 5 * 65535"
  defines "n1 \<equiv> n mod 65536 + n div (65536 :: nat)"
  shows "n1 mod 65536 + n1 div 65536 \<le> 65535"
proof -
  have "n div 65536 \<le> 4" using assms(1) by simp
  moreover have "n mod 65536 \<le> 65535" by (simp add: less_Suc_eq_le [symmetric])
  ultimately have "n1 \<le> 65535 + 4" unfolding n1_def by linarith
  then show ?thesis by (cases "n1 < 65536") (auto simp: not_less mod_if div_if)
qed

text \<open>Two folds bring any sum of five 16-bit addends back to 16 bits, as the comment in the source
  says, and the update is subtraction of the old words and addition of the new ones.\<close>

lemma update_check_mod:
  "(unat (update_check c t t' g g') + unat t' + unat g') mod 65535 = (unat c + unat t + unat g) mod 65535"
proof -
  define S :: u32 where "S = ucast (NOT c) + ucast (NOT t) + ucast t' + ucast (NOT g) + ucast g'"
  define n where "n = (65535 - unat c) + (65535 - unat t) + unat t' + (65535 - unat g) + unat g'"
  have nb: "n \<le> 5 * 65535"
    using unat_u16_bound [of t'] unat_u16_bound [of g'] by (simp add: n_def)
  have S: "unat S = n"
  proof -
    have "unat S = n mod 2 ^ 32"
      unfolding S_def n_def
      by (simp add: unat_word_ariths unat_not_u16 unsigned_ucast_eq take_bit_eq_mod mod_simps add.assoc)
    then show ?thesis using nb by simp
  qed
  define s2 where "s2 = fold_sum (fold_sum S)"
  have s2: "unat s2 \<le> 65535" "unat s2 mod 65535 = n mod 65535"
    using two_carries [OF nb] by (simp_all add: s2_def unat_fold_sum S carry_mod)
  have "unat (update_check c t t' g g') = 65535 - unat s2"
    using s2(1) by (simp add: update_check_def Let_def unat_not_u16 unsigned_ucast_eq take_bit_eq_mod S_def [symmetric] s2_def [symmetric])
  then have "int (unat (update_check c t t' g g')) = 65535 - int (unat s2)"
    using s2(1) by simp
  moreover obtain k where "int (unat s2) = int n + 65535 * k"
    using s2(2) by (metis mod_eq_iff_dvd_symdiff_nat zmod_int of_nat_mod mod_eqE of_nat_numeral)
  moreover have "int n = 3 * 65535 - int (unat c) - int (unat t) - int (unat g) + int (unat t') + int (unat g')"
    using unat_u16_bound [of c] unat_u16_bound [of t] unat_u16_bound [of g] by (simp add: n_def of_nat_diff)
  ultimately have "int (unat (update_check c t t' g g') + unat t' + unat g') =
      int (unat c + unat t + unat g) + 65535 * (- 2 - k)" by simp
  then have "int (unat (update_check c t t' g g') + unat t' + unat g') mod 65535 =
      int (unat c + unat t + unat g) mod 65535" by (metis mod_mult_self2)
  then have "int ((unat (update_check c t t' g g') + unat t' + unat g') mod 65535) =
      int ((unat c + unat t + unat g) mod 65535)" by (simp only: of_nat_mod of_nat_numeral)
  then show ?thesis by (simp only: of_nat_eq_iff)
qed


lemma csum16_ip:
  assumes "h_saddr h = [a0, a1, a2, a3]" and "h_daddr h = [b0, b1, b2, b3]"
  shows "csum16 (ip_bytes h) =
    (unat (h_check h) + unat (h_tot_len h) + unat (h_frag h)) +
    (unat (be16 (h_vihl h) (h_tos h)) + unat (h_id h) + unat (be16 (h_ttl h) IPPROTO_UDP) +
     unat (be16 a0 a1) + unat (be16 a2 a3) + unat (be16 b0 b1) + unat (be16 b2 b3) + csum16 (h_opts h))"
  using assms by (simp add: ip_bytes_def)

lemma be16_ttl_nz: "unat (be16 x IPPROTO_UDP) \<noteq> 0"
proof
  assume "unat (be16 x IPPROTO_UDP) = 0"
  then have "be16 x IPPROTO_UDP = 0" by (simp add: unat_eq_zero)
  then have "bit (be16 x IPPROTO_UDP) 0 = False" by simp
  then show False by (simp add: be16_def IPPROTO_UDP_def bit_simps)
qed

text \<open>C7. The incremental checksum update is right: if the IPv4 header of the query is intact, the
  header of the reply is intact too, after both addresses are swapped, DF is set and the
  total length is replaced.\<close>

theorem reply_checksum_ok:
  assumes "hdr_wf h" and "ip_checksum_ok (ip_bytes h)"
  shows "ip_checksum_ok (ip_bytes (reply_hdr h n))"
proof -
  let ?r = "reply_hdr h n"
  obtain a0 a1 a2 a3 where sa: "h_saddr h = [a0, a1, a2, a3]"
    using assms length4 [of "h_saddr h"] by (auto simp: hdr_wf_def)
  obtain b0 b1 b2 b3 where da: "h_daddr h = [b0, b1, b2, b3]"
    using assms length4 [of "h_daddr h"] by (auto simp: hdr_wf_def)
  define R where "R = unat (be16 (h_vihl h) (h_tos h)) + unat (h_id h) + unat (be16 (h_ttl h) IPPROTO_UDP) +
     unat (be16 a0 a1) + unat (be16 a2 a3) + unat (be16 b0 b1) + unat (be16 b2 b3) + csum16 (h_opts h)"
  have old: "csum16 (ip_bytes h) = (unat (h_check h) + unat (h_tot_len h) + unat (h_frag h)) + R"
    using csum16_ip [OF sa da] by (simp add: R_def)
  have "h_saddr ?r = [b0, b1, b2, b3]" "h_daddr ?r = [a0, a1, a2, a3]"
    by (simp_all add: reply_hdr_def Let_def sa da)
  then have new: "csum16 (ip_bytes ?r) = (unat (h_check ?r) + unat (h_tot_len ?r) + unat (h_frag ?r)) + R"
    using csum16_ip [of ?r b0 b1 b2 b3 a0 a1 a2 a3] by (simp add: R_def) (simp add: reply_hdr_def Let_def)
  have "h_check ?r = update_check (h_check h) (h_tot_len h) (h_tot_len ?r) (h_frag h) (h_frag ?r)"
    by (simp add: reply_hdr_def Let_def)
  then have "(unat (h_check ?r) + unat (h_tot_len ?r) + unat (h_frag ?r)) mod 65535 =
      (unat (h_check h) + unat (h_tot_len h) + unat (h_frag h)) mod 65535"
    by (simp only: update_check_mod)
  then have "csum16 (ip_bytes ?r) mod 65535 = csum16 (ip_bytes h) mod 65535"
    unfolding old new by (rule mod_add_cong) simp
  moreover have "csum16 (ip_bytes ?r) \<noteq> 0" unfolding new R_def using be16_ttl_nz [of "h_ttl h"] by simp
  ultimately show ?thesis using assms(2) by (simp add: ip_checksum_ok_mod)
qed

section \<open>Answering a query\<close>

text \<open>A well-formed query message, and the conditions under which its frame is a DNS query of the
  configured port.\<close>

record dns_msg =
  m_txid :: u16
  m_flags :: u16
  m_counts :: bytes
  m_name :: "bytes list"
  m_qtype :: u16
  m_qclass :: u16
  m_rest :: bytes

definition question_bytes :: "dns_msg \<Rightarrow> bytes" where
  "question_bytes q = wire_query (m_name q) @ [hi8 (m_qtype q), lo8 (m_qtype q), hi8 (m_qclass q), lo8 (m_qclass q)]"

definition msg_bytes :: "dns_msg \<Rightarrow> bytes" where
  "msg_bytes q = [hi8 (m_txid q), lo8 (m_txid q), hi8 (m_flags q), lo8 (m_flags q), 0, 1] @ m_counts q @
     question_bytes q @ m_rest q"

definition query_frame_ok :: "xdp_maps \<Rightarrow> ip_udp_hdr \<Rightarrow> dns_msg \<Rightarrow> bool" where
  "query_frame_ok m h q = (hdr_wf h \<and> length (m_counts q) = 6 \<and> m_flags q AND 0x8000 = 0 \<and>
     name_ok (m_name q) \<and> list_all (\<lambda>l. 0 \<notin> set l) (m_name q) \<and>
     unat (h_ulen h) = 8 + length (msg_bytes q) \<and> length (msg_bytes q) \<le> 1492 \<and>
     XDP_CONFIG m = Some \<lparr>dns_port = h_dport h\<rparr>)"

lemma rd_u8_append: "length P = u \<Longrightarrow> rd_u8 (P @ r) (u + i) = rd_u8 r i"
  by (auto simp: rd_u8_def nth_append)

lemma read_u16_be_append: "length P = u \<Longrightarrow> read_u16_be (P @ r) u i = read_u16_be r 0 i"
  using rd_u8_append [of P u r "Suc i"] by (simp add: read_u16_be_def rd_u8_append)

lemma read_u16_be_lit [simp]:
  "read_u16_be (a # b # r) 0 0 = Some (be16 a b)"
  "read_u16_be (a # b # c # d # r) 0 2 = Some (be16 c d)"
  "read_u16_be (a # b # c # d # e # g # r) 0 4 = Some (be16 e g)"
  by (simp_all add: read_u16_be_Some numeral_eq_Suc)

lemma hdr_split:
  assumes "hdr_wf h"
  obtains P where "hdr_bytes h = P @ udp_bytes h" "length P = 34 + length (h_opts h)"
    "read_u16_be (P @ r) 0 12 = Some ETH_P_IP" "rd_u8 (P @ r) 23 = Some IPPROTO_UDP"
    "rd_u8 (P @ r) 14 = Some (h_vihl h)"
proof -
  obtain d0 d1 d2 d3 d4 d5 where dst: "h_dst h = [d0, d1, d2, d3, d4, d5]"
    using assms length6 [of "h_dst h"] by (auto simp: hdr_wf_def)
  obtain s0 s1 s2 s3 s4 s5 where src: "h_src h = [s0, s1, s2, s3, s4, s5]"
    using assms length6 [of "h_src h"] by (auto simp: hdr_wf_def)
  have l: "length (h_saddr h) = 4" "length (h_daddr h) = 4" using assms by (auto simp: hdr_wf_def)
  show thesis
    by (rule that [of "h_dst h @ h_src h @ [hi8 ETH_P_IP, lo8 ETH_P_IP] @ ip_bytes h"])
      (simp_all add: hdr_bytes_def ip_bytes_def dst src l read_u16_be_def rd_u8_def be16_def [symmetric])
qed

lemma length_msg: "length (m_counts q) = 6 \<Longrightarrow> 12 \<le> length (msg_bytes q)"
  by (simp add: msg_bytes_def)

lemma parse_query_frame:
  assumes ok: "query_frame_ok m h q" and nm: "name_ok name'"
    and ci: "map (map to_ascii_lowercase) name' = map (map to_ascii_lowercase) (m_name q)"
    and k: "make_cache_key name' (m_qtype q) (m_qclass q) = Some k"
  shows "parse_query m (hdr_bytes h @ msg_bytes q @ pad) =
    Some (Inr \<lparr>q_ip_hdr_len = 20 + length (h_opts h), q_udp_offset = 34 + length (h_opts h),
      q_dns_offset = 42 + length (h_opts h), q_old_dns_len = length (msg_bytes q),
      q_name_hash = name_hash k, q_qtype = m_qtype q, q_qclass = m_qclass q,
      q_question_len = length (question_bytes q)\<rparr>)"
proof -
  let ?o = "length (h_opts h)" and ?f = "hdr_bytes h @ msg_bytes q @ pad"
  have hw: "hdr_wf h" and cn: "length (m_counts q) = 6" and fl: "m_flags q AND 0x8000 = 0"
    and n1: "name_ok (m_name q)" and n0: "list_all (\<lambda>l. 0 \<notin> set l) (m_name q)"
    and ul: "unat (h_ulen h) = 8 + length (msg_bytes q)" "length (msg_bytes q) \<le> 1492"
    and cf: "XDP_CONFIG m = Some \<lparr>dns_port = h_dport h\<rparr>"
    using ok by (auto simp: query_frame_ok_def)
  obtain P where P: "hdr_bytes h = P @ udp_bytes h" "length P = 34 + ?o"
    "read_u16_be (P @ udp_bytes h @ msg_bytes q @ pad) 0 12 = Some ETH_P_IP"
    "rd_u8 (P @ udp_bytes h @ msg_bytes q @ pad) 23 = Some IPPROTO_UDP"
    "rd_u8 (P @ udp_bytes h @ msg_bytes q @ pad) 14 = Some (h_vihl h)"
    using hdr_split [OF hw] by blast
  have H: "length (hdr_bytes h) = 42 + ?o" by (simp add: P udp_bytes_def)
  have len: "54 + ?o \<le> length ?f" using length_msg [OF cn] by (simp add: H)
  have u: "read_u16_be ?f (34 + ?o) 2 = Some (h_dport h)" "read_u16_be ?f (34 + ?o) 4 = Some (h_ulen h)"
    unfolding P(1) append_assoc by (simp_all add: read_u16_be_append [OF P(2)] udp_bytes_def)
  have d: "read_u16_be ?f (42 + ?o) 2 = Some (m_flags q)" "read_u16_be ?f (42 + ?o) 4 = Some (be16 0 1)"
    by (simp_all add: read_u16_be_append [OF H] msg_bytes_def)
  have "drop (42 + ?o + DNS_HDR_LEN) ?f =
      wire_query (m_name q) @ [hi8 (m_qtype q), lo8 (m_qtype q), hi8 (m_qclass q), lo8 (m_qclass q)] @ m_rest q @ pad"
    using cn by (simp add: H msg_bytes_def question_bytes_def)
  from parse_wire_key [OF n1 n0 this ci nm] k
  have p: "parse_dns_question ?f (42 + ?o) =
      Some (Some (name_hash k, m_qtype q, m_qclass q, length (question_bytes q)))"
    by (simp add: question_bytes_def)
  have i: "unat (ihl (h_vihl h)) * 4 = 20 + ?o" using hw by (simp add: hdr_wf_def)
  have b1: "be16 0 1 = 1" by code_simp
  show ?thesis
    using P(3-5) len u d p i b1 cf fl ul
    unfolding parse_query_def by (simp add: P(1) Let_def)
qed


text \<open>The documented contract of \<open>bpf_xdp_adjust_tail\<close> at one call: on success the frame is longer or
  shorter by \<open>delta\<close> bytes at its end and otherwise unchanged.\<close>

definition adjusted :: "bytes \<Rightarrow> int \<Rightarrow> bytes \<Rightarrow> bool" where
  "adjusted f delta f1 = (int (length f1) = int (length f) + delta \<and>
     take (min (length f) (length f1)) f1 = take (min (length f) (length f1)) f)"

lemma adjusted_prefix:
  assumes "adjusted (H @ d) delta f1" and "length H \<le> length f1"
  shows "f1 = H @ drop (length H) f1"
proof -
  let ?n = "min (length (H @ d)) (length f1)"
  have "take (length H) (take ?n f1) = take (length H) (take ?n (H @ d))"
    using assms(1) by (simp add: adjusted_def)
  moreover have "min (length H) ?n = length H" using assms(2) by simp
  ultimately have "take (length H) f1 = H" by (simp add: take_take)
  then show ?thesis using append_take_drop_id [of "length H" f1] by simp
qed

lemma answer_positive:
  assumes hw: "hdr_wf h"
    and q: "q_ip_hdr_len q = 20 + length (h_opts h)" "q_udp_offset q = 34 + length (h_opts h)"
      "q_dns_offset q = 42 + length (h_opts h)"
    and c: "DNS_CACHE m \<lparr>name_hash = q_name_hash q, qtype_class = qtype_class_of (q_qtype q) (q_qclass q),
        key_pad = 0\<rparr> = Some v"
    and v: "cache_value_wf v" "now < expires_at v" "\<not> is_negative v"
      "17 \<le> unat (resp_len v)" "unat (resp_len v) \<le> 512"
    and t: "read_u16_be f (q_dns_offset q) 0 = Some txid"
    and a: "adjust f (int (unat (resp_len v)) - int (q_old_dns_len q)) = Some (hdr_bytes h @ d)"
    and d: "unat (resp_len v) \<le> length d" and H: "length (hdr_bytes h) = 42 + length (h_opts h)"
  shows "answer_query adjust now m f q =
    Some ([], hdr_bytes (reply_hdr h (unat (resp_len v))) @ positive_reply v txid @ drop (unat (resp_len v)) d,
          Inr (XDP_TX, Some Hit))"
proof -
  let ?n = "unat (resp_len v)" and ?dns = "42 + length (h_opts h)"
  have "write_positive (hdr_bytes h @ d) ?dns v ?n txid =
      Some (Inr (hdr_bytes h @ positive_reply v txid @ drop ?n d))"
    using write_positive_spec [OF v(1,4,5), of ?dns "hdr_bytes h @ d" txid] d by (simp add: H)
  moreover have "finalize_headers (hdr_bytes h @ positive_reply v txid @ drop ?n d)
      (20 + length (h_opts h)) (34 + length (h_opts h)) ?n txid =
      Some (Inr (hdr_bytes (reply_hdr h ?n) @ positive_reply v txid @ drop ?n d))"
    by (rule finalize_headers_spec [OF hw])
  ultimately show ?thesis
    using c v(2-5) t a d H q
    by (simp add: answer_query_def Let_def is_negative_def not_le try_bind_def)
qed


lemma length_hdr: "hdr_wf h \<Longrightarrow> length (hdr_bytes h) = 42 + length (h_opts h)"
  by (simp add: hdr_wf_def hdr_bytes_def ip_bytes_def udp_bytes_def)

lemma frame_txid:
  assumes "hdr_wf h"
  shows "read_u16_be (hdr_bytes h @ msg_bytes q @ pad) (42 + length (h_opts h)) 0 = Some (m_txid q)"
  by (simp add: read_u16_be_append [OF length_hdr [OF assms]] msg_bytes_def)

lemma adjusted_frame:
  assumes "hdr_wf h" and "adjusted (hdr_bytes h @ x @ pad) (int n - int (length x)) f1"
  shows "\<exists>d. f1 = hdr_bytes h @ d \<and> length d = n + length pad"
proof -
  have "int (length f1) = int (length (hdr_bytes h)) + int n + int (length pad)"
    using assms(2) by (simp add: adjusted_def)
  then have "length f1 = length (hdr_bytes h) + n + length pad" by linarith
  then show ?thesis
    using adjusted_prefix [OF assms(2)] by (intro exI [of _ "drop (length (hdr_bytes h)) f1"]) simp
qed

lemma dns_xdp_TX:
  "parse_query m f = Some (Inr q) \<Longrightarrow>
   answer_query adjust now m f q = Some ([], f', Inr (XDP_TX, Some oc)) \<Longrightarrow>
   dns_xdp adjust now m f = Some (XDP_TX, f', [], record_outcome oc m)"
  by (simp add: dns_xdp_def try_dns_xdp_def)

lemma xdp_serve_positive:
  assumes "query_frame_ok m h q" and "name_ok name'"
    and "map (map to_ascii_lowercase) name' = map (map to_ascii_lowercase) (m_name q)"
    and "make_cache_key name' (m_qtype q) (m_qclass q) = Some k" and "DNS_CACHE m k = Some v"
    and "cache_value_wf v" and "now < expires_at v" and "\<not> is_negative v"
    and "17 \<le> unat (resp_len v)" and "unat (resp_len v) \<le> 512"
    and "adjust (hdr_bytes h @ msg_bytes q @ pad) (int (unat (resp_len v)) - int (length (msg_bytes q))) = Some f1"
    and "adjusted (hdr_bytes h @ msg_bytes q @ pad) (int (unat (resp_len v)) - int (length (msg_bytes q))) f1"
  shows "\<exists>pad'. length pad' = length pad \<and>
    dns_xdp adjust now m (hdr_bytes h @ msg_bytes q @ pad) =
      Some (XDP_TX, hdr_bytes (reply_hdr h (unat (resp_len v))) @ positive_reply v (m_txid q) @ pad', [],
            record_outcome Hit m)"
proof -
  have hw: "hdr_wf h" using assms(1) by (simp add: query_frame_ok_def)
  obtain d where d: "f1 = hdr_bytes h @ d" "length d = unat (resp_len v) + length pad"
    using adjusted_frame [OF hw assms(12)] by blast
  have k: "k = \<lparr>name_hash = name_hash k, qtype_class = qtype_class_of (m_qtype q) (m_qclass q), key_pad = 0\<rparr>"
    using assms(4) make_cache_key_eq [OF assms(2)] by auto
  let ?q = "\<lparr>q_ip_hdr_len = 20 + length (h_opts h), q_udp_offset = 34 + length (h_opts h),
      q_dns_offset = 42 + length (h_opts h), q_old_dns_len = length (msg_bytes q),
      q_name_hash = name_hash k, q_qtype = m_qtype q, q_qclass = m_qclass q,
      q_question_len = length (question_bytes q)\<rparr>"
  have "answer_query adjust now m (hdr_bytes h @ msg_bytes q @ pad) ?q =
    Some ([], hdr_bytes (reply_hdr h (unat (resp_len v))) @ positive_reply v (m_txid q) @ drop (unat (resp_len v)) d,
          Inr (XDP_TX, Some Hit))"
    using assms(5-11) d k by (intro answer_positive) (simp_all add: hw frame_txid length_hdr)
  from dns_xdp_TX [OF parse_query_frame [OF assms(1-4)] this] d(2) show ?thesis
    by (intro exI [of _ "drop (unat (resp_len v)) d"]) simp
qed

text \<open>C4. A cached answer is served: for a well-formed query frame whose name has, in any
  spelling, a fresh positive entry of a valid length in the cache, and a resize that succeeds, the
  program transmits the frame with its headers turned around and its DNS message replaced by
  the cached reply under the query's transaction id, and counts a hit. Bytes after the message
  (link padding) stay.\<close>

theorem xdp_serves_positive:
  assumes "query_frame_ok m h q" and "name_ok name'"
    and "map (map to_ascii_lowercase) name' = map (map to_ascii_lowercase) (m_name q)"
    and "make_cache_key name' (m_qtype q) (m_qclass q) = Some k" and "DNS_CACHE m k = Some v"
    and "cache_value_wf v" and "now < expires_at v" and "\<not> is_negative v"
    and "17 \<le> unat (resp_len v)" and "unat (resp_len v) \<le> 512"
    and "adjust (hdr_bytes h @ msg_bytes q @ pad) (int (unat (resp_len v)) - int (length (msg_bytes q))) = Some f1"
    and "adjusted (hdr_bytes h @ msg_bytes q @ pad) (int (unat (resp_len v)) - int (length (msg_bytes q))) f1"
  shows "\<exists>pad'. length pad' = length pad \<and>
    dns_xdp adjust now m (hdr_bytes h @ msg_bytes q @ pad) =
      Some (XDP_TX, hdr_bytes (reply_hdr h (unat (resp_len v))) @ positive_reply v (m_txid q) @ pad', [],
            record_outcome Hit m)"
  using assms by (rule xdp_serve_positive)

text \<open>The reply to a negative hit: the query's header with QR, RD kept and RCODE 3, counts
  zeroed, and the question.\<close>

definition negative_reply :: "dns_msg \<Rightarrow> bytes" where
  "negative_reply q =
     (let fl = 0x8000 OR (m_flags q AND 0x0100) OR 0x0003 in
      [hi8 (m_txid q), lo8 (m_txid q), hi8 fl, lo8 fl, 0, 1, 0, 0, 0, 0, 0, 0] @ question_bytes q)"

lemma hi8_lo8_0 [simp]: "hi8 0 = 0" "lo8 0 = 0"
  by (simp_all add: hi8_def lo8_def)

lemma nxdomain_stage:
  assumes "length P = u"
  shows "write_u16_be (P @ a # b # c # d # r) u 2 v = Some (P @ a # b # hi8 v # lo8 v # r)"
    "write_u16_be (P @ a # b # c # d # e # g # i # j # r) u 6 v = Some (P @ a # b # c # d # e # g # hi8 v # lo8 v # r)"
    "write_u16_be (P @ a # b # c # d # e # g # i # j # k # l # r) u 8 v =
       Some (P @ a # b # c # d # e # g # i # j # hi8 v # lo8 v # r)"
    "write_u16_be (P @ a # b # c # d # e # g # i # j # k # l # x # y # r) u 10 v =
       Some (P @ a # b # c # d # e # g # i # j # k # l # hi8 v # lo8 v # r)"
  using assms by (simp_all add: mem_simps numeral_eq_Suc)

lemma write_nxdomain_spec:
  assumes "length P = u" and "length (m_counts q) = 6"
  shows "write_nxdomain (P @ [hi8 (m_txid q), lo8 (m_txid q), hi8 (m_flags q), lo8 (m_flags q), 0, 1] @
      m_counts q @ question_bytes q @ r) u txid = Some (Inr (P @ negative_reply q @ r))"
proof -
  obtain c0 c1 c2 c3 c4 c5 where c: "m_counts q = [c0, c1, c2, c3, c4, c5]"
    using assms(2) length6 by blast
  show ?thesis
    by (simp add: write_nxdomain_def c assms(1) read_u16_be_append [OF assms(1)] nxdomain_stage [OF assms(1)]
        negative_reply_def Let_def)
qed

lemma adjusted_shrink:
  assumes "adjusted f (int (length a) - int (length a + length r)) f1" and "f = H @ (a @ r) @ pad"
  shows "\<exists>pad'. f1 = H @ a @ pad' \<and> length pad' = length pad"
proof -
  have l: "length f1 + length r = length f" using assms(1) by (simp add: adjusted_def)
  then have "f1 = take (length f1) f" using assms(1) by (auto simp: adjusted_def min_def split: if_splits)
  then have "f1 = H @ a @ take (length pad) (r @ pad)"
    using l assms(2) by (simp add: take_append)
  then show ?thesis by (intro exI [of _ "take (length pad) (r @ pad)"]) simp
qed

lemma answer_negative:
  assumes hw: "hdr_wf h" and n: "n = 12 + length (question_bytes msg)"
    and q: "q_ip_hdr_len q = 20 + length (h_opts h)" "q_udp_offset q = 34 + length (h_opts h)"
      "q_dns_offset q = 42 + length (h_opts h)" "q_question_len q = length (question_bytes msg)"
    and c: "DNS_CACHE m \<lparr>name_hash = q_name_hash q, qtype_class = qtype_class_of (q_qtype q) (q_qclass q),
        key_pad = 0\<rparr> = Some v"
    and v: "now < expires_at v" "is_negative v"
    and t: "read_u16_be f (q_dns_offset q) 0 = Some txid"
    and a: "adjust f (int n - int (q_old_dns_len q)) = Some (hdr_bytes h @
        ([hi8 (m_txid msg), lo8 (m_txid msg), hi8 (m_flags msg), lo8 (m_flags msg), 0, 1] @
         m_counts msg @ question_bytes msg) @ pad)"
    and m6: "length (m_counts msg) = 6"
  shows "answer_query adjust now m f q =
    Some ([], hdr_bytes (reply_hdr h n) @ negative_reply msg @ pad, Inr (XDP_TX, Some NegativeHit))"
proof -
  have "write_nxdomain (hdr_bytes h @
        ([hi8 (m_txid msg), lo8 (m_txid msg), hi8 (m_flags msg), lo8 (m_flags msg), 0, 1] @
         m_counts msg @ question_bytes msg) @ pad) (42 + length (h_opts h)) txid =
      Some (Inr (hdr_bytes h @ negative_reply msg @ pad))"
    using write_nxdomain_spec [OF length_hdr [OF hw] m6, of pad txid] by simp
  moreover have "finalize_headers (hdr_bytes h @ negative_reply msg @ pad)
      (20 + length (h_opts h)) (34 + length (h_opts h)) n txid =
      Some (Inr (hdr_bytes (reply_hdr h n) @ negative_reply msg @ pad))"
    by (rule finalize_headers_spec [OF hw])
  moreover have "int n = 12 + int (length (question_bytes msg))" using n by simp
  ultimately show ?thesis
    using c v t a q n m6
    by (simp add: answer_query_def Let_def is_negative_def not_le try_bind_def length_hdr [OF hw])
qed


lemma xdp_serve_negative:
  assumes "query_frame_ok m h q" and "name_ok name'"
    and "map (map to_ascii_lowercase) name' = map (map to_ascii_lowercase) (m_name q)"
    and "make_cache_key name' (m_qtype q) (m_qclass q) = Some k" and "DNS_CACHE m k = Some v"
    and "now < expires_at v" and "is_negative v"
    and "adjust (hdr_bytes h @ msg_bytes q @ pad) (- int (length (m_rest q))) = Some f1"
    and "adjusted (hdr_bytes h @ msg_bytes q @ pad) (- int (length (m_rest q))) f1"
  shows "\<exists>pad'. length pad' = length pad \<and>
    dns_xdp adjust now m (hdr_bytes h @ msg_bytes q @ pad) =
      Some (XDP_TX, hdr_bytes (reply_hdr h (length (negative_reply q))) @ negative_reply q @ pad', [],
            record_outcome NegativeHit m)"
proof -
  let ?f = "hdr_bytes h @ msg_bytes q @ pad"
  let ?hq = "[hi8 (m_txid q), lo8 (m_txid q), hi8 (m_flags q), lo8 (m_flags q), 0, 1] @ m_counts q @ question_bytes q"
  have hw: "hdr_wf h" and m6: "length (m_counts q) = 6" using assms(1) by (simp_all add: query_frame_ok_def)
  have delta: "int (12 + length (question_bytes q)) - int (length (msg_bytes q)) = - int (length (m_rest q))"
    using m6 by (simp add: msg_bytes_def)
  have "adjusted ?f (int (length ?hq) - int (length ?hq + length (m_rest q))) f1" using assms(9) by simp
  then obtain pad' where p: "f1 = hdr_bytes h @ ?hq @ pad'" "length pad' = length pad"
    using adjusted_shrink [of ?f ?hq "m_rest q" f1 "hdr_bytes h" pad] by (auto simp: msg_bytes_def)
  have k: "k = \<lparr>name_hash = name_hash k, qtype_class = qtype_class_of (m_qtype q) (m_qclass q), key_pad = 0\<rparr>"
    using assms(4) make_cache_key_eq [OF assms(2)] by auto
  let ?q = "\<lparr>q_ip_hdr_len = 20 + length (h_opts h), q_udp_offset = 34 + length (h_opts h),
      q_dns_offset = 42 + length (h_opts h), q_old_dns_len = length (msg_bytes q),
      q_name_hash = name_hash k, q_qtype = m_qtype q, q_qclass = m_qclass q,
      q_question_len = length (question_bytes q)\<rparr>"
  have "answer_query adjust now m ?f ?q =
    Some ([], hdr_bytes (reply_hdr h (12 + length (question_bytes q))) @ negative_reply q @ pad',
      Inr (XDP_TX, Some NegativeHit))"
    using assms(5-8) k p(1) delta m6
    by (intro answer_negative [where v = v and txid = "m_txid q"]) (simp_all add: hw frame_txid)
  moreover have "length (negative_reply q) = 12 + length (question_bytes q)"
    by (simp add: negative_reply_def Let_def)
  ultimately show ?thesis
    using dns_xdp_TX [OF parse_query_frame [OF assms(1-4)]] p(2) by auto
qed

text \<open>C5. A cached NXDOMAIN is served: under the same conditions with a negative entry, the reply is
  the query's own header with QR set, RD kept, RCODE 3 and empty sections, followed by its
  question; the cached bytes are not used.\<close>

theorem xdp_serves_negative:
  assumes "query_frame_ok m h q" and "name_ok name'"
    and "map (map to_ascii_lowercase) name' = map (map to_ascii_lowercase) (m_name q)"
    and "make_cache_key name' (m_qtype q) (m_qclass q) = Some k" and "DNS_CACHE m k = Some v"
    and "now < expires_at v" and "is_negative v"
    and "adjust (hdr_bytes h @ msg_bytes q @ pad) (- int (length (m_rest q))) = Some f1"
    and "adjusted (hdr_bytes h @ msg_bytes q @ pad) (- int (length (m_rest q))) f1"
  shows "\<exists>pad'. length pad' = length pad \<and>
    dns_xdp adjust now m (hdr_bytes h @ msg_bytes q @ pad) =
      Some (XDP_TX, hdr_bytes (reply_hdr h (length (negative_reply q))) @ negative_reply q @ pad', [],
            record_outcome NegativeHit m)"
  using assms by (rule xdp_serve_negative)

text \<open>Nothing else is ever transmitted for such a frame: what leaves is the reply of a live entry under the key of
  the question.\<close>

lemma dns_xdp_transmits:
  assumes frame: "query_frame_ok m h q" and key: "make_cache_key (m_name q) (m_qtype q) (m_qclass q) = Some k"
    and wf: "cache_wf m" and resize: "\<And>delta f1. adjust (hdr_bytes h @ msg_bytes q @ pad) delta = Some f1 \<Longrightarrow>
      adjusted (hdr_bytes h @ msg_bytes q @ pad) delta f1"
    and tx: "dns_xdp adjust now m (hdr_bytes h @ msg_bytes q @ pad) = Some (XDP_TX, out, logs, m')"
  obtains (positive) v pad' where "DNS_CACHE m k = Some v" "now < expires_at v" "\<not> is_negative v" "length pad' = length pad"
      "out = hdr_bytes (reply_hdr h (unat (resp_len v))) @ positive_reply v (m_txid q) @ pad'" "m' = record_outcome Hit m"
  | (negative) v pad' where "DNS_CACHE m k = Some v" "now < expires_at v" "is_negative v" "length pad' = length pad"
      "out = hdr_bytes (reply_hdr h (length (negative_reply q))) @ negative_reply q @ pad'" "m' = record_outcome NegativeHit m"
proof -
  let ?f = "hdr_bytes h @ msg_bytes q @ pad"
  have n: "name_ok (m_name q)" using frame by (simp add: query_frame_ok_def)
  have k: "k = \<lparr>name_hash = name_hash k, qtype_class = qtype_class_of (m_qtype q) (m_qclass q), key_pad = 0\<rparr>"
    using key make_cache_key_eq [OF n] by auto
  let ?q = "\<lparr>q_ip_hdr_len = 20 + length (h_opts h), q_udp_offset = 34 + length (h_opts h),
      q_dns_offset = 42 + length (h_opts h), q_old_dns_len = length (msg_bytes q),
      q_name_hash = name_hash k, q_qtype = m_qtype q, q_qclass = m_qclass q,
      q_question_len = length (question_bytes q)\<rparr>"
  have t: "read_u16_be ?f (42 + length (h_opts h)) 0 = Some (m_txid q)"
    using frame_txid frame by (auto simp: query_frame_ok_def)
  obtain l oc where a: "answer_query adjust now m ?f ?q = Some (l, out, Inr (XDP_TX, oc))"
    using tx parse_query_frame [OF frame n refl key, of pad]
    by (auto simp: dns_xdp_def try_dns_xdp_def bind_eq_Some_conv split: prod.splits sum.splits)
  obtain v where v: "DNS_CACHE m k = Some v" "now < expires_at v"
    using a k by (auto simp: answer_query_def not_le split: option.splits if_splits)
  let ?new = "if is_negative v then 12 + length (question_bytes q) else unat (resp_len v)"
  have rest: "is_negative v \<or> 17 \<le> unat (resp_len v) \<and> unat (resp_len v) \<le> 512"
    "\<exists>f1. adjust ?f (int ?new - int (length (msg_bytes q))) = Some f1"
    using a v k t by (auto simp: answer_query_def is_negative_def Let_def not_le not_less split: option.splits if_splits)
  then obtain f1 where f1: "adjust ?f (int ?new - int (length (msg_bytes q))) = Some f1" by blast
  have vw: "cache_value_wf v" using wf v(1) by (simp add: cache_wf_def)
  show thesis
  proof (cases "is_negative v")
    case True
    have "int ?new - int (length (msg_bytes q)) = - int (length (m_rest q))"
      using frame True by (simp add: query_frame_ok_def msg_bytes_def)
    with f1 have "adjust ?f (- int (length (m_rest q))) = Some f1" by simp
    from xdp_serve_negative [where adjust = adjust and pad = pad, OF frame n refl key v(1,2) True this resize [OF this]] tx
    show thesis by (auto intro: negative [OF v(1,2) True])
  next
    case False
    then have f: "adjust ?f (int (unat (resp_len v)) - int (length (msg_bytes q))) = Some f1" using f1 by simp
    from xdp_serve_positive [where adjust = adjust and pad = pad, OF frame n refl key v(1) vw v(2) False _ _ f resize [OF f]] rest(1) False tx
    show thesis by (auto intro: positive [OF v(1,2) False])
  qed
qed

section \<open>A concrete packet\<close>

text \<open>A resize with room at the end of the buffer, a query for \<open>a\<close>, type A, class IN, on port 53,
  and a cache that holds one answer for it.\<close>

definition sample_adjust :: "bytes \<Rightarrow> int \<Rightarrow> bytes option" where
  "sample_adjust f delta =
     (if int (length f) + delta < 14 then None
      else Some (take (nat (int (length f) + delta)) (f @ replicate (nat delta) 0)))"

lemma sample_adjust_adjusted: "sample_adjust f delta = Some f1 \<Longrightarrow> adjusted f delta f1"
  by (auto simp: sample_adjust_def adjusted_def min_def split: if_splits)

definition sample_hdr :: ip_udp_hdr where
  "sample_hdr = \<lparr>h_dst = [1, 2, 3, 4, 5, 6], h_src = [11, 12, 13, 14, 15, 16], h_vihl = 0x45, h_tos = 0,
     h_tot_len = 47, h_id = 7, h_frag = 0, h_ttl = 64, h_check = 0x66B5, h_saddr = [10, 0, 0, 1],
     h_daddr = [10, 0, 0, 2], h_opts = [], h_sport = 4000, h_dport = 53, h_ulen = 27, h_ucheck = 0\<rparr>"

definition sample_msg :: dns_msg where
  "sample_msg = \<lparr>m_txid = 0xABCD, m_flags = 0x0100, m_counts = [0, 0, 0, 0, 0, 0], m_name = [[65]],
     m_qtype = 1, m_qclass = 1, m_rest = []\<rparr>"

definition sample_key :: cache_key where
  "sample_key = the (make_cache_key [[97]] 1 1)"

definition sample_maps :: "cache_value \<Rightarrow> xdp_maps" where
  "sample_maps v = \<lparr>DNS_CACHE = [sample_key \<mapsto> v], XDP_CONFIG = Some \<lparr>dns_port = 53\<rparr>,
     XDP_STATS = Some zero_stats\<rparr>"

definition sample_value :: "bool \<Rightarrow> cache_value" where
  "sample_value neg = from_response (replicate 20 7) 1000 neg"

lemma hdr_wf_of: "query_frame_ok m h q \<Longrightarrow> hdr_wf h"
  by (simp add: query_frame_ok_def)

lemma sample_facts:
  "query_frame_ok (sample_maps v) sample_hdr sample_msg" "name_ok [[97]]"
  "map (map to_ascii_lowercase) [[97]] = map (map to_ascii_lowercase) (m_name sample_msg)"
  "make_cache_key [[97]] (m_qtype sample_msg) (m_qclass sample_msg) = Some sample_key"
  "DNS_CACHE (sample_maps v) sample_key = Some v"
  "ip_checksum_ok (ip_bytes sample_hdr)"
proof -
  show "query_frame_ok (sample_maps v) sample_hdr sample_msg"
    by (simp add: query_frame_ok_def sample_maps_def) code_simp
  show "name_ok [[97]]" by code_simp
  show "map (map to_ascii_lowercase) [[97]] = map (map to_ascii_lowercase) (m_name sample_msg)" by code_simp
  show "make_cache_key [[97]] (m_qtype sample_msg) (m_qclass sample_msg) = Some sample_key" by code_simp
  show "DNS_CACHE (sample_maps v) sample_key = Some v" by (simp add: sample_maps_def)
  show "ip_checksum_ok (ip_bytes sample_hdr)"
    by (simp add: ip_checksum_ok_mod ip_bytes_def sample_hdr_def IPPROTO_UDP_def be16_def [of 69] be16_def [of 64]
        be16_def [of 10] be16_def [of 0])
qed


theorem xdp_serves_positive_witness:
  "\<exists>pad'. length pad' = length [0 :: u8] \<and>
    dns_xdp sample_adjust 5 (sample_maps (sample_value False)) (hdr_bytes sample_hdr @ msg_bytes sample_msg @ [0]) =
      Some (XDP_TX, hdr_bytes (reply_hdr sample_hdr 20) @ positive_reply (sample_value False) 0xABCD @ pad', [],
            record_outcome Hit (sample_maps (sample_value False)))"
proof -
  let ?v = "sample_value False" and ?f = "hdr_bytes sample_hdr @ msg_bytes sample_msg @ [0]"
  have r: "unat (resp_len ?v) = 20" by (simp add: sample_value_def MAX_RESPONSE_SIZE_def)
  obtain f1 where a: "sample_adjust ?f (int (unat (resp_len ?v)) - int (length (msg_bytes sample_msg))) = Some f1"
    by (auto simp: sample_adjust_def r length_hdr [OF hdr_wf_of [OF sample_facts(1)]] intro!: that)
  show ?thesis
    using xdp_serves_positive [where adjust = sample_adjust and now = 5 and m = "sample_maps ?v" and v = ?v
        and pad = "[0]", OF sample_facts(1-5) _ _ _ _ _ a sample_adjust_adjusted [OF a]]
    by (simp add: r) (simp add: sample_value_def sample_msg_def)
qed

theorem xdp_serves_negative_witness:
  "\<exists>pad'. length pad' = length ([] :: bytes) \<and>
    dns_xdp sample_adjust 5 (sample_maps (sample_value True)) (hdr_bytes sample_hdr @ msg_bytes sample_msg @ []) =
      Some (XDP_TX, hdr_bytes (reply_hdr sample_hdr (length (negative_reply sample_msg))) @
              negative_reply sample_msg @ pad', [],
            record_outcome NegativeHit (sample_maps (sample_value True)))"
proof -
  let ?v = "sample_value True" and ?f = "hdr_bytes sample_hdr @ msg_bytes sample_msg @ []"
  obtain f1 where a: "sample_adjust ?f (- int (length (m_rest sample_msg))) = Some f1"
    by (auto simp: sample_adjust_def length_hdr [OF hdr_wf_of [OF sample_facts(1)]] sample_msg_def intro!: that)
  show ?thesis
    using xdp_serves_negative [where adjust = sample_adjust and now = 5 and m = "sample_maps ?v" and v = ?v
        and pad = "[]", OF sample_facts(1-5) _ _ a sample_adjust_adjusted [OF a]]
    by (simp add: sample_value_def)
qed

theorem reply_checksum_ok_witness: "ip_checksum_ok (ip_bytes (reply_hdr sample_hdr 20))"
  using reply_checksum_ok [OF hdr_wf_of [OF sample_facts(1)] sample_facts(6)] .

theorem dns_xdp_memory_safe_witness: "dns_xdp sample_adjust 5 (sample_maps (sample_value True)) [] \<noteq> None"
  by (rule dns_xdp_memory_safe) (auto simp: cache_wf_def sample_maps_def sample_value_def)


end
