(* ===== verification/Xdp_Cache.thy ===== *)
theory Xdp_Cache
  imports Xdp_Reply Dns_Types
begin

text \<open>
  The writing side of the cache (\<open>crates/doggy-dns-xdp/src/middleware.rs\<close>, \<open>middleware/xdp_cache.rs\<close>,
  \<open>cache/bpf_map.rs\<close>): the entry computed for a response and the middleware hook that inserts it. The map
  is an LRU map of the kernel: an insert may evict other entries, which ones is the parameter
  \<open>evict\<close>, and may fail. Arithmetic on u64 wraps, as in the release build.
\<close>

section \<open>The map\<close>

text \<open>The contract of an LRU map: the entry just written is found, any other lookup finds what it
  found before or nothing.\<close>

locale lru_map =
  fixes lookup :: "'m \<Rightarrow> 'k \<Rightarrow> 'v option"
    and insert :: "'k \<Rightarrow> 'v \<Rightarrow> 'm \<Rightarrow> 'm"
  assumes lookup_insert: "lookup (insert k v m) k = Some v"
    and lookup_other: "k' \<noteq> k \<Longrightarrow> lookup (insert k v m) k' = Some w \<Longrightarrow> lookup m k' = Some w"
begin

text \<open>An invariant of the stored pairs survives every insert that satisfies it.\<close>

lemma insert_invariant:
  assumes "\<And>k v. lookup m k = Some v \<Longrightarrow> P k v" and "P k v"
  shows "lookup (insert k v m) k' = Some w \<Longrightarrow> P k' w"
  using assms lookup_insert lookup_other by (cases "k' = k") (metis option.inject)+

lemma fold_invariant:
  assumes "\<And>k v. lookup m k = Some v \<Longrightarrow> P k v" and "\<And>k v. (k, v) \<in> set xs \<Longrightarrow> P k v"
  shows "lookup (fold (\<lambda>(k, v). insert k v) xs m) k' = Some w \<Longrightarrow> P k' w"
  using assms
proof (induction xs arbitrary: m)
  case (Cons x xs)
  obtain k v where x: "x = (k, v)" by (cases x)
  have "\<And>k' v'. lookup (insert k v m) k' = Some v' \<Longrightarrow> P k' v'"
    using insert_invariant [of m P k v] Cons(3,4) x by auto
  from Cons(1) [OF _ this] Cons(2,4) x show ?case by auto
qed auto

end

definition lru_insert ::
  "(cache_key \<Rightarrow> bool) \<Rightarrow> cache_key \<Rightarrow> cache_value \<Rightarrow> (cache_key \<Rightarrow> cache_value option) \<Rightarrow> cache_key \<Rightarrow> cache_value option" where
  "lru_insert evict k v m = (\<lambda>k'. if k' = k then Some v else if evict k' then None else m k')"

interpretation dns_cache: lru_map "\<lambda>m. m" "lru_insert evict" for evict
  by unfold_locales (auto simp: lru_insert_def split: if_splits)

text \<open>\<open>DnsCacheMap::get\<close>: a lookup call that fails reads like a key that is not there.\<close>

definition cache_get :: "bool \<Rightarrow> (cache_key \<Rightarrow> cache_value option) \<Rightarrow> cache_key \<Rightarrow> (unit, cache_value option) result" where
  "cache_get call_succeeds m key = (if call_succeeds then Inr (m key) else Inr None)"

lemma cache_get_insert: "cache_get True (lru_insert evict k v m) k = Inr (Some v)"
  by (simp add: cache_get_def dns_cache.lookup_insert)

section \<open>Entries\<close>

definition now_ktime_ns :: "u64 \<Rightarrow> u64 \<Rightarrow> u64" where
  "now_ktime_ns tv_sec tv_nsec = tv_sec * 1000000000 + tv_nsec"

definition compute_cache_entry ::
  "dns_name \<Rightarrow> u16 \<Rightarrow> u16 \<Rightarrow> response_code \<Rightarrow> bytes \<Rightarrow> u32 option \<Rightarrow> u64 \<Rightarrow> u64 \<Rightarrow> (cache_key \<times> cache_value) option" where
  "compute_cache_entry qname qtype qclass code resp min_ttl negative_ttl now_ns = do {
     key \<leftarrow> make_cache_key qname qtype qclass;
     let is_neg = (code = NXDomain);
     let ttl = (if is_neg then negative_ttl
                else ucast (case min_ttl of Some t \<Rightarrow> t | None \<Rightarrow> (ucast negative_ttl :: u32)));
     let expires = now_ns + ttl * 1000000000;
     let value = (if is_neg then new_negative resp expires else new_positive resp expires);
     Some (key, value) }"

section \<open>The middleware\<close>

record query_info =
  qi_name :: dns_name
  qi_type :: u16
  qi_class :: u16

datatype xdp_cache_log = Warn_no_request_info | Warn_insert_failed

record xdp_cache_state =
  xc_map :: "cache_key \<Rightarrow> cache_value option"
  xc_logs :: "xdp_cache_log list"

text \<open>\<open>info\<close> is \<open>request.request_info()\<close>, \<open>insert_ok\<close> whether the kernel accepts the update. The outer
  option is the buffer of the key builder, as in \<^const>\<open>make_cache_key\<close>.\<close>

definition xdp_after_request ::
  "(cache_key \<Rightarrow> bool) \<Rightarrow> bool \<Rightarrow> u64 \<Rightarrow> u64 \<Rightarrow> query_info option \<Rightarrow> request_outcome \<Rightarrow> xdp_cache_state
     \<Rightarrow> xdp_cache_state option" where
  "xdp_after_request evict insert_ok negative_ttl now_ns info oc s =
     (if response_code oc \<noteq> NoError \<and> response_code oc \<noteq> NXDomain then Some s
      else case response_bytes oc of
        None \<Rightarrow> Some s
      | Some resp \<Rightarrow>
          (case info of
             None \<Rightarrow> Some (s\<lparr>xc_logs := xc_logs s @ [Warn_no_request_info]\<rparr>)
           | Some qi \<Rightarrow> do {
               (key, value) \<leftarrow> compute_cache_entry (qi_name qi) (qi_type qi) (qi_class qi)
                  (response_code oc) resp (min_answer_ttl oc) negative_ttl now_ns;
               if insert_ok then Some (s\<lparr>xc_map := lru_insert evict key value (xc_map s)\<rparr>)
               else Some (s\<lparr>xc_logs := xc_logs s @ [Warn_insert_failed]\<rparr>) }))"

section \<open>What is written\<close>

lemma compute_cache_entry_some:
  assumes "name_ok qname"
  shows "\<exists>k v. make_cache_key qname qtype qclass = Some k \<and>
     compute_cache_entry qname qtype qclass code resp min_ttl negative_ttl now_ns = Some (k, v) \<and>
     cache_value_wf v \<and> is_negative v = (code = NXDomain) \<and>
     unat (resp_len v) = min (length resp) 512 \<and> take (unat (resp_len v)) (resp_data v) = take 512 resp \<and>
     expires_at v = now_ns + (if code = NXDomain then negative_ttl
        else ucast (case min_ttl of Some t \<Rightarrow> t | None \<Rightarrow> (ucast negative_ttl :: u32))) * 1000000000"
  using make_cache_key_eq [OF assms] from_response_data [of resp] MAX_RESPONSE_SIZE_def
  by (simp add: compute_cache_entry_def Let_def new_negative_def new_positive_def)

text \<open>With a 32-bit TTL the expiry never wraps while the clock is below \<open>2\<^sup>6\<^sup>3\<close> nanoseconds (292 years
  of uptime): the sum is exact.\<close>

lemma expiry_exact:
  assumes "unat now_ns < 2 ^ 63"
  shows "unat (now_ns + ucast (t :: u32) * 1000000000 :: u64) = unat now_ns + unat t * 1000000000"
proof -
  have t: "unat t < 2 ^ 32" using unsigned_less [of t, where 'a = nat] by simp
  then have "unat t * 1000000000 < 2 ^ 63" by simp
  moreover have "unat (ucast t * 1000000000 :: u64) = unat t * 1000000000"
    using t by (simp add: unat_word_ariths unsigned_ucast_eq take_bit_eq_mod)
  ultimately show ?thesis using assms by (simp add: unat_word_ariths)
qed

text \<open>A positive answer expires exactly its smallest record TTL after it was written: the 64-bit
  expiry does not wrap for any 32-bit TTL while the monotonic clock is below \<open>2\<^sup>6\<^sup>3\<close> ns.\<close>

theorem positive_entry_expiry:
  assumes "name_ok qname" and "code \<noteq> NXDomain" and "unat now_ns < 2 ^ 63"
    and "compute_cache_entry qname qtype qclass code resp (Some ttl) negative_ttl now_ns = Some (k, v)"
  shows "unat (expires_at v) = unat now_ns + unat ttl * 1000000000 \<and> \<not> is_negative v"
  using compute_cache_entry_some [OF assms(1), of qtype qclass code resp "Some ttl" negative_ttl now_ns]
    assms(2,4) expiry_exact [OF assms(3), of ttl] by auto

theorem positive_entry_expiry_witness:
  "\<exists>k v. compute_cache_entry [[97]] 1 1 NoError [1, 2, 3] (Some 60) 30 5 = Some (k, v) \<and>
     unat (expires_at v) = 60000000005 \<and> \<not> is_negative v"
proof -
  have n: "name_ok [[97]]" by code_simp
  obtain k v where kv: "compute_cache_entry [[97]] 1 1 NoError [1, 2, 3] (Some 60) 30 5 = Some (k, v)"
    using compute_cache_entry_some [OF n, of 1 1 NoError "[1, 2, 3]" "Some 60" 30 5] by auto
  with positive_entry_expiry [OF n _ _ kv] show ?thesis by auto
qed

text \<open>A negative answer uses the configured \<open>negative_ttl\<close>, a 64-bit number of seconds that the
  configuration check only requires to be positive. With this value the expiry wraps around to
  the past and the entry is dead on arrival: at the time of the insert it has already expired.\<close>

theorem negative_ttl_wraps:
  "\<exists>k v. compute_cache_entry [[97]] 1 1 NXDomain [1, 2, 3] None 18446744073 710000000 = Some (k, v) \<and>
     expires_at v = 448384 \<and> expires_at v < 710000000"
proof -
  have n: "name_ok [[97]]" by code_simp
  from compute_cache_entry_some [OF n, of 1 1 NXDomain "[1, 2, 3]" None 18446744073 710000000]
  show ?thesis by auto
qed


section \<open>From response to reply\<close>

text \<open>One call of the hook with what the environment decides about it.\<close>

record hook_call =
  hc_evict :: "cache_key \<Rightarrow> bool"
  hc_insert_ok :: bool
  hc_now :: u64
  hc_info :: "query_info option"
  hc_outcome :: request_outcome

definition run_hook :: "u64 \<Rightarrow> hook_call \<Rightarrow> xdp_cache_state option \<Rightarrow> xdp_cache_state option" where
  "run_hook negative_ttl c st = Option.bind st
     (xdp_after_request (hc_evict c) (hc_insert_ok c) negative_ttl (hc_now c) (hc_info c) (hc_outcome c))"

definition call_ok :: "hook_call \<Rightarrow> bool" where
  "call_ok c = (case hc_info c of None \<Rightarrow> True | Some qi \<Rightarrow> name_ok (qi_name qi))"

text \<open>An entry stems from a call when the call's response gives exactly this key and value.\<close>

definition entry_of_call :: "u64 \<Rightarrow> cache_key \<Rightarrow> cache_value \<Rightarrow> hook_call \<Rightarrow> bool" where
  "entry_of_call negative_ttl k v c =
     (response_code (hc_outcome c) \<in> {NoError, NXDomain} \<and>
      (case (hc_info c, response_bytes (hc_outcome c)) of
         (Some qi, Some resp) \<Rightarrow> compute_cache_entry (qi_name qi) (qi_type qi) (qi_class qi)
             (response_code (hc_outcome c)) resp (min_answer_ttl (hc_outcome c)) negative_ttl (hc_now c) = Some (k, v)
       | _ \<Rightarrow> False))"

lemma run_hook_cases:
  assumes "call_ok c"
  shows "\<exists>s'. run_hook nt c (Some s) = Some s' \<and>
     (xc_map s' = xc_map s \<or> (\<exists>k v. xc_map s' = lru_insert (hc_evict c) k v (xc_map s) \<and> entry_of_call nt k v c))"
proof (cases "response_code (hc_outcome c) \<in> {NoError, NXDomain}")
  case False
  then show ?thesis by (auto simp: run_hook_def xdp_after_request_def)
next
  case code: True
  show ?thesis
  proof (cases "hc_info c")
    case None
    then show ?thesis using code by (auto simp: run_hook_def xdp_after_request_def split: option.split)
  next
    case (Some qi)
    have n: "name_ok (qi_name qi)" using assms Some by (simp add: call_ok_def)
    show ?thesis
    proof (cases "response_bytes (hc_outcome c)")
      case None
      then show ?thesis using code by (auto simp: run_hook_def xdp_after_request_def)
    next
      case resp: (Some resp)
      obtain k v where kv: "compute_cache_entry (qi_name qi) (qi_type qi) (qi_class qi)
             (response_code (hc_outcome c)) resp (min_answer_ttl (hc_outcome c)) nt (hc_now c) = Some (k, v)"
        using compute_cache_entry_some [OF n] by blast
      then have "entry_of_call nt k v c" using code Some resp by (simp add: entry_of_call_def)
      then show ?thesis using code Some resp kv
        by (cases "hc_insert_ok c") (auto simp: run_hook_def xdp_after_request_def)
    qed
  qed
qed

lemma run_hooks_entries:
  assumes "list_all call_ok cs" and "\<And>k v. xc_map s k = Some v \<Longrightarrow> P k v"
    and "\<And>c k v. c \<in> set cs \<Longrightarrow> entry_of_call nt k v c \<Longrightarrow> P k v"
  shows "\<exists>s'. fold (run_hook nt) cs (Some s) = Some s' \<and> (\<forall>k v. xc_map s' k = Some v \<longrightarrow> P k v)"
  using assms
proof (induction cs arbitrary: s)
  case (Cons c cs)
  obtain s1 where s1: "run_hook nt c (Some s) = Some s1"
    and m: "xc_map s1 = xc_map s \<or> (\<exists>k v. xc_map s1 = lru_insert (hc_evict c) k v (xc_map s) \<and> entry_of_call nt k v c)"
    using run_hook_cases [of c nt s] Cons(2) by auto
  have "\<And>k v. xc_map s1 k = Some v \<Longrightarrow> P k v"
  proof -
    fix k v
    assume "xc_map s1 k = Some v"
    then show "P k v"
      using m dns_cache.insert_invariant [of "xc_map s" P _ _ "hc_evict c" k v] Cons(3,4) by fastforce
  qed
  with Cons(1) [of s1] Cons(2,4) s1 show ?case by auto
qed auto

text \<open>Everything the kernel can find in the cache was put there for a reason: whatever hooks have
  run, with whatever evictions and failed inserts, every entry is the one computed from a past
  response with code NOERROR or NXDOMAIN under the key of the question it answered, its data field
  has the layout the program relies on, and it is marked negative only for NXDOMAIN. The hooks
  themselves never overrun the key buffer.\<close>

theorem cache_entries_provenance:
  assumes "list_all call_ok cs"
  shows "\<exists>s'. fold (run_hook nt) cs (Some \<lparr>xc_map = Map.empty, xc_logs = []\<rparr>) = Some s' \<and>
     (\<forall>k v. xc_map s' k = Some v \<longrightarrow>
        cache_value_wf v \<and> (\<exists>c \<in> set cs. entry_of_call nt k v c \<and>
          is_negative v = (response_code (hc_outcome c) = NXDomain)))"
proof (rule run_hooks_entries [OF assms])
  fix c k v
  assume c: "c \<in> set cs" and e: "entry_of_call nt k v c"
  then obtain qi resp where "hc_info c = Some qi" "response_bytes (hc_outcome c) = Some resp"
    and kv: "compute_cache_entry (qi_name qi) (qi_type qi) (qi_class qi)
       (response_code (hc_outcome c)) resp (min_answer_ttl (hc_outcome c)) nt (hc_now c) = Some (k, v)"
    by (auto simp: entry_of_call_def split: option.splits)
  moreover have "name_ok (qi_name qi)"
    using assms c \<open>hc_info c = Some qi\<close> by (auto simp: list_all_iff call_ok_def split: option.splits)
  ultimately have "cache_value_wf v \<and> is_negative v = (response_code (hc_outcome c) = NXDomain)"
    using compute_cache_entry_some [of "qi_name qi"] by (metis option.inject prod.inject)
  with c e show "cache_value_wf v \<and> (\<exists>c \<in> set cs. entry_of_call nt k v c \<and>
      is_negative v = (response_code (hc_outcome c) = NXDomain))" by blast
qed simp

definition sample_call :: hook_call where
  "sample_call = \<lparr>hc_evict = (\<lambda>_. True), hc_insert_ok = True, hc_now = 7,
     hc_info = Some \<lparr>qi_name = [[97]], qi_type = 1, qi_class = 1\<rparr>,
     hc_outcome = outcome_success ''native'' 1 (Some (replicate 20 7)) (Some 60)\<rparr>"

theorem cache_entries_provenance_witness:
  "\<exists>s'. fold (run_hook 30) [sample_call] (Some \<lparr>xc_map = Map.empty, xc_logs = []\<rparr>) = Some s' \<and>
     (\<forall>k v. xc_map s' k = Some v \<longrightarrow>
        cache_value_wf v \<and> (\<exists>c \<in> set [sample_call]. entry_of_call 30 k v c \<and>
          is_negative v = (response_code (hc_outcome c) = NXDomain)))"
proof -
  have "name_ok [[97]]" by code_simp
  then show ?thesis
    by (intro cache_entries_provenance) (simp add: call_ok_def sample_call_def)
qed

text \<open>C9. The fast path end to end: after the middleware has cached a NOERROR response of 17 to 512
  bytes, a later query frame for the same name in any spelling, type and class, arriving before
  the smallest TTL has passed, is answered by the kernel with that response under the new
  transaction id.\<close>

theorem cached_answer_served:
  assumes "name_ok (qi_name qi)"
    and "xdp_after_request evict True nt now0 (Some qi) oc s = Some s'"
    and "response_code oc = NoError" and "response_bytes oc = Some resp" and "min_answer_ttl oc = Some ttl"
    and "17 \<le> length resp" and "length resp \<le> 512"
    and "unat now0 < 2 ^ 63" and "unat now < unat now0 + unat ttl * 1000000000"
    and "query_frame_ok m h q" and "DNS_CACHE m = xc_map s'"
    and "map (map to_ascii_lowercase) (qi_name qi) = map (map to_ascii_lowercase) (m_name q)"
    and "m_qtype q = qi_type qi" and "m_qclass q = qi_class qi"
    and "adjust (hdr_bytes h @ msg_bytes q @ pad) (int (length resp) - int (length (msg_bytes q))) = Some f1"
    and "adjusted (hdr_bytes h @ msg_bytes q @ pad) (int (length resp) - int (length (msg_bytes q))) f1"
  shows "\<exists>pad'. length pad' = length pad \<and>
    dns_xdp adjust now m (hdr_bytes h @ msg_bytes q @ pad) =
      Some (XDP_TX, hdr_bytes (reply_hdr h (length resp)) @
              ([hi8 (m_txid q), lo8 (m_txid q)] @ drop 2 resp) @ pad', [], record_outcome Hit m)"
proof -
  obtain k v where k: "make_cache_key (qi_name qi) (qi_type qi) (qi_class qi) = Some k"
    and e: "compute_cache_entry (qi_name qi) (qi_type qi) (qi_class qi) NoError resp (Some ttl) nt now0 = Some (k, v)"
    and v: "cache_value_wf v" "\<not> is_negative v" "unat (resp_len v) = length resp"
      "take (length resp) (resp_data v) = resp" "expires_at v = now0 + ucast ttl * 1000000000"
    using compute_cache_entry_some [OF assms(1), of "qi_type qi" "qi_class qi" NoError resp "Some ttl" nt now0]
      assms(7) by auto
  have c: "DNS_CACHE m k = Some v"
    using assms(2-5,11) e by (auto simp: xdp_after_request_def dns_cache.lookup_insert)
  have t: "now < expires_at v"
    using assms(9) expiry_exact [OF assms(8), of ttl] by (simp add: v(5) word_less_nat_alt)
  have r: "positive_reply v (m_txid q) = [hi8 (m_txid q), lo8 (m_txid q)] @ drop 2 resp"
    by (simp add: positive_reply_def v)
  show ?thesis
    using xdp_serve_positive [OF assms(10,1,12) _ c v(1) t v(2), of adjust pad f1] k assms(6,7,13-16)
    by (simp add: v(3) r)
qed


theorem cached_answer_served_witness:
  "\<exists>s' pad'. run_hook 30 sample_call (Some \<lparr>xc_map = Map.empty, xc_logs = []\<rparr>) = Some s' \<and>
    length pad' = length ([] :: bytes) \<and>
    dns_xdp sample_adjust 1000 (sample_maps (sample_value True)\<lparr>DNS_CACHE := xc_map s'\<rparr>)
        (hdr_bytes sample_hdr @ msg_bytes sample_msg @ []) =
      Some (XDP_TX, hdr_bytes (reply_hdr sample_hdr 20) @ ([0xAB, 0xCD] @ replicate 18 7) @ pad', [],
            record_outcome Hit (sample_maps (sample_value True)\<lparr>DNS_CACHE := xc_map s'\<rparr>))"
proof -
  let ?qi = "\<lparr>qi_name = [[97]], qi_type = 1, qi_class = 1\<rparr>"
  let ?oc = "outcome_success ''native'' 1 (Some (replicate 20 7)) (Some 60)"
  have n: "name_ok (qi_name ?qi)" using sample_facts(2) by simp
  obtain s' where s': "run_hook 30 sample_call (Some \<lparr>xc_map = Map.empty, xc_logs = []\<rparr>) = Some s'"
    using run_hook_cases [of sample_call] n by (auto simp: call_ok_def sample_call_def)
  then have h: "xdp_after_request (\<lambda>_. True) True 30 7 (Some ?qi) ?oc \<lparr>xc_map = Map.empty, xc_logs = []\<rparr> = Some s'"
    by (simp add: run_hook_def sample_call_def)
  let ?m = "sample_maps (sample_value True)\<lparr>DNS_CACHE := xc_map s'\<rparr>"
  let ?f = "hdr_bytes sample_hdr @ msg_bytes sample_msg @ []"
  let ?d = "int (length (replicate 20 (7 :: u8))) - int (length (msg_bytes sample_msg))"
  have q: "query_frame_ok ?m sample_hdr sample_msg"
    using sample_facts(1) [of "sample_value True"] by (simp add: query_frame_ok_def)
  obtain f1 where a: "sample_adjust ?f ?d = Some f1"
    by (auto simp: sample_adjust_def length_hdr [OF hdr_wf_of [OF q]] intro!: that)
  have x: "[hi8 (m_txid sample_msg), lo8 (m_txid sample_msg)] = [0xAB, 0xCD]" by code_simp
  have "\<exists>pad'. length pad' = length ([] :: bytes) \<and>
      dns_xdp sample_adjust 1000 ?m ?f =
        Some (XDP_TX, hdr_bytes (reply_hdr sample_hdr (length (replicate 20 (7 :: u8)))) @
              ([hi8 (m_txid sample_msg), lo8 (m_txid sample_msg)] @ drop 2 (replicate 20 7)) @ pad', [],
            record_outcome Hit ?m)"
  proof (rule cached_answer_served [where adjust = sample_adjust and resp = "replicate 20 7" and ttl = 60,
        OF n h _ _ _ _ _ _ _ q _ _ _ _ a sample_adjust_adjusted [OF a]])
    show "map (map to_ascii_lowercase) (qi_name ?qi) = map (map to_ascii_lowercase) (m_name sample_msg)"
      using sample_facts(3) by simp
  qed (simp_all add: outcome_success_def sample_msg_def)
  then show ?thesis using s' x by auto
qed

end
