(* ===== verification/Request_Middlewares.thy ===== *)
theory Request_Middlewares
  imports Startup Otlp_Runtime Xdp_Cache
begin

text \<open>
  The three middlewares the binary can install, and what they see of a request: log lines
  (\<open>doggy-dns-core/src/middleware/logging.rs\<close>), metric instruments and their attributes
  (\<open>doggy-dns-observability/src/metrics.rs\<close>), and the cache writer of \<open>Xdp_Cache\<close>. The hooks run on the events of
  \<open>Request_Handler\<close>, so the books of the server are a function of what it did. The names of the DNS
  library's values (its \<open>Debug\<close> printers and type codes) are arguments.
\<close>

section \<open>Logging\<close>

datatype request_log =
    Query_received u16 string dns_name record_type protocol
  | Query_completed u16 dns_name u64 response_code string nat

definition logging_before_request :: "string \<Rightarrow> request \<Rightarrow> request_log list \<times> middleware_action" where
  "logging_before_request src rq = (
     let request_id = md_id (rq_metadata rq)
     in (case rq_info rq of
           None \<Rightarrow> []
         | Some info \<Rightarrow> [Query_received request_id src (ri_name info) (ri_type info) (rq_protocol rq)],
         Continue_Request))"

definition logging_after_request :: "request \<Rightarrow> u64 \<Rightarrow> request_outcome \<Rightarrow> request_log list" where
  "logging_after_request rq duration_ms oc = (
     let request_id = md_id (rq_metadata rq)
     in (case rq_info rq of
           None \<Rightarrow> []
         | Some info \<Rightarrow> [Query_completed request_id (ri_name info) duration_ms (response_code oc)
             (case authority oc of Some a \<Rightarrow> a | None \<Rightarrow> ''none'') (answers oc)]))"

section \<open>Metrics\<close>

text \<open>The instruments; histogram boundaries in hundredths of a millisecond.\<close>

datatype instrument_kind = U64_counter | F64_histogram "nat list" | I64_up_down_counter

record instrument =
  in_kind :: instrument_kind
  in_name :: string
  in_description :: string
  in_unit :: string

record dns_metrics =
  dm_queries :: instrument
  dm_duration :: instrument
  dm_in_flight :: instrument

definition dns_metrics_new :: dns_metrics where
  "dns_metrics_new = \<lparr>
     dm_queries = \<lparr>in_kind = U64_counter, in_name = ''dns.queries'', in_description = ''Total DNS queries processed'', in_unit = ''1''\<rparr>,
     dm_duration = \<lparr>in_kind = F64_histogram [10, 25, 50, 100, 250, 500, 1000, 2500, 5000, 10000, 25000, 50000, 100000, 250000, 500000],
       in_name = ''dns.query.duration'', in_description = ''DNS query processing duration'', in_unit = ''ms''\<rparr>,
     dm_in_flight = \<lparr>in_kind = I64_up_down_counter, in_name = ''dns.queries.in_flight'',
       in_description = ''DNS queries currently being processed'', in_unit = ''1''\<rparr>\<rparr>"

definition xdp_metrics_new :: instrument where
  "xdp_metrics_new = \<lparr>in_kind = U64_counter, in_name = ''dns.xdp.queries'',
     in_description = ''DNS queries classified by the XDP fast path'', in_unit = ''1''\<rparr>"

lemma duration_boundaries_increase:
  "case in_kind (dm_duration dns_metrics_new) of F64_histogram bs \<Rightarrow> sorted bs \<and> distinct bs | _ \<Rightarrow> False"
  by (simp add: dns_metrics_new_def)

record names =
  nm_type :: "record_type \<Rightarrow> string"
  nm_protocol :: "protocol \<Rightarrow> string"
  nm_code :: "response_code \<Rightarrow> string"
  nm_type_code :: "record_type \<Rightarrow> u16"

type_synonym attributes = "(string \<times> string) list"

definition upper_char :: "char \<Rightarrow> char" where
  "upper_char c = (if of_char c \<in> {97 .. 122 :: nat} then char_of (of_char c - 32 :: nat) else c)"

definition outcome_attributes :: "names \<Rightarrow> request \<Rightarrow> request_outcome \<Rightarrow> attributes" where
  "outcome_attributes nm rq oc = (
     let (question_type, protocol) = (case rq_info rq of
           Some info \<Rightarrow> (nm_type nm (ri_type info), to_lower (nm_protocol nm (rq_protocol rq)))
         | None \<Rightarrow> (''unknown'', ''unknown''))
     in [(''dns.question.type'', question_type),
         (''network.protocol.name'', protocol),
         (''dns.response.code'', map upper_char (nm_code nm (response_code oc))),
         (''dns.authority'', case authority oc of Some a \<Rightarrow> a | None \<Rightarrow> ''none'')])"

datatype metric_op = In_flight_add int | Queries_add u64 attributes | Duration_record u64 attributes

definition metrics_record :: "names \<Rightarrow> request \<Rightarrow> u64 \<Rightarrow> request_outcome \<Rightarrow> metric_op list" where
  "metrics_record nm rq duration_ms oc = (
     let attributes = outcome_attributes nm rq oc
     in [Queries_add 1 attributes, Duration_record duration_ms attributes])"

definition metrics_before_request :: "request \<Rightarrow> metric_op list \<times> middleware_action" where
  "metrics_before_request rq = ([In_flight_add 1], Continue_Request)"

definition metrics_after_request :: "names \<Rightarrow> request \<Rightarrow> u64 \<Rightarrow> request_outcome \<Rightarrow> metric_op list" where
  "metrics_after_request nm rq duration_ms oc = In_flight_add (- 1) # metrics_record nm rq duration_ms oc"

definition xdp_before_request :: "request \<Rightarrow> middleware_action" where
  "xdp_before_request rq = Continue_Request"

section \<open>Hooks on the events of a request\<close>

record observed =
  obs_logs :: "request_log list"
  obs_metrics :: "metric_op list"
  obs_cache :: xdp_cache_state

text \<open>What surrounds one request: the client, the time taken, and the kernel's part in a cache write.\<close>

record request_env =
  re_names :: names
  re_src :: string
  re_duration_ms :: u64
  re_evict :: "cache_key \<Rightarrow> bool"
  re_insert_ok :: bool
  re_negative_ttl :: u64
  re_now_ns :: u64

definition query_info_of :: "names \<Rightarrow> request \<Rightarrow> query_info option" where
  "query_info_of nm rq = map_option (\<lambda>ri. \<lparr>qi_name = ri_name ri, qi_type = nm_type_code nm (ri_type ri), qi_class = ri_class ri\<rparr>) (rq_info rq)"

definition before_action :: "middleware_kind \<Rightarrow> request \<Rightarrow> middleware_action" where
  "before_action k rq = (case k of
       Mw_logging \<Rightarrow> snd (logging_before_request [] rq)
     | Mw_metrics \<Rightarrow> snd (metrics_before_request rq)
     | Mw_xdp_cache \<Rightarrow> xdp_before_request rq)"

definition before_hook :: "request_env \<Rightarrow> request \<Rightarrow> middleware_kind \<Rightarrow> observed \<Rightarrow> observed" where
  "before_hook e rq k ob = (case k of
       Mw_logging \<Rightarrow> ob\<lparr>obs_logs := obs_logs ob @ fst (logging_before_request (re_src e) rq)\<rparr>
     | Mw_metrics \<Rightarrow> ob\<lparr>obs_metrics := obs_metrics ob @ fst (metrics_before_request rq)\<rparr>
     | Mw_xdp_cache \<Rightarrow> ob)"

definition after_hook :: "request_env \<Rightarrow> request \<Rightarrow> request_outcome \<Rightarrow> middleware_kind \<Rightarrow> observed \<Rightarrow> observed option" where
  "after_hook e rq oc k ob = (case k of
       Mw_logging \<Rightarrow> Some (ob\<lparr>obs_logs := obs_logs ob @ logging_after_request rq (re_duration_ms e) oc\<rparr>)
     | Mw_metrics \<Rightarrow> Some (ob\<lparr>obs_metrics := obs_metrics ob @ metrics_after_request (re_names e) rq (re_duration_ms e) oc\<rparr>)
     | Mw_xdp_cache \<Rightarrow> map_option (\<lambda>c. ob\<lparr>obs_cache := c\<rparr>)
         (xdp_after_request (re_evict e) (re_insert_ok e) (re_negative_ttl e) (re_now_ns e)
            (query_info_of (re_names e) rq) oc (obs_cache ob)))"

fun observe :: "request_env \<Rightarrow> middleware_kind list \<Rightarrow> request \<Rightarrow> handler_event list \<Rightarrow> observed \<Rightarrow> observed option" where
  "observe e mws rq [] ob = Some ob"
| "observe e mws rq (ev # evs) ob = (case ev of
       Ev_before k \<Rightarrow> observe e mws rq evs (before_hook e rq (mws ! k) ob)
     | Ev_after k oc \<Rightarrow> Option.bind (after_hook e rq oc (mws ! k) ob) (observe e mws rq evs)
     | _ \<Rightarrow> observe e mws rq evs ob)"

definition assembled :: "bool \<Rightarrow> bool \<Rightarrow> middleware_kind list \<Rightarrow> handler_config" where
  "assembled xdp rot mws = \<lparr>hc_xdp_enabled = xdp, hc_rotate = rot, hc_before = map before_action mws\<rparr>"

text \<open>One request through the assembled handler, with its books.\<close>

definition serve_request ::
  "hickory \<Rightarrow> bool \<Rightarrow> bool \<Rightarrow> middleware_kind list \<Rightarrow> request_env \<Rightarrow> request \<Rightarrow>
     request_info handler_state \<times> observed \<Rightarrow> (handler_event list \<times> request_info handler_state \<times> observed) option" where
  "serve_request hk xdp rot mws e rq = (\<lambda>(st, ob).
     let (info, evs, st') = handle_request hk (assembled xdp rot mws) rq st
     in map_option (\<lambda>ob'. (evs, st', ob')) (observe e mws rq evs ob))"

section \<open>The books of a request\<close>

lemma before_action_continues [simp]: "before_action k rq = Continue_Request"
  by (cases k) (simp_all add: before_action_def logging_before_request_def metrics_before_request_def xdp_before_request_def Let_def)

lemma assembled_simps [simp]:
  "hc_before (assembled x r mws) = map before_action mws" "hc_xdp_enabled (assembled x r mws) = x"
  by (simp_all add: assembled_def)

lemma assembled_events:
  "\<exists>s1 s2 oc. fst (snd (handle_request hk (assembled x r mws) rq st)) =
     map Ev_before [0..<length mws] @ s1 @ finish (length mws) oc @ s2 \<and> list_all is_sent s1 \<and> list_all is_sent s2"
proof -
  have b: "run_before 0 (hc_before (assembled x r mws)) rq = (map Ev_before [0..<length mws], False)"
    using run_before_all [of "hc_before (assembled x r mws)" rq 0] by simp
  show ?thesis
  proof (cases "rq_info rq")
    case None
    obtain info ev where s: "send_error hk rq 0 FormErr False None = (info, ev)" by force
    have "list_all is_sent ev" using send_error_sent [OF s] by (auto simp: is_sent_def)
    moreover have "fst (snd (handle_request hk (assembled x r mws) rq st)) =
        map Ev_before [0..<length mws] @ [] @ finish (length mws) (outcome_error FormErr) @ ev"
      using None b s by (simp add: handle_request_def)
    ultimately show ?thesis by (metis list.pred_inject(1))
  next
    case (Some ri)
    obtain rr ch where rs: "resolve (hs_chain st) (ri_name ri) (ri_type ri) (Some ri) = (rr, ch)" by force
    obtain info ev oc c where a: "answer hk (assembled x r mws) rq rr (hs_cursor st) = (info, ev, oc, c)" by (metis prod_cases4)
    have "fst (snd (handle_request hk (assembled x r mws) rq st)) =
        map Ev_before [0..<length mws] @ ev @ finish (length mws) oc @ []"
      using Some b rs a by (simp add: handle_request_def)
    with answer_events [OF a] show ?thesis by (metis list.pred_inject(1))
  qed
qed

lemma observe_append: "observe e mws rq (xs @ ys) ob = Option.bind (observe e mws rq xs ob) (observe e mws rq ys)"
proof (induction xs arbitrary: ob)
  case (Cons x xs)
  then show ?case by (cases x) (simp_all add: Option.bind_assoc Cons.IH [abs_def])
qed simp

lemma observe_sent: "list_all is_sent evs \<Longrightarrow> observe e mws rq evs ob = Some ob"
  by (induction evs) (auto simp: is_sent_def split: handler_event.splits)

lemma observe_before:
  "observe e mws rq (map Ev_before ks) ob = Some (fold (before_hook e rq) (map ((!) mws) ks) ob)"
  by (induction ks arbitrary: ob) auto

fun after_all :: "request_env \<Rightarrow> request \<Rightarrow> request_outcome \<Rightarrow> middleware_kind list \<Rightarrow> observed \<Rightarrow> observed option" where
  "after_all e rq oc [] ob = Some ob"
| "after_all e rq oc (k # ks) ob = Option.bind (after_hook e rq oc k ob) (after_all e rq oc ks)"

lemma observe_after:
  "observe e mws rq (map (\<lambda>k. Ev_after k oc) ks) = after_all e rq oc (map ((!) mws) ks)"
  by (induction ks) (auto intro!: ext)

lemma before_all:
  "distinct ms \<Longrightarrow> fold (before_hook e rq) ms ob =
     \<lparr>obs_logs = obs_logs ob @ (if Mw_logging \<in> set ms then fst (logging_before_request (re_src e) rq) else []),
      obs_metrics = obs_metrics ob @ (if Mw_metrics \<in> set ms then [In_flight_add 1] else []), obs_cache = obs_cache ob\<rparr>"
proof (induction ms arbitrary: ob)
  case (Cons k ms)
  then show ?case by (cases k) (auto simp: before_hook_def metrics_before_request_def)
qed simp

lemma after_all_distinct:
  "distinct ms \<Longrightarrow> after_all e rq oc ms ob = map_option (\<lambda>c.
     \<lparr>obs_logs = obs_logs ob @ (if Mw_logging \<in> set ms then logging_after_request rq (re_duration_ms e) oc else []),
      obs_metrics = obs_metrics ob @ (if Mw_metrics \<in> set ms then metrics_after_request (re_names e) rq (re_duration_ms e) oc else []),
      obs_cache = c\<rparr>)
     (if Mw_xdp_cache \<in> set ms then xdp_after_request (re_evict e) (re_insert_ok e) (re_negative_ttl e) (re_now_ns e)
            (query_info_of (re_names e) rq) oc (obs_cache ob) else Some (obs_cache ob))"
proof (induction ms arbitrary: ob)
  case (Cons k ms)
  then show ?case
    by (cases k) (auto simp: after_hook_def comp_def map_conv_bind_option)
qed simp

lemma map_nth_all: "map ((!) xs) [0..<length xs] = xs"
  by (rule map_nth)

text \<open>The finish event of a served request, and the books after its hooks.\<close>

lemma request_observed:
  assumes "serve_request hk xdp rot mws e rq (st, ob) = Some (evs, st', ob')"
  shows "\<exists>oc. filter is_finish evs = [Ev_finish oc] \<and> after_all e rq oc mws (fold (before_hook e rq) mws ob) = Some ob'"
proof -
  obtain s1 s2 oc where ev: "evs = map Ev_before [0..<length mws] @ s1 @ finish (length mws) oc @ s2"
    and s: "list_all is_sent s1" "list_all is_sent s2"
    using assembled_events [of hk xdp rot mws rq st] assms
    by (auto simp: serve_request_def split_beta)
  have "filter is_finish (map Ev_before ks) = []" "list_all is_sent s \<Longrightarrow> filter is_finish s = []" for ks s
    by (auto simp: filter_empty_conv event_kinds list_all_iff split: handler_event.splits)
  with s have f: "filter is_finish evs = [Ev_finish oc]" by (simp add: ev filter_finish)
  have "observe e mws rq evs ob = Some ob'"
    using assms by (auto simp: serve_request_def split_beta)
  moreover have "observe e mws rq s2 = Some" by (rule ext) (rule observe_sent [OF s(2)])
  ultimately have "after_all e rq oc mws (fold (before_hook e rq) mws ob) = Some ob'"
    by (simp add: ev observe_append observe_before observe_sent [OF s(1)] finish_def observe_after map_nth_all
        del: map_map)
  with f show ?thesis by blast
qed

lemma request_effects:
  assumes "distinct mws" and "serve_request hk xdp rot mws e rq (st, ob) = Some (evs, st', ob')"
  obtains oc where "filter is_finish evs = [Ev_finish oc]"
    "obs_metrics ob' = obs_metrics ob @ (if Mw_metrics \<in> set mws then In_flight_add 1 # metrics_after_request (re_names e) rq (re_duration_ms e) oc else [])"
    "obs_logs ob' = obs_logs ob @ (if Mw_logging \<in> set mws then
       fst (logging_before_request (re_src e) rq) @ logging_after_request rq (re_duration_ms e) oc else [])"
    "(if Mw_xdp_cache \<in> set mws
      then xdp_after_request (re_evict e) (re_insert_ok e) (re_negative_ttl e) (re_now_ns e)
             (query_info_of (re_names e) rq) oc (obs_cache ob)
      else Some (obs_cache ob)) = Some (obs_cache ob')"
proof -
  from request_observed [OF assms(2)] obtain oc where f: "filter is_finish evs = [Ev_finish oc]"
    and a: "after_all e rq oc mws (fold (before_hook e rq) mws ob) = Some ob'" by blast
  show thesis
    by (rule that [of oc]) (use a f assms(1) in \<open>auto simp: before_all after_all_distinct\<close>)
qed

text \<open>C14. The books of a request agree with what the server did: whatever middlewares are installed, the request is
  recorded with one outcome; the log middleware writes one line before and one after it, for a request with a readable
  question, with its identifier and the recorded code; the metrics middleware raises and lowers the in-flight
  gauge and counts one query and one duration under the attributes of the recorded outcome; and
  the cache is what the cache hook makes of that outcome.\<close>

theorem request_books:
  assumes "distinct mws" and "serve_request hk xdp rot mws e rq (st, ob) = Some (evs, st', ob')"
  shows "\<exists>oc. filter is_finish evs = [Ev_finish oc] \<and>
    obs_logs ob' = obs_logs ob @ (case rq_info rq of
      Some ri \<Rightarrow> if Mw_logging \<in> set mws then
         [Query_received (md_id (rq_metadata rq)) (re_src e) (ri_name ri) (ri_type ri) (rq_protocol rq),
          Query_completed (md_id (rq_metadata rq)) (ri_name ri) (re_duration_ms e) (response_code oc)
            (case authority oc of Some a \<Rightarrow> a | None \<Rightarrow> ''none'') (answers oc)] else []
    | None \<Rightarrow> []) \<and>
    obs_metrics ob' = obs_metrics ob @ (if Mw_metrics \<in> set mws then
      [In_flight_add 1, In_flight_add (- 1), Queries_add 1 (outcome_attributes (re_names e) rq oc),
       Duration_record (re_duration_ms e) (outcome_attributes (re_names e) rq oc)] else []) \<and>
    Some (obs_cache ob') = (if Mw_xdp_cache \<in> set mws
      then xdp_after_request (re_evict e) (re_insert_ok e) (re_negative_ttl e) (re_now_ns e)
             (query_info_of (re_names e) rq) oc (obs_cache ob)
      else Some (obs_cache ob))"
proof -
  from assms obtain oc where f: "filter is_finish evs = [Ev_finish oc]"
    and m: "obs_metrics ob' = obs_metrics ob @ (if Mw_metrics \<in> set mws then In_flight_add 1 # metrics_after_request (re_names e) rq (re_duration_ms e) oc else [])"
    and l: "obs_logs ob' = obs_logs ob @ (if Mw_logging \<in> set mws then
       fst (logging_before_request (re_src e) rq) @ logging_after_request rq (re_duration_ms e) oc else [])"
    and c: "(if Mw_xdp_cache \<in> set mws
      then xdp_after_request (re_evict e) (re_insert_ok e) (re_negative_ttl e) (re_now_ns e)
             (query_info_of (re_names e) rq) oc (obs_cache ob)
      else Some (obs_cache ob)) = Some (obs_cache ob')"
    by (rule request_effects)
  show ?thesis
    by (rule exI [of _ oc])
      (use c in \<open>auto simp: f m l logging_before_request_def logging_after_request_def metrics_after_request_def
        metrics_record_def Let_def split: option.splits if_splits\<close>)
qed

definition sample_names :: names where
  "sample_names = \<lparr>nm_type = \<lambda>_. ''A'', nm_protocol = \<lambda>_. ''Udp'', nm_code = \<lambda>_. ''NXDomain'', nm_type_code = \<lambda>_. 1\<rparr>"

definition sample_env :: request_env where
  "sample_env = \<lparr>re_names = sample_names, re_src = ''10.0.0.1:4000'', re_duration_ms = 2, re_evict = \<lambda>_. False, re_insert_ok = True,
     re_negative_ttl = 30, re_now_ns = 5\<rparr>"

definition no_books :: observed where
  "no_books = \<lparr>obs_logs = [], obs_metrics = [], obs_cache = \<lparr>xc_map = Map.empty, xc_logs = []\<rparr>\<rparr>"

abbreviation all_middlewares :: "middleware_kind list" where
  "all_middlewares \<equiv> [Mw_logging, Mw_metrics, Mw_xdp_cache]"

definition sample_served :: "(handler_event list \<times> request_info handler_state \<times> observed) option" where
  "sample_served = serve_request sample_hickory True True all_middlewares sample_env sample_request
     (\<lparr>hs_chain = [], hs_cursor = 0\<rparr>, no_books)"

lemma sample_served_some: "sample_served \<noteq> None"
proof -
  have "\<not> Option.is_none sample_served" by code_simp
  then show ?thesis by (simp add: Option.is_none_def)
qed

theorem request_books_witness:
  "\<exists>evs st ob oc. sample_served = Some (evs, st, ob) \<and> filter is_finish evs = [Ev_finish oc] \<and>
     obs_metrics ob = [In_flight_add 1, In_flight_add (- 1), Queries_add 1 (outcome_attributes sample_names sample_request oc),
       Duration_record 2 (outcome_attributes sample_names sample_request oc)]"
proof -
  obtain evs st ob where s: "sample_served = Some (evs, st, ob)" using sample_served_some by (metis not_None_eq surj_pair)
  from request_books [OF _ s [unfolded sample_served_def]] s show ?thesis
    by (auto simp: no_books_def sample_env_def)
qed

section \<open>A run of the server\<close>

text \<open>The events of each request, in order, with the state and the books at the end.\<close>

fun serve_all ::
  "hickory \<Rightarrow> bool \<Rightarrow> bool \<Rightarrow> middleware_kind list \<Rightarrow> (request_env \<times> request) list \<Rightarrow>
     request_info handler_state \<times> observed \<Rightarrow> (handler_event list list \<times> request_info handler_state \<times> observed) option" where
  "serve_all hk xdp rot mws [] s = Some ([], s)"
| "serve_all hk xdp rot mws ((e, rq) # qs) s = (case serve_request hk xdp rot mws e rq s of
       None \<Rightarrow> None
     | Some (evs, s') \<Rightarrow> map_option (\<lambda>(evss, r). (evs # evss, r)) (serve_all hk xdp rot mws qs s'))"

definition gauge :: "metric_op list \<Rightarrow> int" where
  "gauge ops = sum_list (map (\<lambda>op. case op of In_flight_add n \<Rightarrow> n | _ \<Rightarrow> 0) ops)"

definition query_count :: "metric_op list \<Rightarrow> int" where
  "query_count ops = sum_list (map (\<lambda>op. case op of Queries_add n _ \<Rightarrow> uint n | _ \<Rightarrow> 0) ops)"

lemma books_append [simp]: "gauge (xs @ ys) = gauge xs + gauge ys" "query_count (xs @ ys) = query_count xs + query_count ys"
  by (simp_all add: gauge_def query_count_def)

text \<open>An entry that was put into the cache by a request that caused the events \<open>evs\<close>: its bytes are the encoding of a
  response that was sent, under the key of the question, negative exactly for NXDOMAIN.\<close>

definition stems_from :: "hickory \<Rightarrow> request_env \<times> request \<Rightarrow> handler_event list \<Rightarrow> cache_key \<Rightarrow> cache_value \<Rightarrow> bool" where
  "stems_from hk = (\<lambda>(e, rq) evs k v. \<exists>qi r ok resp. query_info_of (re_names e) rq = Some qi \<and>
     make_cache_key (qi_name qi) (qi_type qi) (qi_class qi) = Some k \<and> Ev_sent r ok \<in> set evs \<and>
     emit hk r (max_message_size (rq_protocol rq) (rq_max_payload rq)) = Some resp \<and>
     length resp \<le> 512 \<and> unat (resp_len v) = length resp \<and> take (length resp) (resp_data v) = resp \<and> cache_value_wf v \<and>
     is_negative v = (md_code (rs_metadata r) = NXDomain))"

definition name_fits :: "request_env \<times> request \<Rightarrow> bool" where
  "name_fits = (\<lambda>(e, rq). case rq_info rq of Some ri \<Rightarrow> name_ok (ri_name ri) | None \<Rightarrow> True)"

lemma serve_request_cache:
  assumes "distinct mws" and "name_fits (e, rq)"
    and "serve_request hk True rot mws e rq (st, ob) = Some (evs, st', ob')"
  shows "xc_map (obs_cache ob') = xc_map (obs_cache ob) \<or>
    (\<exists>k v. xc_map (obs_cache ob') = lru_insert (re_evict e) k v (xc_map (obs_cache ob)) \<and> stems_from hk (e, rq) evs k v)"
proof -
  obtain oc where f: "filter is_finish evs = [Ev_finish oc]" and c: "(if Mw_xdp_cache \<in> set mws
      then xdp_after_request (re_evict e) (re_insert_ok e) (re_negative_ttl e) (re_now_ns e) (query_info_of (re_names e) rq) oc (obs_cache ob)
      else Some (obs_cache ob)) = Some (obs_cache ob')"
    using assms(1,3) by (rule request_effects)
  have evs: "evs = fst (snd (handle_request hk (assembled True rot mws) rq st))"
    using assms(3) by (auto simp: serve_request_def split_beta)
  have fin: "Ev_finish oc \<in> set (fst (snd (handle_request hk (assembled True rot mws) rq st)))"
  proof -
    have "Ev_finish oc \<in> set (filter is_finish evs)" by (simp add: f)
    then show ?thesis by (simp add: evs)
  qed
  let ?c = "\<lparr>hc_evict = re_evict e, hc_insert_ok = re_insert_ok e, hc_now = re_now_ns e, hc_info = query_info_of (re_names e) rq, hc_outcome = oc\<rparr>"
  have ok: "call_ok ?c" using assms(2) by (auto simp: call_ok_def name_fits_def query_info_of_def split: option.splits)
  show ?thesis
  proof (cases "Mw_xdp_cache \<in> set mws \<and> xc_map (obs_cache ob') \<noteq> xc_map (obs_cache ob)")
    case True
    have "run_hook (re_negative_ttl e) ?c (Some (obs_cache ob)) = Some (obs_cache ob')"
      using c True by (simp add: run_hook_def)
    with run_hook_cases [OF ok, of "re_negative_ttl e" "obs_cache ob"] True obtain k v where
      i: "xc_map (obs_cache ob') = lru_insert (re_evict e) k v (xc_map (obs_cache ob))" and en: "entry_of_call (re_negative_ttl e) k v ?c"
      by auto
    then obtain qi resp where q: "query_info_of (re_names e) rq = Some qi" "response_bytes oc = Some resp"
      and kv: "compute_cache_entry (qi_name qi) (qi_type qi) (qi_class qi) (response_code oc) resp (min_answer_ttl oc)
        (re_negative_ttl e) (re_now_ns e) = Some (k, v)"
      by (auto simp: entry_of_call_def split: option.splits)
    from finished_bytes [OF fin q(2)] obtain r sent where r: "length resp \<le> 512"
      "Ev_sent r sent \<in> set (fst (snd (handle_request hk (assembled True rot mws) rq st)))"
      "md_code (rs_metadata r) = response_code oc"
      "emit hk r (max_message_size (rq_protocol rq) (rq_max_payload rq)) = Some resp"
      unfolding bytes_ok_def by blast
    have "name_ok (qi_name qi)" using ok q(1) by (simp add: call_ok_def)
    from compute_cache_entry_some [OF this, of "qi_type qi" "qi_class qi" "response_code oc" resp "min_answer_ttl oc"
        "re_negative_ttl e" "re_now_ns e"] kv r(1)
    have "make_cache_key (qi_name qi) (qi_type qi) (qi_class qi) = Some k" "cache_value_wf v"
      "is_negative v = (response_code oc = NXDomain)" "unat (resp_len v) = length resp" "take (length resp) (resp_data v) = resp" by auto
    with q(1) r have "stems_from hk (e, rq) evs k v" unfolding stems_from_def prod.case evs
      by (intro exI [of _ qi] exI [of _ r] exI [of _ sent] exI [of _ resp]) simp
    with i show ?thesis by blast
  qed (use c in auto)
qed

lemma serve_all_Cons:
  assumes "serve_all hk xdp rot mws (q # qs) s = Some (evss, s')"
  obtains e rq evs s1 evss1 where "q = (e, rq)" "serve_request hk xdp rot mws e rq s = Some (evs, s1)"
    "serve_all hk xdp rot mws qs s1 = Some (evss1, s')" "evss = evs # evss1"
  using assms by (cases q) (auto split: option.splits)

lemma serve_all_length: "serve_all hk xdp rot mws qs s = Some (evss, s') \<Longrightarrow> length evss = length qs"
proof (induction qs arbitrary: s evss)
  case (Cons q qs)
  from Cons(2) show ?case by (rule serve_all_Cons) (use Cons(1) in auto)
qed simp

lemma serve_all_cache:
  assumes "distinct mws" and "list_all name_fits qs" and "serve_all hk True rot mws qs (st, ob) = Some (evss, st', ob')"
    and "\<And>k v. xc_map (obs_cache ob) k = Some v \<Longrightarrow> P k v"
    and "\<And>q evs k v. (q, evs) \<in> set (zip qs evss) \<Longrightarrow> stems_from hk q evs k v \<Longrightarrow> P k v"
    and "xc_map (obs_cache ob') k = Some v"
  shows "P k v"
  using assms(2-6)
proof (induction qs arbitrary: st ob evss)
  case (Cons q qs)
  obtain e rq evs st1 ob1 evss1 where q: "q = (e, rq)" and r: "serve_request hk True rot mws e rq (st, ob) = Some (evs, st1, ob1)"
    and rest: "serve_all hk True rot mws qs (st1, ob1) = Some (evss1, st', ob')" and evss: "evss = evs # evss1"
    using Cons(3) by (rule serve_all_Cons) (metis surj_pair)
  have p: "P k v" if "xc_map (obs_cache ob1) k = Some v" for k v
    using serve_request_cache [OF assms(1) _ r] Cons(2) q evss
      dns_cache.insert_invariant [of "xc_map (obs_cache ob)" P _ _ "re_evict e" k v] Cons(4,5) that by fastforce
  have later: "P k v" if "(q', evs') \<in> set (zip qs evss1)" "stems_from hk q' evs' k v" for q' evs' k v
    using Cons(5) [of q' evs'] that evss by simp
  show ?case by (rule Cons(1) [OF _ rest p later]) (use Cons(2,6) in auto)
qed simp

text \<open>Every entry of a cache that started empty stems from one of the requests.\<close>

lemma cache_stems_from:
  assumes "distinct mws" and "list_all name_fits qs" and "serve_all hk True rot mws qs (st, no_books) = Some (evss, st', ob')"
    and "xc_map (obs_cache ob') k = Some v"
  shows "\<exists>i < length qs. stems_from hk (qs ! i) (evss ! i) k v"
proof -
  have "\<exists>q evs. (q, evs) \<in> set (zip qs evss) \<and> stems_from hk q evs k v"
    using serve_all_cache [OF assms(1-3), of "\<lambda>k v. \<exists>q evs. (q, evs) \<in> set (zip qs evss) \<and> stems_from hk q evs k v" k v] assms(4)
    by (auto simp: no_books_def)
  then show ?thesis using serve_all_length [OF assms(3)] by (auto simp: set_zip)
qed

lemma serve_all_metrics:
  assumes "distinct mws" and "Mw_metrics \<in> set mws" and "serve_all hk xdp rot mws qs (st, ob) = Some (evss, st', ob')"
  shows "gauge (obs_metrics ob') = gauge (obs_metrics ob) \<and>
    query_count (obs_metrics ob') = query_count (obs_metrics ob) + int (length qs)"
  using assms(3)
proof (induction qs arbitrary: st ob evss)
  case (Cons q qs)
  obtain e rq evs st1 ob1 evss1 where q: "q = (e, rq)" and r: "serve_request hk xdp rot mws e rq (st, ob) = Some (evs, st1, ob1)"
    and rest: "serve_all hk xdp rot mws qs (st1, ob1) = Some (evss1, st', ob')"
    using Cons(2) by (rule serve_all_Cons) (metis surj_pair)
  from assms(1) r obtain oc where "obs_metrics ob1 = obs_metrics ob @ (if Mw_metrics \<in> set mws
      then In_flight_add 1 # metrics_after_request (re_names e) rq (re_duration_ms e) oc else [])"
    by (rule request_effects)
  with Cons(1) [OF rest] assms(2) show ?case
    by (simp add: gauge_def query_count_def metrics_after_request_def metrics_record_def Let_def)
qed simp

text \<open>The events of each request are those of the handler in the state that the requests before it left.\<close>

lemma serve_all_events:
  "serve_all hk xdp rot mws qs (st, ob) = Some (evss, st', ob') \<Longrightarrow> i < length qs \<Longrightarrow>
     \<exists>st0 ob0. serve_all hk xdp rot mws (take i qs) (st, ob) = Some (take i evss, st0, ob0) \<and>
       evss ! i = fst (snd (handle_request hk (assembled xdp rot mws) (snd (qs ! i)) st0))"
proof (induction qs arbitrary: st ob evss i)
  case (Cons q qs)
  obtain e rq evs st1 ob1 evss1 where q: "q = (e, rq)" and r: "serve_request hk xdp rot mws e rq (st, ob) = Some (evs, st1, ob1)"
    and rest: "serve_all hk xdp rot mws qs (st1, ob1) = Some (evss1, st', ob')" and evss: "evss = evs # evss1"
    using Cons(2) by (rule serve_all_Cons) (metis surj_pair)
  show ?case
  proof (cases i)
    case 0
    with q r evss show ?thesis by (auto simp: serve_request_def split_beta)
  next
    case (Suc k)
    with Cons(1) [OF rest, of k] Cons(3) obtain st0 ob0 where
      "serve_all hk xdp rot mws (take k qs) (st1, ob1) = Some (take k evss1, st0, ob0)"
      "evss1 ! k = fst (snd (handle_request hk (assembled xdp rot mws) (snd (qs ! k)) st0))" by auto
    with Suc q r evss show ?thesis by auto
  qed
qed simp

text \<open>C10. The books of a run: after any sequence of requests, served one after the other with every kind of eviction and
  failed insert, the in-flight gauge is back at zero, the counter has counted every request once, and every entry of the
  shared cache holds, under the key of the question of one of the requests, the bytes of a response that was sent for
  this request in this run, that is, by the handler in the state the requests before it left.\<close>

theorem server_run_books:
  assumes "distinct mws" and "Mw_metrics \<in> set mws" and "list_all name_fits qs"
    and "serve_all hk True rot mws qs (st, no_books) = Some (evss, st', ob')"
  shows "gauge (obs_metrics ob') = 0 \<and> query_count (obs_metrics ob') = int (length qs) \<and>
    (\<forall>k v. xc_map (obs_cache ob') k = Some v \<longrightarrow> (\<exists>i < length qs. \<exists>st0 ob0.
       serve_all hk True rot mws (take i qs) (st, no_books) = Some (take i evss, st0, ob0) \<and>
       stems_from hk (qs ! i) (fst (snd (handle_request hk (assembled True rot mws) (snd (qs ! i)) st0))) k v))"
proof (intro conjI allI impI)
  have "gauge (obs_metrics no_books) = 0" "query_count (obs_metrics no_books) = 0"
    by (simp_all add: no_books_def gauge_def query_count_def)
  with serve_all_metrics [OF assms(1,2,4)]
  show "gauge (obs_metrics ob') = 0" "query_count (obs_metrics ob') = int (length qs)" by simp_all
  fix k v assume "xc_map (obs_cache ob') k = Some v"
  from cache_stems_from [OF assms(1,3,4) this] obtain i where i: "i < length qs" "stems_from hk (qs ! i) (evss ! i) k v" by blast
  with serve_all_events [OF assms(4) i(1)]
  show "\<exists>i < length qs. \<exists>st0 ob0. serve_all hk True rot mws (take i qs) (st, no_books) = Some (take i evss, st0, ob0) \<and>
      stems_from hk (qs ! i) (fst (snd (handle_request hk (assembled True rot mws) (snd (qs ! i)) st0))) k v" by auto
qed

theorem server_run_books_witness:
  "\<exists>evss st ob. serve_all sample_hickory True True all_middlewares [(sample_env, sample_request), (sample_env, sample_request)]
      (\<lparr>hs_chain = [], hs_cursor = 0\<rparr>, no_books) = Some (evss, st, ob) \<and> query_count (obs_metrics ob) = 2 \<and> gauge (obs_metrics ob) = 0"
proof -
  let ?run = "serve_all sample_hickory True True all_middlewares [(sample_env, sample_request), (sample_env, sample_request)]
      (\<lparr>hs_chain = [], hs_cursor = 0\<rparr>, no_books)"
  have "\<not> Option.is_none ?run" by code_simp
  then obtain evss st ob where r: "?run = Some (evss, st, ob)" by (auto simp: Option.is_none_def)
  have "list_all name_fits [(sample_env, sample_request), (sample_env, sample_request)]" by code_simp
  from server_run_books [OF _ _ this r] r show ?thesis by simp
qed

end
