(* ===== verification/Nacos_Mapping.thy ===== *)
theory Nacos_Mapping
  imports Xdp_Hash Authority_Chain Ip_Parse
begin

text \<open>
  From DNS names to Nacos services and from instances to records
  (\<open>crates/doggy-dns-nacos/src/mapping.rs\<close>). A name is its labels as bytes; a \<open>LowerName\<close> is a name whose bytes
  are lower case. Text is its UTF-8 bytes.
\<close>

section \<open>Text\<close>

definition label_text :: "bytes \<Rightarrow> bytes option" where
  "label_text label =
     (if list_ex (\<lambda>b. b < 0x20) label \<or> 0x2E \<in> set label then None
      else if utf8_valid label then Some label else None)"

definition eq_ignore_ascii_case :: "bytes \<Rightarrow> bytes \<Rightarrow> bool" where
  "eq_ignore_ascii_case a b = (map to_ascii_lowercase a = map to_ascii_lowercase b)"

section \<open>The service a name asks for\<close>

text \<open>The loop over the service labels: the first one as it is, every further one after a dot.\<close>

fun join_labels :: "bytes list \<Rightarrow> bytes \<Rightarrow> bytes option" where
  "join_labels [] service = Some service"
| "join_labels (label # labels) service =
     do { text \<leftarrow> label_text label; join_labels labels (service @ [0x2E] @ text) }"

definition join_service :: "bytes list \<Rightarrow> bytes option" where
  "join_service labels = (case labels of
       [] \<Rightarrow> Some []
     | label # rest \<Rightarrow> do { text \<leftarrow> label_text label; join_labels rest text })"

definition label_matches :: "bytes list \<Rightarrow> bytes \<Rightarrow> bool" where
  "label_matches ls cfg = (case ls of
       [] \<Rightarrow> False
     | l # _ \<Rightarrow> (case label_text l of None \<Rightarrow> False | Some t \<Rightarrow> eq_ignore_ascii_case t cfg))"

definition service_name_from_name :: "dns_name \<Rightarrow> dns_name \<Rightarrow> bytes \<Rightarrow> bytes \<Rightarrow> bytes option" where
  "service_name_from_name name zone grp namespace =
     (let zone_len = length zone; name_len = length name in
      if name_len < zone_len + 3 then None
      else let service_len = name_len - zone_len - 2; rest = drop service_len name in do {
        service \<leftarrow> join_service (take service_len name);
        if \<not> label_matches rest grp \<or> \<not> label_matches (drop 1 rest) namespace then None
        else Some service })"

section \<open>Records\<close>

record cached_instance =
  ci_ip :: ip_addr
  ci_port :: int
  ci_healthy :: bool

definition to_dns_records :: "dns_name \<Rightarrow> cached_instance list \<Rightarrow> u32 \<Rightarrow> record_type \<Rightarrow> dns_record list" where
  "to_dns_records name instances ttl rtype =
     List.map_filter (\<lambda>i. case (ci_ip i, rtype) of
         (IpV4 a, RT_A) \<Rightarrow> Some \<lparr>rr_name = name, rr_ttl = ttl, rr_data = RD_A a\<rparr>
       | (IpV6 a, RT_AAAA) \<Rightarrow> Some \<lparr>rr_name = name, rr_ttl = ttl, rr_data = RD_AAAA a\<rparr>
       | _ \<Rightarrow> None) instances"

section \<open>One service, one name\<close>

lemma label_text_eq: "label_text l = Some t \<Longrightarrow> t = l \<and> 0x2E \<notin> set l"
  by (auto simp: label_text_def split: if_splits)

text \<open>The service name is the labels joined with dots; the labels have none.\<close>

fun join_dots :: "bytes list \<Rightarrow> bytes" where
  "join_dots [] = []"
| "join_dots [l] = l"
| "join_dots (l # m # ls) = l @ [0x2E] @ join_dots (m # ls)"

lemma join_labels_eq:
  "join_labels ls s = Some r \<Longrightarrow> r = (if ls = [] then s else s @ [0x2E] @ join_dots ls) \<and> list_all (\<lambda>l. label_text l = Some l) ls"
proof (induction ls arbitrary: s)
  case (Cons l ls)
  then obtain t where t: "label_text l = Some t" "join_labels ls (s @ [0x2E] @ t) = Some r"
    by (auto simp: bind_eq_Some_conv)
  with label_text_eq [OF t(1)] Cons(1) [OF t(2)] show ?case by (cases ls) auto
qed simp

lemma join_service_eq:
  "join_service ls = Some r \<Longrightarrow> r = join_dots ls \<and> list_all (\<lambda>l. label_text l = Some l) ls"
proof (cases ls)
  case (Cons l rest)
  assume "join_service ls = Some r"
  with Cons obtain t where t: "label_text l = Some t" "join_labels rest t = Some r"
    by (auto simp: join_service_def bind_eq_Some_conv)
  with label_text_eq [OF t(1)] join_labels_eq [OF t(2)] Cons show ?thesis by (cases rest) auto
qed (simp add: join_service_def)

lemma join_labels_some:
  "list_all (\<lambda>l. label_text l = Some l) ls \<Longrightarrow> join_labels ls s = Some (if ls = [] then s else s @ [0x2E] @ join_dots ls)"
proof (induction ls arbitrary: s)
  case (Cons l ls)
  then show ?case using Cons(1) [of "s @ [0x2E] @ l"] by (cases ls) auto
qed simp

lemma join_service_some: "list_all (\<lambda>l. label_text l = Some l) ls \<Longrightarrow> join_service ls = Some (join_dots ls)"
  by (cases ls) (auto simp: join_service_def join_labels_some neq_Nil_conv)

lemma dot_split:
  "0x2E \<notin> set a \<Longrightarrow> 0x2E \<notin> set b \<Longrightarrow> a @ (0x2E :: u8) # x = b @ 0x2E # y \<Longrightarrow> a = b \<and> x = y"
proof (induction a arbitrary: b)
  case Nil
  then show ?case by (cases b) auto
next
  case (Cons c a)
  then show ?case by (cases b) auto
qed

lemma join_dots_inj:
  assumes "list_all (\<lambda>l. 0x2E \<notin> set l) xs" "list_all (\<lambda>l. 0x2E \<notin> set l) ys" "xs \<noteq> []" "ys \<noteq> []"
    and "join_dots xs = join_dots ys"
  shows "xs = ys"
  using assms
proof (induction xs arbitrary: ys rule: join_dots.induct)
  case (2 l)
  show ?case
  proof (cases ys rule: join_dots.cases)
    case (3 k m ms)
    then have "0x2E \<in> set (join_dots ys)" by simp
    with 2 show ?thesis by auto
  qed (use 2 in auto)
next
  case (3 l m ls)
  show ?case
  proof (cases ys rule: join_dots.cases)
    case (2 k)
    with 3 have "0x2E \<in> set k" by (metis join_dots.simps(2,3) in_set_conv_decomp append.assoc append_Cons append_Nil)
    with 2 3 show ?thesis by simp
  next
    case y: (3 k n ns)
    have "l @ 0x2E # join_dots (m # ls) = k @ 0x2E # join_dots (n # ns)" using 3(6) y by simp
    with dot_split [of l k] 3(2,3) y have "l = k" "join_dots (m # ls) = join_dots (n # ns)" by auto
    with 3(1) [of "n # ns"] 3(2,3) y show ?thesis by simp
  qed (use 3 in auto)
qed simp

definition lower_name :: "dns_name \<Rightarrow> bool" where
  "lower_name name = list_all (\<lambda>l. map to_ascii_lowercase l = l) name"

lemma label_matches_lower:
  "label_matches (l # ls) cfg \<Longrightarrow> map to_ascii_lowercase l = l \<Longrightarrow> l = map to_ascii_lowercase cfg"
  by (auto simp: label_matches_def eq_ignore_ascii_case_def dest!: label_text_eq split: option.splits)

lemma length2: "length xs = 2 \<Longrightarrow> \<exists>a b. xs = [a, b]"
  by (auto simp: eval_nat_numeral length_Suc_conv)

lemma service_name_shape:
  assumes "service_name_from_name name zone grp ns = Some s" and "suffix zone name" and "lower_name name"
  shows "\<exists>svc. name = svc @ [map to_ascii_lowercase grp, map to_ascii_lowercase ns] @ zone \<and> svc \<noteq> [] \<and>
     s = join_dots svc \<and> list_all (\<lambda>l. label_text l = Some l) svc"
proof -
  let ?k = "length name - length zone - 2"
  obtain pre where pre: "name = pre @ zone" using assms(2) by (auto simp: suffix_def)
  have len: "length zone + 3 \<le> length name" using assms(1) by (auto simp: service_name_from_name_def Let_def split: if_splits)
  then have k: "?k = length pre - 2" "3 \<le> length pre" by (auto simp: pre)
  from assms(1) len have j: "join_service (take ?k name) = Some s"
    and m: "label_matches (drop ?k name) grp" "label_matches (drop 1 (drop ?k name)) ns"
    by (auto simp: service_name_from_name_def Let_def bind_eq_Some_conv split: if_splits)
  obtain g n where d: "drop ?k pre = [g, n]"
  proof -
    have "length (drop ?k pre) = 2" using k by simp
    then obtain g n where "drop ?k pre = [g, n]" using length2 by blast
    then show thesis by (rule that)
  qed
  have dn: "drop ?k name = g # n # zone" using d k by (simp add: pre)
  have low: "map to_ascii_lowercase g = g" "map to_ascii_lowercase n = n"
  proof -
    have "set (drop ?k name) \<subseteq> set name" by (rule set_drop_subset)
    then have "g \<in> set name" "n \<in> set name" using dn by auto
    then show "map to_ascii_lowercase g = g" "map to_ascii_lowercase n = n"
      using assms(3) by (auto simp: lower_name_def list_all_iff)
  qed
  have "g = map to_ascii_lowercase grp" "n = map to_ascii_lowercase ns"
    using label_matches_lower [OF m(1) [unfolded dn] low(1)]
      label_matches_lower [of n zone ns, OF _ low(2)] m(2) [unfolded dn] by simp_all
  moreover have "name = take ?k name @ g # n # zone" using append_take_drop_id [of ?k name, symmetric] unfolding dn .
  moreover have "take ?k name \<noteq> []" using k by (auto simp: pre)
  ultimately show ?thesis using join_service_eq [OF j] by auto
qed

text \<open>Names and services correspond one to one: inside one zone, two lower-case names that parse to
  the same service for the same group and namespace are the same name, so no second spelling (an
  escaped dot, a label split elsewhere) reaches a service.\<close>

theorem service_name_injective:
  assumes "service_name_from_name n1 zone grp ns = Some s" and "service_name_from_name n2 zone grp ns = Some s"
    and "suffix zone n1" and "suffix zone n2" and "lower_name n1" and "lower_name n2"
  shows "n1 = n2"
proof -
  obtain v1 v2 where v: "n1 = v1 @ [map to_ascii_lowercase grp, map to_ascii_lowercase ns] @ zone" "v1 \<noteq> []"
      "s = join_dots v1" "list_all (\<lambda>l. label_text l = Some l) v1"
      "n2 = v2 @ [map to_ascii_lowercase grp, map to_ascii_lowercase ns] @ zone" "v2 \<noteq> []"
      "s = join_dots v2" "list_all (\<lambda>l. label_text l = Some l) v2"
    using service_name_shape [OF assms(1,3,5)] service_name_shape [OF assms(2,4,6)] by blast
  have "list_all (\<lambda>l. 0x2E \<notin> set l) v1" "list_all (\<lambda>l. 0x2E \<notin> set l) v2"
    using v(4,8) label_text_eq by (auto simp: list_all_iff)
  with join_dots_inj [of v1 v2] v show ?thesis by simp
qed

text \<open>C24. Round trip: a service whose labels are acceptable text, placed below the configured group and
  namespace (in lower case) of the zone, is parsed back to its dotted name.\<close>

theorem service_name_roundtrip:
  assumes "svc \<noteq> []" and "list_all (\<lambda>l. label_text l = Some l) svc"
    and "label_text g = Some g" and "label_text n = Some n"
    and "eq_ignore_ascii_case g grp" and "eq_ignore_ascii_case n ns"
  shows "service_name_from_name (svc @ [g, n] @ zone) zone grp ns = Some (join_dots svc)"
proof -
  have "length svc \<ge> 1" using assms(1) by (cases svc) auto
  then show ?thesis
    using assms join_service_some [OF assms(2)]
    by (simp add: service_name_from_name_def Let_def label_matches_def)
qed

theorem service_name_injective_witness:
  "let zone = [[122]]; n = [[97, 98], [99], [103], [110], [122]] in
   service_name_from_name n zone [71] [110] = Some [97, 98, 0x2E, 99] \<and> n = n"
proof -
  let ?n = "[[97, 98], [99], [103], [110], [122 :: u8]]"
  have a: "service_name_from_name ?n [[122]] [71] [110] = Some [97, 98, 0x2E, 99]" by code_simp
  have b: "lower_name ?n" by code_simp
  have c: "suffix [[122]] ?n" by (simp add: suffix_def)
  from service_name_injective [OF a a c c b b] a show ?thesis by simp
qed

theorem service_name_roundtrip_witness:
  "service_name_from_name ([[97, 98], [99]] @ [[103], [110]] @ [[122]]) [[122]] [71] [78] = Some (join_dots [[97, 98], [99]])"
  by (rule service_name_roundtrip) code_simp+

end
