(* ===== verification/Nacos_Watcher.thy ===== *)
theory Nacos_Watcher
  imports Nacos_Mapping
begin

text \<open>
  The Nacos catalog (\<open>crates/doggy-dns-nacos/src/watcher.rs\<close>) and the authority that answers from it
  (\<open>authority.rs\<close>). The Nacos SDK, the DNS library's name parser and the configured regular expression
  are parameters: what one query's SDK calls answer is the record \<open>nacos_env\<close>. Time is
  64-bit seconds, as int.
\<close>

section \<open>Failure backoff\<close>

definition NACOS_FAILURE_THRESHOLD :: u32 where "NACOS_FAILURE_THRESHOLD = 3"
definition NACOS_FAILURE_BACKOFF :: int where "NACOS_FAILURE_BACKOFF = 30"
definition WINDOW_CLOSED :: int where "WINDOW_CLOSED = - (2 ^ 63)"

record failure_backoff =
  failures :: u32
  opened_at :: int
  confirmed :: bool

definition backoff_new :: failure_backoff where
  "backoff_new = \<lparr>failures = 0, opened_at = WINDOW_CLOSED, confirmed = False\<rparr>"

definition record_failure :: "int \<Rightarrow> failure_backoff \<Rightarrow> bool \<times> failure_backoff" where
  "record_failure now b =
     (let streak = failures b + 1; b1 = b\<lparr>failures := failures b + 1\<rparr> in
      if streak < NACOS_FAILURE_THRESHOLD then (False, b1) else (True, b1\<lparr>opened_at := now\<rparr>))"

definition record_success :: "failure_backoff \<Rightarrow> failure_backoff" where
  "record_success b = b\<lparr>failures := 0, opened_at := WINDOW_CLOSED, confirmed := True\<rparr>"

definition ever_confirmed :: "failure_backoff \<Rightarrow> bool" where
  "ever_confirmed b = confirmed b"

definition saturating_sub_i64 :: "int \<Rightarrow> int \<Rightarrow> int" where
  "saturating_sub_i64 a b = max (- (2 ^ 63)) (min (2 ^ 63 - 1) (a - b))"

definition is_open :: "int \<Rightarrow> failure_backoff \<Rightarrow> bool" where
  "is_open now b =
     (if opened_at b = WINDOW_CLOSED \<or> failures b < NACOS_FAILURE_THRESHOLD then False
      else let elapsed = saturating_sub_i64 now (opened_at b)
           in elapsed \<ge> 0 \<and> elapsed < NACOS_FAILURE_BACKOFF)"

section \<open>Which source answers\<close>

datatype query_entry = ClientCache | CacheFirst | ServerFirst | CacheOnly

definition entry_of :: "bool \<Rightarrow> bool \<Rightarrow> bool \<Rightarrow> query_entry" where
  "entry_of ledgered ever_conf window_open =
     (if ledgered then ClientCache
      else if window_open then CacheOnly
      else if ever_conf then ServerFirst
      else CacheFirst)"

record service_instance =
  si_ip :: string
  si_port :: int
  si_healthy :: bool
  si_enabled :: bool

definition from_service_instance :: "service_instance \<Rightarrow> cached_instance option" where
  "from_service_instance i =
     map_option (\<lambda>ip. \<lparr>ci_ip = ip, ci_port = si_port i, ci_healthy = si_healthy i\<rparr>) (parse_ip_addr (si_ip i))"

definition usable_instances :: "service_instance list \<Rightarrow> cached_instance list" where
  "usable_instances is =
     List.map_filter from_service_instance (filter (\<lambda>i. si_healthy i \<and> si_enabled i) is)"

datatype catalog_answer = Instances "cached_instance list" | Unknown | Unavailable

definition cache_hit_of :: "service_instance list \<Rightarrow> catalog_answer option" where
  "cache_hit_of is =
     (let usable = usable_instances is in if usable = [] then None else Some (Instances usable))"

definition answer_of :: "service_instance list \<Rightarrow> catalog_answer" where
  "answer_of is =
     (let usable = usable_instances is in if usable = [] then Unknown else Instances usable)"

section \<open>The watcher\<close>

text \<open>A call to the SDK comes back after some milliseconds with a value or an error, or never.\<close>

datatype 'a sdk_reply = Returns nat "'a option" | Hangs

text \<open>What a caller sees who waits at most so many milliseconds (\<open>tokio::time::timeout\<close>).\<close>

datatype 'a sdk_call = Call_Ok 'a | Call_Err | Call_Timeout

definition timeout :: "nat \<Rightarrow> 'a sdk_reply \<Rightarrow> 'a sdk_call" where
  "timeout ms reply = (case reply of
       Hangs \<Rightarrow> Call_Timeout
     | Returns t v \<Rightarrow> if t < ms then (case v of Some x \<Rightarrow> Call_Ok x | None \<Rightarrow> Call_Err) else Call_Timeout)"

definition NACOS_LOOKUP_TIMEOUT :: nat where
  "NACOS_LOOKUP_TIMEOUT = 3000"

definition NACOS_CACHE_READ_TIMEOUT :: nat where
  "NACOS_CACHE_READ_TIMEOUT = 50"

text \<open>What the SDK does during one query: the replies to \<open>fetch_cache\<close>, to \<open>confirm_with_server\<close> and to the subscribe, and
  the clock when a failure is recorded.\<close>

record nacos_env =
  raw_cache :: "service_instance list sdk_reply"
  raw_server :: "service_instance list sdk_reply"
  raw_subscribe :: "unit sdk_reply"
  ne_now :: int
  ne_now_failure :: int

definition ne_cache_short :: "nacos_env \<Rightarrow> service_instance list sdk_call" where
  "ne_cache_short e = timeout NACOS_CACHE_READ_TIMEOUT (raw_cache e)"

definition ne_cache_long :: "nacos_env \<Rightarrow> service_instance list sdk_call" where
  "ne_cache_long e = timeout NACOS_LOOKUP_TIMEOUT (raw_cache e)"

definition ne_server :: "nacos_env \<Rightarrow> service_instance list sdk_call" where
  "ne_server e = timeout NACOS_LOOKUP_TIMEOUT (raw_server e)"

text \<open>The subscribe is awaited without a limit: the operations below are those of a query whose subscribe comes back. One
  that never does is a blocked query of \<open>Nacos_Concurrent\<close>.\<close>

definition ne_subscribe_ok :: "nacos_env \<Rightarrow> bool" where
  "ne_subscribe_ok e = (\<exists>t. raw_subscribe e = Returns t (Some ()))"

lemmas call_defs = ne_cache_short_def ne_cache_long_def ne_server_def ne_subscribe_ok_def timeout_def
  NACOS_LOOKUP_TIMEOUT_def NACOS_CACHE_READ_TIMEOUT_def

record watcher =
  w_subscribed :: "bytes set"
  w_backoff :: failure_backoff

definition record_remote_failure :: "nacos_env \<Rightarrow> watcher \<Rightarrow> watcher" where
  "record_remote_failure e w = w\<lparr>w_backoff := snd (record_failure (ne_now_failure e) (w_backoff w))\<rparr>"

definition subscribe_name :: "nacos_env \<Rightarrow> bytes \<Rightarrow> watcher \<Rightarrow> watcher" where
  "subscribe_name e service w =
     (if service \<in> w_subscribed w then w
      else if ne_subscribe_ok e then w\<lparr>w_subscribed := insert service (w_subscribed w)\<rparr> else w)"

definition answer_from_server ::
  "nacos_env \<Rightarrow> bytes \<Rightarrow> watcher \<Rightarrow> catalog_answer \<times> watcher" where
  "answer_from_server e service w = (case ne_server e of
       Call_Ok is \<Rightarrow> (answer_of is,
                      subscribe_name e service (w\<lparr>w_backoff := record_success (w_backoff w)\<rparr>))
     | Call_Err \<Rightarrow> (Unavailable, record_remote_failure e w)
     | Call_Timeout \<Rightarrow> (Unavailable, record_remote_failure e w))"

definition answer_from_cache ::
  "nacos_env \<Rightarrow> bytes \<Rightarrow> watcher \<Rightarrow> catalog_answer option \<times> watcher" where
  "answer_from_cache e service w = (case ne_cache_short e of
       Call_Ok is \<Rightarrow> let hit = cache_hit_of is in
                     (hit, if hit \<noteq> None then subscribe_name e service w else w)
     | Call_Err \<Rightarrow> (None, w)
     | Call_Timeout \<Rightarrow> (None, w))"

definition read_client_cache ::
  "nacos_env \<Rightarrow> bytes \<Rightarrow> watcher \<Rightarrow> catalog_answer \<times> watcher" where
  "read_client_cache e service w = (case ne_cache_long e of
       Call_Ok is \<Rightarrow> (answer_of is, w)
     | Call_Err \<Rightarrow> (Unavailable, w)
     | Call_Timeout \<Rightarrow> (Unavailable, record_remote_failure e w))"

definition instances ::
  "(bytes \<Rightarrow> bool) \<Rightarrow> nacos_env \<Rightarrow> bytes \<Rightarrow> watcher \<Rightarrow> catalog_answer \<times> watcher" where
  "instances selected e service w =
     (if \<not> selected service then (Unknown, w)
      else case entry_of (service \<in> w_subscribed w) (ever_confirmed (w_backoff w)) (is_open (ne_now e) (w_backoff w)) of
        ClientCache \<Rightarrow> read_client_cache e service w
      | CacheFirst \<Rightarrow> (case answer_from_cache e service w of
            (Some a, w1) \<Rightarrow> (a, w1)
          | (None, w1) \<Rightarrow> answer_from_server e service w1)
      | ServerFirst \<Rightarrow> (case answer_from_server e service w of
            (Unavailable, w1) \<Rightarrow> (case answer_from_cache e service w1 of
                 (Some a, w2) \<Rightarrow> (a, w2)
               | (None, w2) \<Rightarrow> (Unavailable, w2))
          | (a, w1) \<Rightarrow> (a, w1))
      | CacheOnly \<Rightarrow> (case answer_from_cache e service w of
            (Some a, w1) \<Rightarrow> (a, w1)
          | (None, w1) \<Rightarrow> (Unavailable, w1)))"

section \<open>The authority\<close>

record nacos_authority =
  na_ttl :: u32
  na_origin :: dns_name
  na_group :: bytes
  na_namespace :: bytes
  na_apex_soa :: dns_record

text \<open>Names are the DNS library's: \<open>from_ascii\<close> is its parser and \<open>show_name\<close> its display. A failed parse is
  the root name.\<close>

definition build_soa_record ::
  "(string \<Rightarrow> dns_name option) \<Rightarrow> (dns_name \<Rightarrow> string) \<Rightarrow> dns_name \<Rightarrow> u32 \<Rightarrow> dns_record" where
  "build_soa_record from_ascii show_name zone ttl =
     (let admin = (case from_ascii (''hostmaster.'' @ show_name zone) of Some n \<Rightarrow> n | None \<Rightarrow> []) in
      \<lparr>rr_name = zone, rr_ttl = ttl, rr_data = RD_SOA zone admin 1 3600 600 86400 ttl\<rparr>)"

definition trim_end_dots :: "string \<Rightarrow> string" where
  "trim_end_dots s = rev (dropWhile (\<lambda>c. c = CHR ''.'') (rev s))"

text \<open>\<open>LowerName::from\<close>.\<close>

definition lower_label :: "bytes \<Rightarrow> bytes" where
  "lower_label l = map to_ascii_lowercase l"

definition nacos_authority_new ::
  "(string \<Rightarrow> dns_name option) \<Rightarrow> (dns_name \<Rightarrow> string) \<Rightarrow> string \<Rightarrow> bytes \<Rightarrow> bytes \<Rightarrow> u32 \<Rightarrow> nacos_authority" where
  "nacos_authority_new from_ascii show_name dns_zone grp ns ttl =
     (let zone = (case from_ascii (trim_end_dots dns_zone @ ''.'') of Some n \<Rightarrow> n | None \<Rightarrow> []) in
      \<lparr>na_ttl = ttl, na_origin = map lower_label zone, na_group = grp, na_namespace = ns,
       na_apex_soa = build_soa_record from_ascii show_name zone ttl\<rparr>)"

definition nacos_answer :: "nacos_authority \<Rightarrow> dns_name \<Rightarrow> cached_instance list \<Rightarrow> record_type \<Rightarrow> control_flow" where
  "nacos_answer a name is rtype =
     (if rtype \<noteq> RT_A \<and> rtype \<noteq> RT_AAAA then CF_Continue (Inl NameExists)
      else let records = to_dns_records name is (na_ttl a) rtype in
        if records = [] then CF_Continue (Inl NameExists) else CF_Continue (Inr (Section records)))"

definition nacos_nxdomain :: control_flow where
  "nacos_nxdomain = CF_Continue (Inl (LookupResponseCode NXDomain))"

definition nacos_servfail :: control_flow where
  "nacos_servfail = CF_Continue (Inl (LookupResponseCode ServFail))"

definition zone_of :: "dns_name \<Rightarrow> dns_name \<Rightarrow> bool" where
  "zone_of zone name = suffix zone name"

text \<open>The catalog is a function of the service: its answer at the instant of the query.\<close>

definition nacos_lookup ::
  "nacos_authority \<Rightarrow> (bytes \<Rightarrow> catalog_answer) \<Rightarrow> dns_name \<Rightarrow> record_type \<Rightarrow> 'i option \<Rightarrow> control_flow" where
  "nacos_lookup a catalog name rtype info =
     (if \<not> zone_of (na_origin a) name then CF_Skip
      else if length name = length (na_origin a) then
        (if rtype = RT_SOA then CF_Continue (Inr (Section [na_apex_soa a])) else CF_Continue (Inl NameExists))
      else case service_name_from_name name (na_origin a) (na_group a) (na_namespace a) of
        None \<Rightarrow> nacos_nxdomain
      | Some service \<Rightarrow>
          (case catalog service of
             Instances is \<Rightarrow> nacos_answer a name is rtype
           | Unknown \<Rightarrow> nacos_nxdomain
           | Unavailable \<Rightarrow> nacos_servfail))"

definition nacos_zone_handler :: "nacos_authority \<Rightarrow> (bytes \<Rightarrow> catalog_answer) \<Rightarrow> 'i zone_handler" where
  "nacos_zone_handler a catalog = \<lparr>zone_type = Primary, origin = na_origin a, zh_lookup = nacos_lookup a catalog\<rparr>"


section \<open>The backoff window\<close>

datatype backoff_event = Failed int | Succeeded

definition backoff_step :: "backoff_event \<Rightarrow> failure_backoff \<Rightarrow> failure_backoff" where
  "backoff_step ev b = (case ev of Failed t \<Rightarrow> snd (record_failure t b) | Succeeded \<Rightarrow> record_success b)"

text \<open>The failures since the last success, latest first.\<close>

definition streak :: "backoff_event list \<Rightarrow> backoff_event list" where
  "streak evs = takeWhile (\<lambda>e. e \<noteq> Succeeded) (rev evs)"

definition i64_time :: "int \<Rightarrow> bool" where
  "i64_time t = (0 \<le> t \<and> t < 2 ^ 63)"

definition event_ok :: "backoff_event \<Rightarrow> bool" where
  "event_ok e = (case e of Failed t \<Rightarrow> i64_time t | Succeeded \<Rightarrow> True)"

lemma streak_snoc [simp]: "streak (evs @ [Succeeded]) = []" "streak (evs @ [Failed t]) = Failed t # streak evs"
  by (simp_all add: streak_def)

lemma length_streak_le: "length (streak evs) \<le> length evs"
  using length_takeWhile_le [of _ "rev evs"] by (simp add: streak_def)

lemma backoff_step_simps:
  "backoff_step (Failed t) b = snd (record_failure t b)" "backoff_step Succeeded b = record_success b"
  by (simp_all add: backoff_step_def)

lemma backoff_inv:
  assumes "length evs < 2 ^ 32"
  shows "let b = fold backoff_step evs backoff_new in
     unat (failures b) = length (streak evs) \<and>
     opened_at b = (if length (streak evs) < 3 then WINDOW_CLOSED
                    else case hd (streak evs) of Failed t \<Rightarrow> t | Succeeded \<Rightarrow> WINDOW_CLOSED)"
  using assms
proof (induction evs rule: rev_induct)
  case Nil
  then show ?case by (simp add: backoff_new_def streak_def)
next
  case (snoc e evs)
  let ?b = "fold backoff_step evs backoff_new"
  have ih: "unat (failures ?b) = length (streak evs)"
    "opened_at ?b = (if length (streak evs) < 3 then WINDOW_CLOSED
       else case hd (streak evs) of Failed t \<Rightarrow> t | Succeeded \<Rightarrow> WINDOW_CLOSED)"
    using snoc by (auto simp: Let_def)
  show ?case
  proof (cases e)
    case Succeeded
    then show ?thesis by (simp add: backoff_step_simps record_success_def)
  next
    case (Failed t)
    have "unat (failures ?b + 1) = length (streak evs) + 1"
      using ih(1) length_streak_le [of evs] snoc(2) by (simp add: unat_word_ariths)
    moreover from this have "failures ?b + 1 < NACOS_FAILURE_THRESHOLD \<longleftrightarrow> length (streak evs) + 1 < 3"
      by (simp add: word_less_nat_alt NACOS_FAILURE_THRESHOLD_def)
    ultimately show ?thesis
      using ih(2) Failed by (auto simp: backoff_step_simps record_failure_def Let_def)
  qed
qed

text \<open>C21. The backoff window does what its three constants say: after any history of failures and
  successes it is open exactly when the last three calls in a row failed and less than 30 seconds
  (and not a negative time) have passed since the latest of them.\<close>

theorem backoff_window_spec:
  assumes "length evs < 2 ^ 32" and "list_all event_ok evs" and "i64_time now"
  shows "is_open now (fold backoff_step evs backoff_new) \<longleftrightarrow>
     3 \<le> length (streak evs) \<and> (\<exists>t. hd (streak evs) = Failed t \<and> t \<le> now \<and> now < t + 30)"
proof -
  let ?b = "fold backoff_step evs backoff_new"
  have i: "unat (failures ?b) = length (streak evs)"
    "opened_at ?b = (if length (streak evs) < 3 then WINDOW_CLOSED
       else case hd (streak evs) of Failed t \<Rightarrow> t | Succeeded \<Rightarrow> WINDOW_CLOSED)"
    using backoff_inv [OF assms(1)] by (auto simp: Let_def)
  have f: "failures ?b < NACOS_FAILURE_THRESHOLD \<longleftrightarrow> length (streak evs) < 3"
    by (simp add: word_less_nat_alt NACOS_FAILURE_THRESHOLD_def i)
  show ?thesis
  proof (cases "length (streak evs) < 3")
    case True
    with f show ?thesis by (simp add: is_open_def)
  next
    case False
    then have ne: "streak evs \<noteq> []" by auto
    have "hd (streak evs) \<in> set (streak evs)" using ne by simp
    then have "hd (streak evs) \<noteq> Succeeded" "hd (streak evs) \<in> set evs"
      unfolding streak_def using set_takeWhileD by fastforce+
    then obtain t where t: "hd (streak evs) = Failed t" "i64_time t"
      using assms(2) by (cases "hd (streak evs)") (auto simp: list_all_iff event_ok_def)
    have "opened_at ?b = t" "t \<noteq> WINDOW_CLOSED" using i(2) False t by (auto simp: i64_time_def WINDOW_CLOSED_def)
    with False f t assms(3) show ?thesis
      by (auto simp: is_open_def saturating_sub_i64_def NACOS_FAILURE_BACKOFF_def i64_time_def)
  qed
qed

theorem backoff_window_spec_witness:
  "is_open 129 (fold backoff_step [Failed 1, Succeeded, Failed 90, Failed 95, Failed 100] backoff_new) \<and>
   \<not> is_open 130 (fold backoff_step [Failed 1, Succeeded, Failed 90, Failed 95, Failed 100] backoff_new)"
  using backoff_window_spec [of "[Failed 1, Succeeded, Failed 90, Failed 95, Failed 100]" 129]
    backoff_window_spec [of "[Failed 1, Succeeded, Failed 90, Failed 95, Failed 100]" 130]
  by (simp add: streak_def event_ok_def i64_time_def)

section \<open>An outage is not a negative answer\<close>

lemma usable_healthy:
  "ci \<in> set (usable_instances is) \<Longrightarrow>
     \<exists>i \<in> set is. si_healthy i \<and> si_enabled i \<and> from_service_instance i = Some ci"
  by (auto simp: usable_instances_def map_filter_def)

lemma answer_from_cache_not_unknown: "answer_from_cache e s w \<noteq> (Some Unknown, w')"
  by (auto simp: answer_from_cache_def cache_hit_of_def Let_def split: sdk_call.splits)

text \<open>For a name the process has not subscribed, "does not exist" is only ever the registry's word: an
  authoritative Unknown for a selected service means that in this very query the server was asked and replied
  with a list that has no usable instance. Timeouts, errors, an empty client cache and an open
  backoff window never produce it.\<close>

lemma asked_server_unknown:
  assumes "selected service" and "service \<notin> w_subscribed w" and "instances selected e service w = (Unknown, w')"
  shows "\<exists>is. ne_server e = Call_Ok is \<and> usable_instances is = [] \<and> \<not> is_open (ne_now e) (w_backoff w)"
proof -
  have s: "\<exists>is. ne_server e = Call_Ok is \<and> usable_instances is = []"
    if "answer_from_server e service w1 = (Unknown, w2)" for w1 w2
    using that by (auto simp: answer_from_server_def answer_of_def Let_def split: sdk_call.splits if_splits)
  show ?thesis
    using assms
    by (auto simp: instances_def entry_of_def answer_from_cache_not_unknown dest: s split: if_splits prod.splits option.splits catalog_answer.splits)
qed

text \<open>For a subscribed name the same does not hold: while the backoff window is open after repeated
  failures and the server does not answer, a cache read that comes back empty, which is how the SDK
  reports a failed fetch of a name it holds no entry for, is answered as an authoritative NXDOMAIN.\<close>

theorem subscribed_outage_nxdomain:
  "\<exists>e w. let a = \<lparr>na_ttl = 60, na_origin = [[122]], na_group = [103], na_namespace = [110], na_apex_soa = soa\<rparr> in
     is_open (ne_now e) (w_backoff w) \<and> ne_server e = Call_Timeout \<and> [97] \<in> w_subscribed w \<and>
     ne_cache_long e = Call_Ok [] \<and>
     nacos_lookup a (\<lambda>s. fst (instances (\<lambda>_. True) e s w)) [[97], [103], [110], [122]] RT_A (None :: unit option) =
       CF_Continue (Inl (LookupResponseCode NXDomain))"
proof -
  let ?e = "\<lparr>raw_cache = Returns 100 (Some []), raw_server = Hangs, raw_subscribe = Returns 1 (Some ()), ne_now = 105, ne_now_failure = 105\<rparr>"
  let ?w = "\<lparr>w_subscribed = {[97]}, w_backoff = fold backoff_step [Failed 90, Failed 95, Failed 100] backoff_new\<rparr>"
  have n: "service_name_from_name [[97], [103], [110], [122]] [[122]] [103] [110] = Some [97]" by code_simp
  have o: "is_open 105 (fold backoff_step [Failed 90, Failed 95, Failed 100] backoff_new)" by code_simp
  show ?thesis
    by (rule exI [of _ ?e], rule exI [of _ ?w])
      (use o in \<open>simp add: Let_def n nacos_lookup_def nacos_authority_new_def zone_of_def suffix_def instances_def entry_of_def
        read_client_cache_def answer_of_def usable_instances_def map_filter_simps nacos_nxdomain_def call_defs\<close>)
qed

section \<open>What the catalog remembers\<close>

text \<open>How a query may change the watcher.\<close>

definition watcher_grows :: "bytes \<Rightarrow> watcher \<Rightarrow> watcher \<Rightarrow> bool" where
  "watcher_grows s w w' = (w_subscribed w \<subseteq> w_subscribed w' \<and> w_subscribed w' \<subseteq> insert s (w_subscribed w) \<and>
     (confirmed (w_backoff w) \<longrightarrow> confirmed (w_backoff w')))"

lemma watcher_grows_refl [simp]: "watcher_grows s w w"
  by (auto simp: watcher_grows_def)

lemma watcher_grows_trans: "watcher_grows s w w1 \<Longrightarrow> watcher_grows s w1 w2 \<Longrightarrow> watcher_grows s w w2"
  by (auto simp: watcher_grows_def)

lemma subscribe_grows [simp]: "watcher_grows s w (subscribe_name e s w)"
  by (auto simp: watcher_grows_def subscribe_name_def)

lemma failure_grows [simp]: "watcher_grows s w (record_remote_failure e w)"
  by (auto simp: watcher_grows_def record_remote_failure_def record_failure_def Let_def)

lemma success_grows: "watcher_grows s w (w\<lparr>w_backoff := record_success (w_backoff w)\<rparr>)"
  by (auto simp: watcher_grows_def record_success_def)

lemma answer_of_nonempty [simp]: "answer_of is \<noteq> Instances []"
  by (simp add: answer_of_def Let_def)

lemma answer_from_server_grows:
  "answer_from_server e s w = (a, w') \<Longrightarrow> watcher_grows s w w' \<and> a \<noteq> Instances []"
  using watcher_grows_trans [OF success_grows subscribe_grows]
  by (auto simp: answer_from_server_def split: sdk_call.splits)

lemma answer_from_cache_grows:
  "answer_from_cache e s w = (a, w') \<Longrightarrow> watcher_grows s w w' \<and> a \<noteq> Some (Instances [])"
  by (auto simp: answer_from_cache_def cache_hit_of_def Let_def split: sdk_call.splits if_splits)

lemma read_client_cache_grows:
  "read_client_cache e s w = (a, w') \<Longrightarrow> watcher_grows s w w' \<and> a \<noteq> Instances []"
  by (auto simp: read_client_cache_def split: sdk_call.splits)

lemmas catalog_grows = answer_from_server_grows answer_from_cache_grows read_client_cache_grows

lemma instances_grows:
  "instances selected e service w = (a, w') \<Longrightarrow> watcher_grows service w w' \<and> a \<noteq> Instances []"
  by (auto simp: instances_def split: if_splits query_entry.splits prod.splits option.splits catalog_answer.splits
      dest!: catalog_grows intro: watcher_grows_trans)

text \<open>The ledger of subscribed names and the memory that the registry has answered only ever grow,
  a query for a name outside the service pattern changes nothing and asks nobody, and every instance list
  the catalog hands out is non-empty.\<close>

theorem catalog_step:
  assumes "instances selected e service w = (a, w')"
  shows "w_subscribed w \<subseteq> w_subscribed w' \<and> (ever_confirmed (w_backoff w) \<longrightarrow> ever_confirmed (w_backoff w')) \<and>
     w_subscribed w' \<subseteq> insert service (w_subscribed w) \<and>
     (\<not> selected service \<longrightarrow> a = Unknown \<and> w' = w) \<and> a \<noteq> Instances []"
  using instances_grows [OF assms] assms by (auto simp: watcher_grows_def ever_confirmed_def instances_def)

theorem catalog_step_witness:
  "let e = \<lparr>raw_cache = Hangs, raw_server = Returns 1 (Some []), raw_subscribe = Returns 1 (Some ()),
       ne_now = 5, ne_now_failure = 5\<rparr>;
     w = \<lparr>w_subscribed = {}, w_backoff = backoff_new\<rparr>;
     w' = snd (instances (\<lambda>_. True) e [97] w) in
   w_subscribed w \<subseteq> w_subscribed w' \<and> w_subscribed w' \<subseteq> {[97]}"
  unfolding Let_def
  using catalog_step [where selected = "\<lambda>_. True" and e = "\<lparr>raw_cache = Hangs, raw_server = Returns 1 (Some []), raw_subscribe = Returns 1 (Some ()),
       ne_now = 5, ne_now_failure = 5\<rparr>"
       and service = "[97]" and w = "\<lparr>w_subscribed = {}, w_backoff = backoff_new\<rparr>", OF prod.collapse [symmetric]] by auto

section \<open>The authority\<close>

lemma to_dns_records_props:
  "r \<in> set (to_dns_records name is ttl rtype) \<Longrightarrow>
     rr_name r = name \<and> rr_ttl r = ttl \<and>
     (case rr_data r of RD_A a \<Rightarrow> rtype = RT_A \<and> IpV4 a \<in> ci_ip ` set is
      | RD_AAAA a \<Rightarrow> rtype = RT_AAAA \<and> IpV6 a \<in> ci_ip ` set is | _ \<Rightarrow> False)"
proof -
  assume "r \<in> set (to_dns_records name is ttl rtype)"
  then obtain i where i: "i \<in> set is" and c: "(case (ci_ip i, rtype) of
         (IpV4 a, RT_A) \<Rightarrow> Some \<lparr>rr_name = name, rr_ttl = ttl, rr_data = RD_A a\<rparr>
       | (IpV6 a, RT_AAAA) \<Rightarrow> Some \<lparr>rr_name = name, rr_ttl = ttl, rr_data = RD_AAAA a\<rparr>
       | _ \<Rightarrow> None) = Some r"
    unfolding to_dns_records_def map_filter_def by auto
  from i have "ci_ip i \<in> ci_ip ` set is" by (rule imageI)
  with c show ?thesis by (cases "ci_ip i"; cases rtype) auto
qed

interpretation nacos: answering_backend "nacos_lookup a catalog" for a catalog
  by unfold_locales
    (auto simp: nacos_lookup_def nacos_answer_def nacos_nxdomain_def nacos_servfail_def lookup_records_def Let_def
      split: if_splits option.splits catalog_answer.splits)

text \<open>The authority meets the condition of the chain's SOA cache: its apex lookup ignores the request.\<close>

lemma nacos_stable_soa: "stable_soa (nacos_zone_handler a catalog)"
  by (simp add: stable_soa_def fetch_apex_soa_def nacos_zone_handler_def nacos_lookup_def)

text \<open>The authority owns its zone completely: it skips a name exactly when the name lies outside the
  zone, so no internal name falls through to an upstream resolver; inside, an address query gives only
  records of the asked family, under the queried name with the configured TTL, for addresses of the
  catalog's instances, and never an empty answer.\<close>

lemma nacos_owns_zone:
  "(nacos_lookup a catalog name rtype info = CF_Skip) = (\<not> zone_of (na_origin a) name) \<and>
   (\<forall>l r. nacos_lookup a catalog name rtype info = CF_Continue (Inr l) \<and> r \<in> set (lookup_records l) \<and> rtype \<noteq> RT_SOA \<longrightarrow>
      rr_name r = name \<and> rr_ttl r = na_ttl a \<and>
      (\<exists>s is. catalog s = Instances is \<and>
        (case rr_data r of RD_A x \<Rightarrow> rtype = RT_A \<and> IpV4 x \<in> ci_ip ` set is
         | RD_AAAA x \<Rightarrow> rtype = RT_AAAA \<and> IpV6 x \<in> ci_ip ` set is | _ \<Rightarrow> False))) \<and>
   (\<forall>l. nacos_lookup a catalog name rtype info = CF_Continue (Inr l) \<longrightarrow> lookup_records l \<noteq> [])"
proof (intro conjI allI impI)
  show "(nacos_lookup a catalog name rtype info = CF_Skip) = (\<not> zone_of (na_origin a) name)"
    by (auto simp: nacos_lookup_def nacos_answer_def nacos_nxdomain_def nacos_servfail_def Let_def
        split: if_splits option.splits catalog_answer.splits)
next
  fix l r
  assume h: "nacos_lookup a catalog name rtype info = CF_Continue (Inr l) \<and> r \<in> set (lookup_records l) \<and> rtype \<noteq> RT_SOA"
  then obtain s "is" where "catalog s = Instances is" "r \<in> set (to_dns_records name is (na_ttl a) rtype)"
    by (auto simp: nacos_lookup_def nacos_answer_def nacos_nxdomain_def nacos_servfail_def lookup_records_def Let_def
        split: if_splits option.splits catalog_answer.splits)
  with to_dns_records_props [of r name "is" "na_ttl a" rtype]
  show "rr_name r = name" "rr_ttl r = na_ttl a"
    "\<exists>s is. catalog s = Instances is \<and>
        (case rr_data r of RD_A x \<Rightarrow> rtype = RT_A \<and> IpV4 x \<in> ci_ip ` set is
         | RD_AAAA x \<Rightarrow> rtype = RT_AAAA \<and> IpV6 x \<in> ci_ip ` set is | _ \<Rightarrow> False)" by blast+
next
  fix l
  assume "nacos_lookup a catalog name rtype info = CF_Continue (Inr l)"
  then show "lookup_records l \<noteq> []" using nacos.nonempty [of a catalog name rtype info l] by simp
qed

end
