(* ===== verification/Nacos_Concurrent.thy ===== *)
theory Nacos_Concurrent
  imports Nacos_Watcher
begin

text \<open>
  The catalog of \<open>crates/doggy-dns-nacos/src/watcher.rs\<close> under concurrent queries. One watcher is shared by every
  worker of the runtime: the ledger is a concurrent set and the backoff three atomics, so a query that
  \<open>Nacos_Watcher\<close> runs in one piece is here a sequence of single accesses and SDK calls, interleaved
  with those of the other queries. The accesses are taken in program order, one at a time. The sequential functions
  are what a query does when it runs alone.
\<close>

section \<open>One query, access by access\<close>

text \<open>Where a query is. The booleans of \<open>PC_cache\<close> and \<open>PC_server\<close> are what remains on a miss or a failure: ask the
  server, read the client's cache.\<close>

datatype pc =
    PC_filter
  | PC_contains
  | PC_confirmed bool
  | PC_opened bool bool
  | PC_failures bool bool int
  | PC_client
  | PC_cache bool
  | PC_server bool
  | PC_fail_add bool
  | PC_fail_store bool
  | PC_succ_failures "service_instance list"
  | PC_succ_opened "service_instance list"
  | PC_succ_confirmed "service_instance list"
  | PC_sub_check catalog_answer
  | PC_sub_call catalog_answer
  | PC_sub_insert catalog_answer
  | PC_done catalog_answer

text \<open>The shared watcher, and three things the program does not store: the names whose subscription the SDK has
  accepted, the times of the failures counted since the counter was last reset, and of all failures counted.\<close>

record shared =
  sh_watcher :: watcher
  sh_armed :: "bytes set"
  sh_streak :: "int list"
  sh_failed :: "int set"

definition set_backoff :: "(failure_backoff \<Rightarrow> failure_backoff) \<Rightarrow> shared \<Rightarrow> shared" where
  "set_backoff f sh = sh\<lparr>sh_watcher := (sh_watcher sh)\<lparr>w_backoff := f (w_backoff (sh_watcher sh))\<rparr>\<rparr>"

definition enter :: "query_entry \<Rightarrow> pc" where
  "enter q = (case q of ClientCache \<Rightarrow> PC_client | CacheFirst \<Rightarrow> PC_cache True
     | ServerFirst \<Rightarrow> PC_server True | CacheOnly \<Rightarrow> PC_cache False)"

definition after_failure :: "bool \<Rightarrow> pc" where
  "after_failure fallback = (if fallback then PC_cache False else PC_done Unavailable)"

text \<open>One access. \<^term>\<open>None\<close> is a query that waits: the reads of the cache and of the server are awaited under a time limit and
  always give something, the subscribe is awaited until it comes back.\<close>

fun task_step :: "(bytes \<Rightarrow> bool) \<Rightarrow> nacos_env \<Rightarrow> bytes \<Rightarrow> pc \<Rightarrow> shared \<Rightarrow> (pc \<times> shared) option" where
  "task_step sel e s PC_filter sh = Some (if sel s then PC_contains else PC_done Unknown, sh)"
| "task_step sel e s PC_contains sh = Some (PC_confirmed (s \<in> w_subscribed (sh_watcher sh)), sh)"
| "task_step sel e s (PC_confirmed l) sh = Some (PC_opened l (confirmed (w_backoff (sh_watcher sh))), sh)"
| "task_step sel e s (PC_opened l c) sh = Some (PC_failures l c (opened_at (w_backoff (sh_watcher sh))), sh)"
| "task_step sel e s (PC_failures l c t) sh = Some
     (enter (entry_of l c (is_open (ne_now e) \<lparr>failures = failures (w_backoff (sh_watcher sh)), opened_at = t, confirmed = c\<rparr>)), sh)"
| "task_step sel e s PC_client sh = Some (case timeout NACOS_LOOKUP_TIMEOUT (raw_cache e) of
       Call_Ok is \<Rightarrow> (PC_done (answer_of is), sh)
     | Call_Err \<Rightarrow> (PC_done Unavailable, sh)
     | Call_Timeout \<Rightarrow> (PC_fail_add False, sh))"
| "task_step sel e s (PC_cache then_server) sh = Some (
     let miss = (if then_server then PC_server False else PC_done Unavailable) in
     case timeout NACOS_CACHE_READ_TIMEOUT (raw_cache e) of
       Call_Ok is \<Rightarrow> (case cache_hit_of is of Some a \<Rightarrow> (PC_sub_check a, sh) | None \<Rightarrow> (miss, sh))
     | _ \<Rightarrow> (miss, sh))"
| "task_step sel e s (PC_server fallback) sh = Some (case timeout NACOS_LOOKUP_TIMEOUT (raw_server e) of
       Call_Ok is \<Rightarrow> (PC_succ_failures is, sh)
     | _ \<Rightarrow> (PC_fail_add fallback, sh))"
| "task_step sel e s (PC_fail_add fallback) sh = Some (
     let sh' = set_backoff (\<lambda>b. b\<lparr>failures := failures b + 1\<rparr>) sh
         \<lparr>sh_streak := ne_now_failure e # sh_streak sh, sh_failed := insert (ne_now_failure e) (sh_failed sh)\<rparr>
     in (if failures (w_backoff (sh_watcher sh)) + 1 < NACOS_FAILURE_THRESHOLD
         then after_failure fallback else PC_fail_store fallback, sh'))"
| "task_step sel e s (PC_fail_store fallback) sh = Some
     (after_failure fallback, set_backoff (\<lambda>b. b\<lparr>opened_at := ne_now_failure e\<rparr>) sh)"
| "task_step sel e s (PC_succ_failures is) sh = Some
     (PC_succ_opened is, set_backoff (\<lambda>b. b\<lparr>failures := 0\<rparr>) sh\<lparr>sh_streak := []\<rparr>)"
| "task_step sel e s (PC_succ_opened is) sh = Some
     (PC_succ_confirmed is, set_backoff (\<lambda>b. b\<lparr>opened_at := WINDOW_CLOSED\<rparr>) sh)"
| "task_step sel e s (PC_succ_confirmed is) sh = Some
     (PC_sub_check (answer_of is), set_backoff (\<lambda>b. b\<lparr>confirmed := True\<rparr>) sh)"
| "task_step sel e s (PC_sub_check a) sh = Some
     (if s \<in> w_subscribed (sh_watcher sh) then PC_done a else PC_sub_call a, sh)"
| "task_step sel e s (PC_sub_call a) sh = (case raw_subscribe e of
       Hangs \<Rightarrow> None
     | Returns t (Some _) \<Rightarrow> Some (PC_sub_insert a, sh\<lparr>sh_armed := insert s (sh_armed sh)\<rparr>)
     | Returns t None \<Rightarrow> Some (PC_done a, sh))"
| "task_step sel e s (PC_sub_insert a) sh = Some
     (PC_done a, sh\<lparr>sh_watcher := (sh_watcher sh)\<lparr>w_subscribed := insert s (w_subscribed (sh_watcher sh))\<rparr>\<rparr>)"
| "task_step sel e s (PC_done a) sh = Some (PC_done a, sh)"

fun is_done :: "pc \<Rightarrow> bool" where
  "is_done (PC_done a) = True"
| "is_done _ = False"

text \<open>How many accesses a query has left at most.\<close>

fun rank :: "pc \<Rightarrow> nat" where
  "rank PC_filter = 13"
| "rank PC_contains = 12"
| "rank (PC_confirmed _) = 11"
| "rank (PC_opened _ _) = 10"
| "rank (PC_failures _ _ _) = 9"
| "rank PC_client = 3"
| "rank (PC_cache then_server) = (if then_server then 8 else 4)"
| "rank (PC_server _) = 7"
| "rank (PC_fail_add fallback) = (if fallback then 6 else 2)"
| "rank (PC_fail_store fallback) = (if fallback then 5 else 1)"
| "rank (PC_succ_failures _) = 6"
| "rank (PC_succ_opened _) = 5"
| "rank (PC_succ_confirmed _) = 4"
| "rank (PC_sub_check _) = 3"
| "rank (PC_sub_call _) = 2"
| "rank (PC_sub_insert _) = 1"
| "rank (PC_done _) = 0"

lemma task_step_rank: "\<not> is_done p \<Longrightarrow> task_step sel e s p sh = Some (p', sh') \<Longrightarrow> rank p' < rank p"
  by (cases p)
    (auto simp: enter_def entry_of_def after_failure_def Let_def
      split: if_splits sdk_call.splits sdk_reply.splits option.splits)

text \<open>A query is stopped at the subscribe only, and there only while the SDK does not come back.\<close>

lemma task_step_waits: "task_step sel e s p sh = None \<longleftrightarrow> (\<exists>a. p = PC_sub_call a) \<and> raw_subscribe e = Hangs"
  by (cases p) (auto split: sdk_reply.splits option.splits)

section \<open>A query that runs alone\<close>

fun answer_in :: "pc \<Rightarrow> catalog_answer" where
  "answer_in (PC_done a) = a"
| "answer_in _ = Unavailable"

text \<open>The answer and the watcher in the end; \<^term>\<open>None\<close> is a query that never ends.\<close>

function run_task :: "(bytes \<Rightarrow> bool) \<Rightarrow> nacos_env \<Rightarrow> bytes \<Rightarrow> pc \<Rightarrow> shared \<Rightarrow> (catalog_answer \<times> shared) option" where
  "run_task sel e s p sh =
     (if is_done p then Some (answer_in p, sh)
      else case task_step sel e s p sh of None \<Rightarrow> None | Some (p', sh') \<Rightarrow> run_task sel e s p' sh')"
  by pat_completeness auto
termination
  by (relation "measure (\<lambda>(sel, e, s, p, sh). rank p)") (auto dest: task_step_rank)

declare run_task.simps [simp del]

lemma run_task_done [simp]: "run_task sel e s (PC_done a) sh = Some (a, sh)"
  by (simp add: run_task.simps)

lemma run_task_step:
  "\<not> is_done p \<Longrightarrow> run_task sel e s p sh = (case task_step sel e s p sh of None \<Rightarrow> None | Some (p', sh') \<Rightarrow> run_task sel e s p' sh')"
  by (subst run_task.simps) simp

definition alone :: "(catalog_answer \<times> shared) option \<Rightarrow> (catalog_answer \<times> watcher) option" where
  "alone = map_option (map_prod id sh_watcher)"

lemma alone_pair [simp]: "alone (Some (a, sh)) = Some (a, sh_watcher sh)"
  by (simp add: alone_def)

lemma watcher_set_backoff [simp]:
  "sh_watcher (set_backoff f sh) = (sh_watcher sh)\<lparr>w_backoff := f (w_backoff (sh_watcher sh))\<rparr>"
  by (simp add: set_backoff_def)

lemma alone_subscribe:
  "raw_subscribe e \<noteq> Hangs \<Longrightarrow> alone (run_task sel e s (PC_sub_check a) sh) = Some (a, subscribe_name e s (sh_watcher sh))"
  by (auto simp: subscribe_name_def run_task_step ne_subscribe_ok_def split: sdk_reply.splits option.splits)

lemma alone_success:
  "raw_subscribe e \<noteq> Hangs \<Longrightarrow> alone (run_task sel e s (PC_succ_failures is) sh) =
     Some (answer_of is, subscribe_name e s ((sh_watcher sh)\<lparr>w_backoff := record_success (w_backoff (sh_watcher sh))\<rparr>))"
  by (simp add: run_task_step [of "PC_succ_failures _"] run_task_step [of "PC_succ_opened _"]
      run_task_step [of "PC_succ_confirmed _"] alone_subscribe record_success_def)

lemma alone_failure:
  "\<exists>sh'. sh_watcher sh' = record_remote_failure e (sh_watcher sh) \<and>
     run_task sel e s (PC_fail_add fallback) sh = run_task sel e s (after_failure fallback) sh'"
  by (cases "failures (w_backoff (sh_watcher sh)) + 1 < NACOS_FAILURE_THRESHOLD")
    (simp_all add: run_task_step [of "PC_fail_add _"] run_task_step [of "PC_fail_store _"] record_remote_failure_def
      record_failure_def Let_def, (rule exI, rule conjI [rotated], rule refl, simp)+)

lemma alone_cache:
  "raw_subscribe e \<noteq> Hangs \<Longrightarrow> alone (run_task sel e s (PC_cache then_server) sh) = (case answer_from_cache e s (sh_watcher sh) of
     (Some a, w) \<Rightarrow> Some (a, w)
   | (None, w) \<Rightarrow> if then_server then alone (run_task sel e s (PC_server False) sh) else Some (Unavailable, w))"
  by (simp add: run_task_step [of "PC_cache _"] answer_from_cache_def alone_subscribe ne_cache_short_def Let_def
      split: sdk_call.splits option.splits)

lemma alone_failed:
  "raw_subscribe e \<noteq> Hangs \<Longrightarrow> alone (run_task sel e s (PC_fail_add fallback) sh) = Some (
     if fallback then (case answer_from_cache e s (record_remote_failure e (sh_watcher sh)) of
        (Some a, w) \<Rightarrow> (a, w) | (None, w) \<Rightarrow> (Unavailable, w))
     else (Unavailable, record_remote_failure e (sh_watcher sh)))"
proof -
  assume h: "raw_subscribe e \<noteq> Hangs"
  obtain sh' where f: "sh_watcher sh' = record_remote_failure e (sh_watcher sh)"
      "run_task sel e s (PC_fail_add fallback) sh = run_task sel e s (after_failure fallback) sh'"
    using alone_failure by blast
  show ?thesis unfolding f(2) using h by (simp add: f(1) after_failure_def alone_cache split: prod.splits option.splits)
qed

lemma alone_server:
  "raw_subscribe e \<noteq> Hangs \<Longrightarrow> alone (run_task sel e s (PC_server fallback) sh) = Some (case ne_server e of
     Call_Ok is \<Rightarrow> answer_from_server e s (sh_watcher sh)
   | _ \<Rightarrow> if fallback then (case answer_from_cache e s (snd (answer_from_server e s (sh_watcher sh))) of
                (Some a, w) \<Rightarrow> (a, w) | (None, w) \<Rightarrow> (Unavailable, w))
          else answer_from_server e s (sh_watcher sh))"
  by (simp add: run_task_step [of "PC_server _"] answer_from_server_def alone_success alone_failed ne_server_def split: sdk_call.splits)

lemma alone_client:
  "raw_subscribe e \<noteq> Hangs \<Longrightarrow> alone (run_task sel e s PC_client sh) = Some (read_client_cache e s (sh_watcher sh))"
  by (simp add: run_task_step [of PC_client] read_client_cache_def alone_failed ne_cache_long_def split: sdk_call.splits)

lemma alone_entry:
  "alone (run_task sel e s PC_contains sh) = alone (run_task sel e s (enter (entry_of (s \<in> w_subscribed (sh_watcher sh))
     (ever_confirmed (w_backoff (sh_watcher sh))) (is_open (ne_now e) (w_backoff (sh_watcher sh))))) sh)"
  by (simp add: run_task_step [of PC_contains] run_task_step [of "PC_confirmed _"] run_task_step [of "PC_opened _ _"]
      run_task_step [of "PC_failures _ _ _"] ever_confirmed_def is_open_def)

lemma cache_miss_keeps: "answer_from_cache e s w = (None, w') \<Longrightarrow> w' = w"
  by (auto simp: answer_from_cache_def Let_def split: sdk_call.splits if_splits)

text \<open>A query that no other query interleaves with, and whose subscribe comes back, is the sequential catalog lookup: run access
  by access it returns the same answer and leaves the same watcher.\<close>

lemma solo_query_is_instances:
  assumes "raw_subscribe e \<noteq> Hangs"
  shows "map_option (map_prod id sh_watcher) (run_task sel e s PC_filter sh) = Some (instances sel e s (sh_watcher sh))"
proof -
  have "alone (run_task sel e s PC_filter sh) = Some (instances sel e s (sh_watcher sh))"
    by (cases "entry_of (s \<in> w_subscribed (sh_watcher sh)) (ever_confirmed (w_backoff (sh_watcher sh)))
          (is_open (ne_now e) (w_backoff (sh_watcher sh)))")
      (use assms in \<open>auto simp: run_task_step [of PC_filter] instances_def alone_entry enter_def alone_client alone_cache alone_server
        answer_from_server_def answer_of_def Let_def dest: cache_miss_keeps split: prod.splits option.splits sdk_call.splits\<close>)
  then show ?thesis by (simp add: alone_def)
qed

section \<open>Queries in parallel\<close>

type_synonym query = "nacos_env \<times> bytes"

inductive par_step :: "(bytes \<Rightarrow> bool) \<Rightarrow> query list \<Rightarrow> pc list \<times> shared \<Rightarrow> pc list \<times> shared \<Rightarrow> bool"
  for sel and qs where
  one_access: "i < length qs \<Longrightarrow> i < length pcs \<Longrightarrow> \<not> is_done (pcs ! i) \<Longrightarrow>
     task_step sel (fst (qs ! i)) (snd (qs ! i)) (pcs ! i) sh = Some (p', sh') \<Longrightarrow>
     par_step sel qs (pcs, sh) (pcs[i := p'], sh')"

inductive_cases par_stepE: "par_step sel qs (pcs, sh) c'"

text \<open>A schedule names the query of each step.\<close>

fun schedule :: "(bytes \<Rightarrow> bool) \<Rightarrow> query list \<Rightarrow> nat list \<Rightarrow> pc list \<times> shared \<Rightarrow> (pc list \<times> shared) option" where
  "schedule sel qs [] c = Some c"
| "schedule sel qs (i # is) (pcs, sh) =
     (if i < length qs \<and> i < length pcs \<and> \<not> is_done (pcs ! i) then
        (case task_step sel (fst (qs ! i)) (snd (qs ! i)) (pcs ! i) sh of
           None \<Rightarrow> None
         | Some (p, sh') \<Rightarrow> schedule sel qs is (pcs[i := p], sh'))
      else None)"

lemma schedule_Cons:
  assumes "schedule sel qs (i # is) (pcs, sh) = Some c'"
  obtains p sh' where "i < length qs" "i < length pcs" "\<not> is_done (pcs ! i)"
    "task_step sel (fst (qs ! i)) (snd (qs ! i)) (pcs ! i) sh = Some (p, sh')" "schedule sel qs is (pcs[i := p], sh') = Some c'"
  using assms by (auto split: if_splits option.splits)

lemma schedule_steps: "schedule sel qs is c = Some c' \<Longrightarrow> (par_step sel qs ^^ length is) c c'"
proof (induction "is" arbitrary: c)
  case (Cons i "is")
  obtain pcs sh where c: "c = (pcs, sh)" by force
  from Cons(2) obtain p sh' where "par_step sel qs (pcs, sh) (pcs[i := p], sh')" "schedule sel qs is (pcs[i := p], sh') = Some c'"
    unfolding c by (rule schedule_Cons) (auto intro: one_access)
  with Cons(1) [of "(pcs[i := p], sh')"] show ?case unfolding c using relpowp_Suc_I2 by fastforce
qed simp

text \<open>Every run is that of a schedule.\<close>

lemma steps_schedule: "(par_step sel qs)\<^sup>*\<^sup>* c c' \<Longrightarrow> \<exists>is. schedule sel qs is c = Some c'"
proof (induction rule: converse_rtranclp_induct)
  case base
  show ?case by (rule exI [of _ "[]"]) simp
next
  case (step c1 c2)
  obtain pcs sh where c: "c1 = (pcs, sh)" by force
  from step(1) [unfolded c] obtain i p sh' where "i < length qs" "i < length pcs" "\<not> is_done (pcs ! i)"
    "task_step sel (fst (qs ! i)) (snd (qs ! i)) (pcs ! i) sh = Some (p, sh')" "c2 = (pcs[i := p], sh')"
    by (auto elim: par_stepE)
  moreover obtain "is" where "schedule sel qs is c2 = Some c'" using step(3) by blast
  ultimately show ?case unfolding c by (intro exI [of _ "i # is"]) simp
qed

text \<open>An access of one query uses up one of its own and none of the others'.\<close>

lemma schedule_rank:
  "schedule sel qs is (pcs, sh) = Some (pcs', sh') \<Longrightarrow> length pcs' = length pcs \<and>
     (\<forall>j < length pcs. count_list is j + rank (pcs' ! j) \<le> rank (pcs ! j)) \<and> set is \<subseteq> {..<length pcs}"
proof (induction "is" arbitrary: pcs sh)
  case (Cons i "is")
  from Cons(2) obtain p sh1 where i: "i < length pcs" "\<not> is_done (pcs ! i)"
    and t: "task_step sel (fst (qs ! i)) (snd (qs ! i)) (pcs ! i) sh = Some (p, sh1)"
    and r: "schedule sel qs is (pcs[i := p], sh1) = Some (pcs', sh')"
    by (rule schedule_Cons)
  have "rank p < rank (pcs ! i)" using task_step_rank [OF i(2) t] .
  with Cons(1) [OF r] i(1) show ?case by (fastforce simp: nth_list_update)
qed simp

lemma par_step_exists:
  assumes "length pcs = length qs"
  shows "(\<exists>c. par_step sel qs (pcs, sh) c) \<longleftrightarrow>
    (\<exists>i < length qs. \<not> is_done (pcs ! i) \<and> \<not> ((\<exists>a. pcs ! i = PC_sub_call a) \<and> raw_subscribe (fst (qs ! i)) = Hangs))"
proof
  assume "\<exists>c. par_step sel qs (pcs, sh) c"
  then obtain i p' sh' where "i < length qs" "\<not> is_done (pcs ! i)"
    "task_step sel (fst (qs ! i)) (snd (qs ! i)) (pcs ! i) sh = Some (p', sh')" by (auto elim!: par_stepE)
  then show "\<exists>i < length qs. \<not> is_done (pcs ! i) \<and> \<not> ((\<exists>a. pcs ! i = PC_sub_call a) \<and> raw_subscribe (fst (qs ! i)) = Hangs)"
    using task_step_waits [of sel "fst (qs ! i)" "snd (qs ! i)" "pcs ! i" sh] by auto
next
  assume "\<exists>i < length qs. \<not> is_done (pcs ! i) \<and> \<not> ((\<exists>a. pcs ! i = PC_sub_call a) \<and> raw_subscribe (fst (qs ! i)) = Hangs)"
  then obtain i where i: "i < length qs" "\<not> is_done (pcs ! i)" "\<not> ((\<exists>a. pcs ! i = PC_sub_call a) \<and> raw_subscribe (fst (qs ! i)) = Hangs)" by blast
  then obtain p' sh' where "task_step sel (fst (qs ! i)) (snd (qs ! i)) (pcs ! i) sh = Some (p', sh')"
    using task_step_waits [of sel "fst (qs ! i)" "snd (qs ! i)" "pcs ! i" sh] by (metis not_None_eq surj_pair)
  with i assms show "\<exists>c. par_step sel qs (pcs, sh) c" using one_access by metis
qed

text \<open>The subscribe is the one place where the registry can hold a query up for good: its answer is known and it never returns.\<close>

theorem subscribe_can_block:
  "raw_subscribe e = Hangs \<Longrightarrow> \<not> (\<exists>c. par_step sel [(e, s)] ([PC_sub_call a], sh) c)"
  using par_step_exists [of "[PC_sub_call a]" "[(e, s)]" sel sh] by simp

text \<open>C18. Queries that share a watcher end, whatever the registry does and whatever the schedule: each query takes
  at most 13 accesses of its own; calls that read instances may hang, since the time limits of the code cut them
  off; and when every subscribe comes back, which is what the code relies on the SDK for, then as long as a query
  is not through, some query can move, so that every run that cannot go on has answered every query.\<close>

theorem parallel_queries_end:
  assumes "\<forall>(e, s) \<in> set qs. raw_subscribe e \<noteq> Hangs"
    and "schedule sel qs sched (replicate (length qs) PC_filter, sh) = Some (pcs, sh')"
  shows "(\<forall>i < length qs. count_list sched i \<le> 13) \<and> set sched \<subseteq> {..<length qs} \<and>
    ((\<exists>c. par_step sel qs (pcs, sh') c) \<longleftrightarrow> \<not> list_all is_done pcs)"
proof -
  have r: "length pcs = length qs" "\<forall>j < length qs. count_list sched j + rank (pcs ! j) \<le> 13" "set sched \<subseteq> {..<length qs}"
    using schedule_rank [OF assms(2)] by auto
  have "raw_subscribe (fst (qs ! i)) \<noteq> Hangs" if "i < length qs" for i
    using bspec [OF assms(1) nth_mem [OF that]] by (cases "qs ! i") simp
  then have "(\<exists>c. par_step sel qs (pcs, sh') c) \<longleftrightarrow> (\<exists>i < length qs. \<not> is_done (pcs ! i))"
    unfolding par_step_exists [OF r(1)] by auto
  with r show ?thesis by (auto simp: list_all_length intro: order_trans [OF le_add1])
qed

definition empty_registry :: nacos_env where
  "empty_registry = \<lparr>raw_cache = Hangs, raw_server = Returns 1 (Some []), raw_subscribe = Returns 1 (Some ()), ne_now = 100, ne_now_failure = 100\<rparr>"

text \<open>A registry that is gone: nothing ever comes back but the SDK's own registration of a listener.\<close>

definition dead_registry :: "int \<Rightarrow> nacos_env" where
  "dead_registry t = \<lparr>raw_cache = Hangs, raw_server = Hangs, raw_subscribe = Returns 1 (Some ()), ne_now = t, ne_now_failure = t\<rparr>"

text \<open>Four queries: three meet a dead registry, the fourth has the server's reply in hand and has not booked it.\<close>

definition four_queries :: "query list" where
  "four_queries = [(dead_registry 100, [97]), (dead_registry 101, [98]), (dead_registry 102, [97]), (empty_registry, [99])]"

definition four_schedule :: "nat list" where
  "four_schedule = replicate 7 2 @ replicate 7 3 @ replicate 8 0 @ replicate 8 1 @ replicate 2 2"

definition fresh_shared :: shared where
  "fresh_shared = \<lparr>sh_watcher = \<lparr>w_subscribed = {}, w_backoff = backoff_new\<rparr>, sh_armed = {}, sh_streak = [], sh_failed = {}\<rparr>"

definition four_end :: "pc list \<times> shared" where
  "four_end = the (schedule (\<lambda>_. True) four_queries four_schedule (replicate 4 PC_filter, fresh_shared))"

lemma four_scheduled:
  "schedule (\<lambda>_. True) four_queries four_schedule (replicate (length four_queries) PC_filter, fresh_shared) = Some (fst four_end, snd four_end)"
proof -
  have "\<not> Option.is_none (schedule (\<lambda>_. True) four_queries four_schedule (replicate 4 PC_filter, fresh_shared))" by code_simp
  then show ?thesis by (auto simp: four_end_def four_queries_def Option.is_none_def eval_nat_numeral)
qed

lemma four_run:
  "(par_step (\<lambda>_. True) four_queries)\<^sup>*\<^sup>* (replicate (length four_queries) PC_filter, fresh_shared) (fst four_end, snd four_end)"
  using relpowp_imp_rtranclp [OF schedule_steps [OF four_scheduled]] .

theorem parallel_queries_end_witness:
  "count_list four_schedule 2 \<le> 13 \<and> (\<exists>c. par_step (\<lambda>_. True) four_queries (fst four_end, snd four_end) c)"
proof -
  have "\<not> list_all is_done (fst four_end)" by code_simp
  moreover have "\<forall>(e, s) \<in> set four_queries. raw_subscribe e \<noteq> Hangs"
    by (simp add: four_queries_def dead_registry_def empty_registry_def)
  moreover have "2 < length four_queries" by (simp add: four_queries_def)
  ultimately show ?thesis using parallel_queries_end [OF _ four_scheduled] by blast
qed

section \<open>What every interleaving keeps\<close>

text \<open>The empty answers of a query: the server's own reply, or the client's cache for a ledgered name.\<close>

definition server_says_none :: "nacos_env \<Rightarrow> bool" where
  "server_says_none e = (\<exists>is. ne_server e = Call_Ok is \<and> usable_instances is = [])"

definition cache_says_none :: "nacos_env \<Rightarrow> bool" where
  "cache_says_none e = (\<exists>is. ne_cache_long e = Call_Ok is \<and> usable_instances is = [])"

text \<open>What a query knows at each point, given the ledger: the values it carries are those its calls returned, and a
  name it read as ledgered is still there.\<close>

definition carries :: "nacos_env \<Rightarrow> catalog_answer \<Rightarrow> bool" where
  "carries e a = (a \<noteq> Instances [] \<and> (a = Unknown \<longrightarrow> server_says_none e))"

fun pc_ok :: "(bytes \<Rightarrow> bool) \<Rightarrow> nacos_env \<Rightarrow> bytes \<Rightarrow> bytes set \<Rightarrow> bytes set \<Rightarrow> pc \<Rightarrow> bool" where
  "pc_ok sel e s ledger armed PC_filter = True"
| "pc_ok sel e s ledger armed (PC_done a) = (a \<noteq> Instances [] \<and>
     (a = Unknown \<longrightarrow> \<not> sel s \<or> server_says_none e \<or> s \<in> ledger \<and> cache_says_none e))"
| "pc_ok sel e s ledger armed (PC_confirmed l) = (l \<longrightarrow> s \<in> ledger)"
| "pc_ok sel e s ledger armed (PC_opened l _) = (l \<longrightarrow> s \<in> ledger)"
| "pc_ok sel e s ledger armed (PC_failures l _ _) = (l \<longrightarrow> s \<in> ledger)"
| "pc_ok sel e s ledger armed PC_client = (s \<in> ledger)"
| "pc_ok sel e s ledger armed (PC_succ_failures is) = (ne_server e = Call_Ok is)"
| "pc_ok sel e s ledger armed (PC_succ_opened is) = (ne_server e = Call_Ok is)"
| "pc_ok sel e s ledger armed (PC_succ_confirmed is) = (ne_server e = Call_Ok is)"
| "pc_ok sel e s ledger armed (PC_sub_check a) = carries e a"
| "pc_ok sel e s ledger armed (PC_sub_call a) = carries e a"
| "pc_ok sel e s ledger armed (PC_sub_insert a) = (carries e a \<and> s \<in> armed)"
| "pc_ok sel e s ledger armed _ = True"

abbreviation ledger_of :: "shared \<Rightarrow> bytes set" where
  "ledger_of sh \<equiv> w_subscribed (sh_watcher sh)"

abbreviation backoff_of :: "shared \<Rightarrow> failure_backoff" where
  "backoff_of sh \<equiv> w_backoff (sh_watcher sh)"

lemma pc_ok_mono:
  "pc_ok sel e s l a p \<Longrightarrow> l \<subseteq> l' \<Longrightarrow> a \<subseteq> a' \<Longrightarrow> pc_ok sel e s l' a' p"
  by (cases p) auto

lemma answer_of_unknown: "answer_of is = Unknown \<longleftrightarrow> usable_instances is = []"
  by (simp add: answer_of_def Let_def)

lemma cache_hit_carries: "cache_hit_of is = Some a \<Longrightarrow> carries e a"
  by (auto simp: cache_hit_of_def carries_def Let_def split: if_splits)

lemma task_step_pc_ok:
  assumes "task_step sel e s p sh = Some (p', sh')" and "pc_ok sel e s (ledger_of sh) (sh_armed sh) p"
  shows "pc_ok sel e s (ledger_of sh') (sh_armed sh') p' \<and> ledger_of sh \<subseteq> ledger_of sh' \<and> sh_armed sh \<subseteq> sh_armed sh'"
  using assms
  by (cases p)
    (auto simp: enter_def entry_of_def after_failure_def answer_of_unknown server_says_none_def cache_says_none_def
      carries_def set_backoff_def Let_def ne_server_def ne_cache_long_def dest!: cache_hit_carries [where e = e] split: if_splits sdk_call.splits sdk_reply.splits option.splits)

text \<open>The shared part: only armed names are in the ledger, the counter counts the streak, and a stamp is the time of a
  counted failure. A query about to store its stamp has counted its failure.\<close>

definition shared_ok :: "shared \<Rightarrow> bool" where
  "shared_ok sh = (ledger_of sh \<subseteq> sh_armed sh \<and> failures (backoff_of sh) = of_nat (length (sh_streak sh)) \<and>
     (opened_at (backoff_of sh) = WINDOW_CLOSED \<or> opened_at (backoff_of sh) \<in> sh_failed sh))"

definition stamp_ok :: "nacos_env \<Rightarrow> shared \<Rightarrow> pc \<Rightarrow> bool" where
  "stamp_ok e sh p = (case p of PC_fail_store _ \<Rightarrow> ne_now_failure e \<in> sh_failed sh | _ \<Rightarrow> True)"

lemma task_step_shared_ok:
  assumes "task_step sel e s p sh = Some (p', sh')" and "pc_ok sel e s (ledger_of sh) (sh_armed sh) p"
    and "shared_ok sh" and "stamp_ok e sh p"
  shows "shared_ok sh' \<and> stamp_ok e sh' p' \<and> sh_failed sh \<subseteq> sh_failed sh'"
  using assms
  by (cases p)
    (auto simp: enter_def entry_of_def after_failure_def shared_ok_def stamp_ok_def set_backoff_def Let_def
      split: if_splits sdk_call.splits sdk_reply.splits option.splits)

definition par_inv :: "(bytes \<Rightarrow> bool) \<Rightarrow> query list \<Rightarrow> pc list \<times> shared \<Rightarrow> bool" where
  "par_inv sel qs = (\<lambda>(pcs, sh). shared_ok sh \<and> length pcs = length qs \<and>
     (\<forall>i < length qs. pc_ok sel (fst (qs ! i)) (snd (qs ! i)) (ledger_of sh) (sh_armed sh) (pcs ! i) \<and>
        stamp_ok (fst (qs ! i)) sh (pcs ! i)))"

lemma stamp_ok_mono: "stamp_ok e sh p \<Longrightarrow> sh_failed sh \<subseteq> sh_failed sh' \<Longrightarrow> stamp_ok e sh' p"
  by (auto simp: stamp_ok_def split: pc.splits)

lemma par_inv_step: "par_inv sel qs c \<Longrightarrow> par_step sel qs c c' \<Longrightarrow> par_inv sel qs c'"
proof (cases c; cases c')
  fix pcs sh pcs' sh'
  assume c: "c = (pcs, sh)" "c' = (pcs', sh')" and inv: "par_inv sel qs c" and st: "par_step sel qs c c'"
  from st [unfolded c] obtain i p' where i: "i < length qs" "i < length pcs"
    and t: "task_step sel (fst (qs ! i)) (snd (qs ! i)) (pcs ! i) sh = Some (p', sh')" and u: "pcs' = pcs[i := p']"
    by (auto elim: par_stepE)
  have all: "pc_ok sel (fst (qs ! j)) (snd (qs ! j)) (ledger_of sh) (sh_armed sh) (pcs ! j)"
    "stamp_ok (fst (qs ! j)) sh (pcs ! j)" if "j < length qs" for j
    using inv that by (simp_all add: par_inv_def c)
  note p = task_step_pc_ok [OF t all(1) [OF i(1)]]
  have s: "shared_ok sh' \<and> stamp_ok (fst (qs ! i)) sh' p' \<and> sh_failed sh \<subseteq> sh_failed sh'"
    using task_step_shared_ok [OF t all(1) [OF i(1)] _ all(2) [OF i(1)]] inv by (simp add: par_inv_def c)
  have "pc_ok sel (fst (qs ! j)) (snd (qs ! j)) (ledger_of sh') (sh_armed sh') (pcs' ! j) \<and> stamp_ok (fst (qs ! j)) sh' (pcs' ! j)"
    if "j < length qs" for j
    using p s that all [OF that] i u by (cases "j = i") (auto intro: pc_ok_mono stamp_ok_mono)
  with s inv u show ?thesis by (simp add: par_inv_def c)
qed

lemma at_least_three: "3 \<le> (of_nat n :: u32) \<Longrightarrow> 3 \<le> n"
proof (rule ccontr)
  assume "3 \<le> (of_nat n :: u32)" and "\<not> 3 \<le> n"
  moreover from this have "n = 0 \<or> n = 1 \<or> n = 2" by linarith
  ultimately show False by (auto simp: word_le_nat_alt)
qed

lemma par_inv_start: "par_inv sel qs (replicate (length qs) PC_filter, fresh_shared)"
  by (auto simp: par_inv_def shared_ok_def fresh_shared_def backoff_new_def stamp_ok_def)

text \<open>C19. Whatever the interleaving of the first queries of a process: a name is in the ledger only after the SDK
  accepted its subscription; the answer Unknown means that the name is not selected, that the server replied to this very
  query with no usable instance, or that the name is ledgered and the client's cache holds none; and while the
  backoff window is open, at least three failures were counted since the counter was last reset and the window's start is
  the time of a counted failure.\<close>

theorem parallel_queries_safe:
  assumes "(par_step sel qs)\<^sup>*\<^sup>* (replicate (length qs) PC_filter, fresh_shared) (pcs, sh)"
  shows "w_subscribed (sh_watcher sh) \<subseteq> sh_armed sh \<and>
    (\<forall>i < length qs. pcs ! i = PC_done Unknown \<longrightarrow> (case qs ! i of (e, s) \<Rightarrow>
       \<not> sel s \<or> server_says_none e \<or> s \<in> w_subscribed (sh_watcher sh) \<and> cache_says_none e)) \<and>
    (is_open now (w_backoff (sh_watcher sh)) \<longrightarrow>
       3 \<le> length (sh_streak sh) \<and> opened_at (w_backoff (sh_watcher sh)) \<in> sh_failed sh)"
proof -
  have "par_inv sel qs (pcs, sh)"
    using assms by (induction rule: rtranclp_induct) (auto intro: par_inv_start par_inv_step)
  then have sh: "shared_ok sh" and q: "\<And>i. i < length qs \<Longrightarrow> pc_ok sel (fst (qs ! i)) (snd (qs ! i)) (ledger_of sh) (sh_armed sh) (pcs ! i)"
    by (simp_all add: par_inv_def)
  from sh have "3 \<le> length (sh_streak sh) \<and> opened_at (w_backoff (sh_watcher sh)) \<in> sh_failed sh"
    if "is_open now (w_backoff (sh_watcher sh))"
    using that by (auto simp: is_open_def shared_ok_def NACOS_FAILURE_THRESHOLD_def not_less at_least_three split: if_splits)
  moreover have "\<not> sel s \<or> server_says_none e \<or> s \<in> ledger_of sh \<and> cache_says_none e"
    if "i < length qs" "pcs ! i = PC_done Unknown" "qs ! i = (e, s)" for i e s
    using q [OF that(1)] that by simp
  ultimately show ?thesis using sh by (auto simp: shared_ok_def split: prod.splits)
qed

theorem parallel_queries_safe_witness:
  "is_open 102 (w_backoff (sh_watcher (snd four_end))) \<and> 3 \<le> length (sh_streak (snd four_end)) \<and>
   opened_at (w_backoff (sh_watcher (snd four_end))) \<in> sh_failed (snd four_end)"
proof -
  have "is_open 102 (w_backoff (sh_watcher (snd four_end)))" by code_simp
  with parallel_queries_safe [OF four_run, of 102] show ?thesis by simp
qed

end
