(* ===== verification/Nacos_Client.thy ===== *)
theory Nacos_Client
  imports Nacos_Concurrent Rust_Str
begin

text \<open>
  The edge of the Nacos crate towards its SDK: the clock (\<open>doggy-dns-basic/src/time.rs\<close>), the service filter, the client's
  properties and the two shapes of \<open>get_all_instances\<close> (\<open>watcher.rs\<close>), the zone handler's \<open>search\<close> (\<open>authority.rs\<close>), and
  the configuration watcher (\<open>config_watcher.rs\<close>). The SDK and the regular expressions are arguments. The calls one query
  makes, with the time each may take, follow the accesses of \<open>Nacos_Concurrent\<close>.
\<close>

section \<open>The clock\<close>

text \<open>The system time in nanoseconds from the epoch; \<open>as i64\<close> keeps the low 64 bits.\<close>

definition unix_now_secs :: "int \<Rightarrow> int" where
  "unix_now_secs t = (if t < 0 then 0 else sint (word_of_int (t div 1000000000) :: u64))"

lemma sint_small: "0 \<le> x \<Longrightarrow> x < 2 ^ 63 \<Longrightarrow> sint (word_of_int x :: u64) = x"
  by (simp add: sint_uint uint_word_of_int signed_take_bit_int_eq_self)

lemma unix_now_secs_time: "t div 1000000000 < 2 ^ 63 \<Longrightarrow> i64_time (unix_now_secs t)"
  using sint_small [of "t div 1000000000"]
  by (cases "t < 0") (simp_all add: unix_now_secs_def i64_time_def pos_imp_zdiv_nonneg_iff del: of_int_div)

section \<open>The service filter\<close>

definition DEFAULT_SERVICE_PATTERN :: string where
  "DEFAULT_SERVICE_PATTERN = ''[A-Za-z0-9_-]+''"

text \<open>\<open>compile\<close> is \<open>Regex::new\<close>, \<open>is_match\<close> its search.\<close>

record 'r service_filter =
  sf_pattern :: 'r

definition service_filter_from_config :: "(string \<Rightarrow> 'r option) \<Rightarrow> string option \<Rightarrow> (string, 'r service_filter) result" where
  "service_filter_from_config compile pattern = (
     let configured = (case pattern of Some p \<Rightarrow> p | None \<Rightarrow> DEFAULT_SERVICE_PATTERN)
     in case compile (''^(?:'' @ configured @ '')$'') of
          None \<Rightarrow> Inl configured
        | Some r \<Rightarrow> Inr \<lparr>sf_pattern = r\<rparr>)"

definition is_selected :: "('r \<Rightarrow> bytes \<Rightarrow> bool) \<Rightarrow> 'r service_filter \<Rightarrow> bytes \<Rightarrow> bool" where
  "is_selected is_match flt service = is_match (sf_pattern flt) service"

section \<open>The client\<close>

text \<open>An option that is \<^term>\<open>None\<close> keeps the SDK's default.\<close>

record client_props =
  cp_server_addr :: string
  cp_namespace :: string
  cp_app_name :: string
  cp_push_empty_protection :: "bool option"
  cp_load_cache_at_start :: "bool option"

definition base_props :: "string \<Rightarrow> string \<Rightarrow> client_props" where
  "base_props server_addr namespace = \<lparr>cp_server_addr = server_addr, cp_namespace = namespace, cp_app_name = ''doggy-dns'',
     cp_push_empty_protection = None, cp_load_cache_at_start = None\<rparr>"

record ('c, 'r) nacos_service_watcher =
  nw_client :: 'c
  nw_group :: bytes
  nw_filter :: "'r service_filter"
  nw_state :: watcher

definition nacos_service_watcher_new ::
  "(client_props \<Rightarrow> 'c option) \<Rightarrow> string \<Rightarrow> string \<Rightarrow> bytes \<Rightarrow> 'r service_filter \<Rightarrow> ('c, 'r) nacos_service_watcher option" where
  "nacos_service_watcher_new build server_addr namespace grp flt = (
     let props = (base_props server_addr namespace)\<lparr>cp_push_empty_protection := Some False, cp_load_cache_at_start := Some True\<rparr>
     in case build props of
          None \<Rightarrow> None
        | Some client \<Rightarrow> Some \<lparr>nw_client = client, nw_group = grp, nw_filter = flt,
            nw_state = \<lparr>w_subscribed = {}, w_backoff = backoff_new\<rparr>\<rparr>)"

definition subscribed_count :: "('c, 'r) nacos_service_watcher \<Rightarrow> nat" where
  "subscribed_count nw = card (w_subscribed (nw_state nw))"

text \<open>The listener of every subscription.\<close>

definition noop_listener_event :: "'e \<Rightarrow> unit" where
  "noop_listener_event ev = ()"

section \<open>The calls of a query\<close>

datatype sdk_request =
    Get_all_instances bytes bytes bool
  | Subscribe bytes bytes

definition confirm_with_server :: "bytes \<Rightarrow> bytes \<Rightarrow> sdk_request" where
  "confirm_with_server grp service = Get_all_instances service grp False"

definition fetch_cache :: "bytes \<Rightarrow> bytes \<Rightarrow> sdk_request" where
  "fetch_cache grp service = Get_all_instances service grp True"

text \<open>The call a query makes at each point, with its bound in milliseconds; \<^term>\<open>None\<close> is a call without one.\<close>

fun pc_calls :: "bytes \<Rightarrow> bytes \<Rightarrow> pc \<Rightarrow> (sdk_request \<times> nat option) list" where
  "pc_calls grp s PC_client = [(fetch_cache grp s, Some NACOS_LOOKUP_TIMEOUT)]"
| "pc_calls grp s (PC_cache _) = [(fetch_cache grp s, Some NACOS_CACHE_READ_TIMEOUT)]"
| "pc_calls grp s (PC_server _) = [(confirm_with_server grp s, Some NACOS_LOOKUP_TIMEOUT)]"
| "pc_calls grp s (PC_sub_call _) = [(Subscribe s grp, None)]"
| "pc_calls grp s _ = []"

function query_calls ::
  "(bytes \<Rightarrow> bool) \<Rightarrow> nacos_env \<Rightarrow> bytes \<Rightarrow> bytes \<Rightarrow> pc \<Rightarrow> shared \<Rightarrow> (sdk_request \<times> nat option) list" where
  "query_calls sel e grp s p sh =
     (if is_done p then []
      else pc_calls grp s p @ (case task_step sel e s p sh of None \<Rightarrow> [] | Some (p', sh') \<Rightarrow> query_calls sel e grp s p' sh'))"
  by pat_completeness auto
termination
  by (relation "measure (\<lambda>(sel, e, grp, s, p, sh). rank p)") (auto dest: task_step_rank)

declare query_calls.simps [simp del]

lemma query_calls_done [simp]: "query_calls sel e grp s (PC_done a) sh = []"
  by (simp add: query_calls.simps)















section \<open>The zone handler's other entry points\<close>

text \<open>\<open>search\<close>: a request without a usable question is skipped; no TSIG context is ever returned.\<close>

definition nacos_search ::
  "nacos_authority \<Rightarrow> (bytes \<Rightarrow> catalog_answer) \<Rightarrow> (dns_name \<times> record_type \<times> 'i) option \<Rightarrow> control_flow \<times> unit option" where
  "nacos_search a catalog info = (case info of
       None \<Rightarrow> (CF_Skip, None)
     | Some (name, rtype, i) \<Rightarrow> (nacos_lookup a catalog name rtype (Some i), None))"

definition nacos_nsec_records :: "nacos_authority \<Rightarrow> dns_name \<Rightarrow> control_flow" where
  "nacos_nsec_records a name = CF_Skip"

lemma nacos_search_is_authority_search:
  "fst (nacos_search a catalog info) = authority_search (nacos_zone_handler a catalog) info"
  by (simp add: nacos_search_def authority_search_def nacos_zone_handler_def split: option.splits prod.splits)

section \<open>The configuration watcher\<close>

record 'c config_watcher =
  cw_service :: 'c
  cw_data_id :: string
  cw_group :: string

record config_response =
  cr_data_id :: string
  cr_content :: string

definition config_watcher_new ::
  "(client_props \<Rightarrow> 'c option) \<Rightarrow> string \<Rightarrow> string \<Rightarrow> string \<Rightarrow> string \<Rightarrow> 'c config_watcher option" where
  "config_watcher_new build server_addr namespace grp data_id = (case build (base_props server_addr namespace) of
       None \<Rightarrow> None
     | Some client \<Rightarrow> Some \<lparr>cw_service = client, cw_data_id = data_id, cw_group = grp\<rparr>)"

text \<open>\<open>ConfigReloadListener::notify\<close>: what the callback is called with, and the identifier that is logged.\<close>

definition config_notify :: "config_response \<Rightarrow> string \<times> string" where
  "config_notify resp = (cr_content resp, cr_data_id resp)"

text \<open>\<open>add_listener\<close> registers the listener under the identifier and the group, or fails.\<close>

definition start_watching ::
  "('c \<Rightarrow> string \<Rightarrow> string \<Rightarrow> (config_response \<Rightarrow> string \<times> string) \<Rightarrow> 'c option) \<Rightarrow> 'c config_watcher \<Rightarrow> 'c config_watcher option" where
  "start_watching add_listener cw = (case add_listener (cw_service cw) (cw_data_id cw) (cw_group cw) config_notify of
       None \<Rightarrow> None
     | Some c \<Rightarrow> Some (cw\<lparr>cw_service := c\<rparr>))"

definition get_current_config ::
  "('c \<Rightarrow> string \<Rightarrow> string \<Rightarrow> config_response option) \<Rightarrow> 'c config_watcher \<Rightarrow> string option" where
  "get_current_config get_config cw = map_option cr_content (get_config (cw_service cw) (cw_data_id cw) (cw_group cw))"

end
