(* ===== verification/Nacos_Zone.thy ===== *)
theory Nacos_Zone
  imports Nacos_Client
begin

text \<open>
  The zone authority on top of a catalog (\<open>trait ServiceCatalog\<close> of \<open>crates/doggy-dns-nacos/src/authority.rs\<close>). The trait is
  the locale: one operation, and the law the authority's answers rest on. The watcher provides it, in every state and
  whatever the registry does.
\<close>

section \<open>The interface\<close>

text \<open>The catalog's answer depends on its own state \<open>st\<close>; it never hands out a list without an instance.\<close>

locale service_catalog =
  fixes lookup_service :: "'st \<Rightarrow> bytes \<Rightarrow> catalog_answer"
  assumes never_empty: "lookup_service st service \<noteq> Instances []"
begin

lemma instances_some: "lookup_service st service = Instances is \<Longrightarrow> is \<noteq> []"
  using never_empty by blast

end

text \<open>The addresses a record type asks for.\<close>

definition family_match :: "record_type \<Rightarrow> ip_addr \<Rightarrow> bool" where
  "family_match rtype ip = (case ip of IpV4 _ \<Rightarrow> rtype = RT_A | IpV6 _ \<Rightarrow> rtype = RT_AAAA)"

lemma to_dns_records_empty:
  "to_dns_records name is ttl rtype = [] \<longleftrightarrow> (\<forall>i \<in> set is. \<not> family_match rtype (ci_ip i))"
proof (induction "is")
  case (Cons i "is")
  then show ?case
    by (cases "ci_ip i"; cases rtype) (auto simp: to_dns_records_def map_filter_simps family_match_def)
qed (simp add: to_dns_records_def map_filter_simps)

lemma nacos_answer_cases:
  "nacos_answer a name is rtype = (if \<exists>i \<in> set is. family_match rtype (ci_ip i)
     then CF_Continue (Inr (Section (to_dns_records name is (na_ttl a) rtype))) else CF_Continue (Inl NameExists))"
  using to_dns_records_empty [of name "is" "na_ttl a" rtype]
  by (auto simp: nacos_answer_def Let_def family_match_def split: ip_addr.splits)

text \<open>Where a name stands in the zone, and the service it names.\<close>

datatype zone_place = Outside | Apex | Nameless | Service bytes

definition place_of :: "nacos_authority \<Rightarrow> dns_name \<Rightarrow> zone_place" where
  "place_of a name =
     (if \<not> zone_of (na_origin a) name then Outside
      else if length name = length (na_origin a) then Apex
      else case service_name_from_name name (na_origin a) (na_group a) (na_namespace a) of None \<Rightarrow> Nameless | Some s \<Rightarrow> Service s)"

lemma nacos_lookup_place:
  "nacos_lookup a catalog name rtype info = (case place_of a name of
       Outside \<Rightarrow> CF_Skip
     | Apex \<Rightarrow> if rtype = RT_SOA then CF_Continue (Inr (Section [na_apex_soa a])) else CF_Continue (Inl NameExists)
     | Nameless \<Rightarrow> nacos_nxdomain
     | Service s \<Rightarrow> (case catalog s of Instances is \<Rightarrow> nacos_answer a name is rtype | Unknown \<Rightarrow> nacos_nxdomain
                     | Unavailable \<Rightarrow> nacos_servfail))"
  by (simp add: nacos_lookup_def place_of_def split: option.splits)

context service_catalog
begin

text \<open>No data means that the service is there with the other family, never that the catalog had nothing to say.\<close>

lemma nodata_iff:
  "nacos_lookup a (lookup_service st) name rtype info = CF_Continue (Inl NameExists) \<longleftrightarrow>
     place_of a name = Apex \<and> rtype \<noteq> RT_SOA \<or>
     (\<exists>s is. place_of a name = Service s \<and> lookup_service st s = Instances is \<and> is \<noteq> [] \<and>
        (\<forall>i \<in> set is. \<not> family_match rtype (ci_ip i)))"
proof (cases "place_of a name")
  case (Service s)
  then show ?thesis
    using never_empty [of st s]
    by (cases "lookup_service st s")
      (auto simp: nacos_lookup_place nacos_answer_cases nacos_nxdomain_def nacos_servfail_def)
qed (simp_all add: nacos_lookup_place nacos_nxdomain_def)

end

section \<open>The watcher is a catalog\<close>

text \<open>The state of the catalog at a query: the service filter, what the registry does during it, and the watcher.\<close>

definition watcher_lookup :: "(bytes \<Rightarrow> bool) \<times> nacos_env \<times> watcher \<Rightarrow> bytes \<Rightarrow> catalog_answer" where
  "watcher_lookup = (\<lambda>(sel, e, w) service. fst (instances sel e service w))"

interpretation watcher_catalog: service_catalog watcher_lookup
  by unfold_locales (simp add: watcher_lookup_def instances_grows [OF prod.collapse [symmetric]] split: prod.split)

section \<open>What the zone says of the registry\<close>

lemma timeout_ok: "timeout ms r = Call_Ok x \<longleftrightarrow> (\<exists>t. r = Returns t (Some x) \<and> t < ms)"
  by (auto simp: timeout_def split: sdk_reply.splits option.splits)

text \<open>A reply with a list, in time for the longest wait of the code.\<close>

definition replies :: "service_instance list sdk_reply \<Rightarrow> service_instance list \<Rightarrow> bool" where
  "replies r is = (\<exists>t < 3000. r = Returns t (Some is))"

lemma calls_reply:
  "ne_server e = Call_Ok is \<longleftrightarrow> replies (raw_server e) is" "ne_cache_long e = Call_Ok is \<longleftrightarrow> replies (raw_cache e) is"
  "ne_cache_short e = Call_Ok is \<Longrightarrow> replies (raw_cache e) is"
  by (auto simp: ne_server_def ne_cache_long_def ne_cache_short_def timeout_ok replies_def NACOS_LOOKUP_TIMEOUT_def NACOS_CACHE_READ_TIMEOUT_def)

text \<open>The instances of an answer are the usable ones of a reply to this query.\<close>

lemma instances_from_reply:
  assumes "fst (instances sel e s w) = Instances js"
  shows "\<exists>is. js = usable_instances is \<and> (replies (raw_server e) is \<or> replies (raw_cache e) is)"
proof -
  have s: "\<exists>is. js = usable_instances is \<and> replies (raw_server e) is" if "answer_from_server e s w1 = (Instances js, w2)" for w1 w2
    using that by (auto simp: answer_from_server_def answer_of_def calls_reply Let_def split: sdk_call.splits if_splits)
  have c: "\<exists>is. js = usable_instances is \<and> replies (raw_cache e) is" if "answer_from_cache e s w1 = (Some (Instances js), w2)" for w1 w2
    using that by (auto simp: answer_from_cache_def cache_hit_of_def Let_def dest!: calls_reply(3) split: sdk_call.splits if_splits)
  have r: "\<exists>is. js = usable_instances is \<and> replies (raw_cache e) is" if "read_client_cache e s w = (Instances js, w2)" for w2
    using that by (auto simp: read_client_cache_def answer_of_def calls_reply Let_def split: sdk_call.splits if_splits)
  obtain w' where "instances sel e s w = (Instances js, w')" using assms by (metis prod.collapse)
  then show ?thesis
    by (auto simp: instances_def split: if_splits query_entry.splits prod.splits option.splits catalog_answer.splits dest: s c r)
qed

lemma silent_registry:
  assumes "sel s" and "\<And>is. \<not> replies (raw_server e) is" and "\<And>is. \<not> replies (raw_cache e) is"
  shows "fst (instances sel e s w) = Unavailable"
proof -
  have n: "ne_server e \<noteq> Call_Ok is" "ne_cache_long e \<noteq> Call_Ok is" "ne_cache_short e \<noteq> Call_Ok is" for "is"
    using assms(2,3) calls_reply(1,2) calls_reply(3) by blast+
  have "answer_from_server e s w1 = (Unavailable, record_remote_failure e w1)" "answer_from_cache e s w1 = (None, w1)"
    "fst (read_client_cache e s w1) = Unavailable" for w1
    using n by (auto simp: answer_from_server_def answer_from_cache_def read_client_cache_def split: sdk_call.splits)
  with assms(1) show ?thesis by (simp add: instances_def split: query_entry.split)
qed

lemma server_first:
  assumes "sel s" and "s \<notin> w_subscribed w" and "ever_confirmed (w_backoff w)" and "\<not> is_open (ne_now e) (w_backoff w)"
    and "replies (raw_server e) is" and "usable_instances is \<noteq> []"
  shows "fst (instances sel e s w) = Instances (usable_instances is)"
  using assms by (simp add: instances_def entry_of_def answer_from_server_def answer_of_def calls_reply(1) [symmetric] Let_def)

lemma usable_iff:
  "c \<in> set (usable_instances is) \<longleftrightarrow> (\<exists>i \<in> set is. si_healthy i \<and> si_enabled i \<and> from_service_instance i = Some c)"
  by (force simp: usable_instances_def map_filter_def)

text \<open>The address an instance has, as far as a record of the asked type can carry it.\<close>

definition instance_data :: "record_type \<Rightarrow> service_instance \<Rightarrow> rdata option" where
  "instance_data rtype i = (case parse_ip_addr (si_ip i) of
       Some (IpV4 x) \<Rightarrow> if rtype = RT_A then Some (RD_A x) else None
     | Some (IpV6 x) \<Rightarrow> if rtype = RT_AAAA then Some (RD_AAAA x) else None
     | None \<Rightarrow> None)"

lemma record_of_usable:
  "r \<in> set (to_dns_records name (usable_instances is) ttl rtype) \<longleftrightarrow>
     rr_name r = name \<and> rr_ttl r = ttl \<and>
     (\<exists>i \<in> set is. si_healthy i \<and> si_enabled i \<and> instance_data rtype i = Some (rr_data r))"
proof -
  let ?has = "\<lambda>c. case ci_ip c of IpV4 x \<Rightarrow> rtype = RT_A \<and> rr_data r = RD_A x | IpV6 x \<Rightarrow> rtype = RT_AAAA \<and> rr_data r = RD_AAAA x"
  have "r \<in> set (to_dns_records name cs ttl rtype) \<longleftrightarrow> rr_name r = name \<and> rr_ttl r = ttl \<and> (\<exists>c \<in> set cs. ?has c)" for cs
    by (induction cs) (auto simp: to_dns_records_def map_filter_simps split: ip_addr.splits record_type.splits)
  moreover have "(\<exists>c. from_service_instance i = Some c \<and> ?has c) \<longleftrightarrow> instance_data rtype i = Some (rr_data r)" for i
    by (cases "parse_ip_addr (si_ip i)") (auto simp: instance_data_def from_service_instance_def split: ip_addr.splits)
  then have "(\<exists>c \<in> set (usable_instances is). ?has c) \<longleftrightarrow>
      (\<exists>i \<in> set is. si_healthy i \<and> si_enabled i \<and> instance_data rtype i = Some (rr_data r))"
    using usable_iff [of _ "is"] by blast
  ultimately show ?thesis by simp
qed

text \<open>C20. What the zone answers for a name that maps to a selected service, whatever the registry does. If neither the server
  nor the client gives a list in time, the answer is SERVFAIL, never a negative one. A name that is not
  subscribed is NXDOMAIN only if the server itself replied to this query, with a list that has no usable instance, and no
  backoff window was open. Every record of a positive answer has the queried name, the zone's TTL and the address, of the asked family,
  of a healthy and enabled instance in a reply to this query. And when the server is asked first and replies in
  time, every such instance of its list has its record in the answer.\<close>

theorem zone_answers:
  assumes "place_of a name = Service s" and "sel s"
  shows "let r = nacos_lookup a (watcher_lookup (sel, e, w)) name rtype info in
    ((\<forall>is. \<not> replies (raw_server e) is \<and> \<not> replies (raw_cache e) is) \<longrightarrow> r = CF_Continue (Inl (LookupResponseCode ServFail))) \<and>
    (r = CF_Continue (Inl (LookupResponseCode NXDomain)) \<and> s \<notin> w_subscribed w \<longrightarrow>
       (\<exists>is. replies (raw_server e) is \<and> usable_instances is = []) \<and> \<not> is_open (ne_now e) (w_backoff w)) \<and>
    (\<forall>l x. r = CF_Continue (Inr l) \<and> x \<in> set (lookup_records l) \<longrightarrow> rr_name x = name \<and> rr_ttl x = na_ttl a \<and>
       (\<exists>is. (replies (raw_server e) is \<or> replies (raw_cache e) is) \<and>
          (\<exists>i \<in> set is. si_healthy i \<and> si_enabled i \<and> instance_data rtype i = Some (rr_data x)))) \<and>
    (\<forall>is i d. s \<notin> w_subscribed w \<and> ever_confirmed (w_backoff w) \<and> \<not> is_open (ne_now e) (w_backoff w) \<and>
       replies (raw_server e) is \<and> i \<in> set is \<and> si_healthy i \<and> si_enabled i \<and> instance_data rtype i = Some d \<longrightarrow>
       (\<exists>l. r = CF_Continue (Inr l) \<and> \<lparr>rr_name = name, rr_ttl = na_ttl a, rr_data = d\<rparr> \<in> set (lookup_records l)))"
proof -
  let ?r = "nacos_lookup a (watcher_lookup (sel, e, w)) name rtype info" and ?k = "fst (instances sel e s w)"
  have r: "?r = (case ?k of Instances js \<Rightarrow> nacos_answer a name js rtype
      | Unknown \<Rightarrow> CF_Continue (Inl (LookupResponseCode NXDomain)) | Unavailable \<Rightarrow> CF_Continue (Inl (LookupResponseCode ServFail)))"
    by (simp add: nacos_lookup_place assms(1) watcher_lookup_def nacos_nxdomain_def nacos_servfail_def split: catalog_answer.split)
  have "?r = CF_Continue (Inl (LookupResponseCode ServFail))" if "\<forall>is. \<not> replies (raw_server e) is \<and> \<not> replies (raw_cache e) is"
    using silent_registry [where sel = sel, OF assms(2)] that by (simp add: r)
  moreover have "(\<exists>is. replies (raw_server e) is \<and> usable_instances is = []) \<and> \<not> is_open (ne_now e) (w_backoff w)"
    if "?r = CF_Continue (Inl (LookupResponseCode NXDomain))" "s \<notin> w_subscribed w"
  proof -
    have "?k = Unknown" using that(1) by (auto simp: r nacos_answer_cases split: catalog_answer.splits if_splits)
    then obtain w' where "instances sel e s w = (Unknown, w')" by (metis prod.collapse)
    from asked_server_unknown [OF assms(2) that(2) this] show ?thesis by (auto simp: calls_reply)
  qed
  moreover have "rr_name x = name \<and> rr_ttl x = na_ttl a \<and> (\<exists>is. (replies (raw_server e) is \<or> replies (raw_cache e) is) \<and>
      (\<exists>i \<in> set is. si_healthy i \<and> si_enabled i \<and> instance_data rtype i = Some (rr_data x)))"
    if h: "?r = CF_Continue (Inr l)" "x \<in> set (lookup_records l)" for l x
  proof -
    obtain js where k: "?k = Instances js" and "x \<in> set (to_dns_records name js (na_ttl a) rtype)"
      using h by (auto simp: r nacos_answer_cases lookup_records_def split: catalog_answer.splits if_splits)
    with instances_from_reply [OF k] show ?thesis by (auto simp: record_of_usable)
  qed
  moreover have "\<exists>l. ?r = CF_Continue (Inr l) \<and> \<lparr>rr_name = name, rr_ttl = na_ttl a, rr_data = d\<rparr> \<in> set (lookup_records l)"
    if "s \<notin> w_subscribed w" "ever_confirmed (w_backoff w)" "\<not> is_open (ne_now e) (w_backoff w)" "replies (raw_server e) is"
      "i \<in> set is" "si_healthy i" "si_enabled i" "instance_data rtype i = Some d" for "is" i d
  proof -
    let ?recs = "to_dns_records name (usable_instances is) (na_ttl a) rtype"
    have x: "\<lparr>rr_name = name, rr_ttl = na_ttl a, rr_data = d\<rparr> \<in> set ?recs" using that by (auto simp: record_of_usable)
    then have "usable_instances is \<noteq> []" by (auto simp: to_dns_records_def map_filter_simps)
    from server_first [where sel = sel, OF assms(2) that(1-4) this] x have "?r = CF_Continue (Inr (Section ?recs))"
      using that(8) by (auto simp: r nacos_answer_def Let_def instance_data_def split: option.splits ip_addr.splits if_splits)
    with x show ?thesis by (simp add: lookup_records_def)
  qed
  ultimately show ?thesis unfolding Let_def by blast
qed

theorem zone_answers_witness:
  "let a = nacos_authority_new (\<lambda>_. Some [[122]]) (\<lambda>_. []) ''z'' [103] [110] 60; n = [[97], [103], [110], [122]];
     w = sh_watcher fresh_shared in
   nacos_lookup a (watcher_lookup (\<lambda>_. True, dead_registry 5, w)) n RT_A (None :: unit option) =
     CF_Continue (Inl (LookupResponseCode ServFail))"
proof -
  let ?a = "nacos_authority_new (\<lambda>_. Some [[122]]) (\<lambda>_. []) ''z'' [103] [110] 60" and ?n = "[[97], [103], [110], [122 :: u8]]"
  have p: "place_of ?a ?n = Service [97]" by code_simp
  have "\<not> replies (raw_server (dead_registry 5)) is \<and> \<not> replies (raw_cache (dead_registry 5)) is" for "is"
    by (simp add: dead_registry_def replies_def)
  with zone_answers [OF p, of "\<lambda>_. True" "dead_registry 5" "sh_watcher fresh_shared" RT_A "None :: unit option"] show ?thesis
    by (simp add: Let_def)
qed

end
