(* ===== verification/Zone_Routing.thy ===== *)
theory Zone_Routing
  imports Request_Middlewares Nacos_Zone
begin

text \<open>
  Which backend a query reaches: the chain that \<open>build_authority_chain\<close> of \<open>src/main.rs\<close> assembles from the plugin section,
  with the Nacos authorities of \<open>doggy-dns-nacos\<close> in it, under the request handler. A name of a Nacos zone is
  answered by the server itself and never handed to the resolvers behind it. The zones of a validated configuration are
  different names of the DNS.
\<close>

section \<open>The authorities of the plugin section\<close>

definition plugin_zone :: "plugin_config \<Rightarrow> string" where
  "plugin_zone p = or_else (pl_dns_zone p) ''nacos.local''"

definition plugin_authority ::
  "(string \<Rightarrow> dns_name option) \<Rightarrow> (dns_name \<Rightarrow> string) \<Rightarrow> plugin_config \<Rightarrow> nacos_authority" where
  "plugin_authority from_ascii show_name p = nacos_authority_new from_ascii show_name (plugin_zone p)
     (str_bytes (or_else (pl_group p) ''DEFAULT_GROUP'')) (str_bytes (or_else (pl_namespace p) ''public'')) (pl_ttl p)"

text \<open>\<open>NacosAuthority::new\<close> as the binary calls it; \<open>catalogs\<close> is what each watcher answers.\<close>

definition make_nacos ::
  "(string \<Rightarrow> dns_name option) \<Rightarrow> (dns_name \<Rightarrow> string) \<Rightarrow> (nat \<Rightarrow> bytes \<Rightarrow> catalog_answer) \<Rightarrow> 'i nacos_maker" where
  "make_nacos from_ascii show_name catalogs = (\<lambda>w zone grp ns ttl.
     nacos_zone_handler (nacos_authority_new from_ascii show_name zone (str_bytes grp) (str_bytes ns) ttl) (catalogs w))"

definition holds_name :: "(string \<Rightarrow> dns_name option) \<Rightarrow> (dns_name \<Rightarrow> string) \<Rightarrow> dns_name \<Rightarrow> plugin_config \<Rightarrow> bool" where
  "holds_name fa sn name p = (pl_enabled p \<and> pl_kind p = Nacos \<and> zone_of (na_origin (plugin_authority fa sn p)) name)"

section \<open>The first zone that holds the name\<close>

lemma load_plugin_nacos:
  assumes "load_plugin lib (make_nacos fa sn catalogs) i p = Inr (h, ws)" and "pl_kind p = Nacos"
  shows "\<exists>w. ws = [(plugin_zone p, w)] \<and>
    h = (''nacos['' @ plugin_zone p @ '']'', nacos_zone_handler (plugin_authority fa sn p) (catalogs w))"
  using assms by (auto simp: load_plugin_def make_nacos_def plugin_authority_def plugin_zone_def Let_def split: if_splits option.splits)

lemma nacos_skips: "nacos_lookup a catalog name rtype info = CF_Skip \<longleftrightarrow> \<not> zone_of (na_origin a) name"
  using nacos_owns_zone [of a catalog name rtype info] by blast

lemma nacos_continues: "zone_of (na_origin a) name \<Longrightarrow> \<exists>x. nacos_lookup a catalog name rtype info = CF_Continue x"
  by (auto simp: nacos_lookup_place place_of_def nacos_answer_cases nacos_nxdomain_def nacos_servfail_def
      split: zone_place.splits catalog_answer.splits option.splits)

text \<open>In a loaded chain whose front consists of Nacos plugins, the handlers before the first zone that holds the name skip
  it.\<close>

lemma load_plugins_first:
  assumes "load_plugins lib (make_nacos fa sn catalogs) i (pre @ p # post) = Inr (ws, hs)"
    and "\<forall>q \<in> set pre. pl_enabled q \<longrightarrow> pl_kind q = Nacos" and "holds_name fa sn name p"
  shows "\<exists>q w xs ys. q \<in> set (pre @ [p]) \<and> holds_name fa sn name q \<and> (plugin_zone q, w) \<in> set ws \<and>
    hs = xs @ (''nacos['' @ plugin_zone q @ '']'', nacos_zone_handler (plugin_authority fa sn q) (catalogs w)) # ys \<and>
    list_all (\<lambda>(n, h). \<forall>t info. zh_lookup h name t info = CF_Skip) xs"
  using assms
proof (induction pre arbitrary: i ws hs)
  case Nil
  then obtain h ws1 ws2 hs2 where l: "load_plugin lib (make_nacos fa sn catalogs) i p = Inr (h, ws1)"
    and r: "ws = ws1 @ ws2" "hs = h # hs2"
    by (auto simp: holds_name_def split: if_splits sum.splits)
  obtain w where "ws1 = [(plugin_zone p, w)]"
    "h = (''nacos['' @ plugin_zone p @ '']'', nacos_zone_handler (plugin_authority fa sn p) (catalogs w))"
    using load_plugin_nacos [OF l] Nil(3) by (auto simp: holds_name_def)
  with r Nil(3) show ?case
    by (intro exI [of _ p] exI [of _ w] exI [of _ "[]"] exI [of _ hs2]) simp
next
  case (Cons q0 pre)
  show ?case
  proof (cases "pl_enabled q0")
    case False
    with Cons.IH [of "Suc i" ws hs] Cons.prems show ?thesis by auto
  next
    case True
    obtain h ws1 ws2 hs2 where l: "load_plugin lib (make_nacos fa sn catalogs) i q0 = Inr (h, ws1)"
      and rest: "load_plugins lib (make_nacos fa sn catalogs) (Suc i) (pre @ p # post) = Inr (ws2, hs2)"
      and r: "ws = ws1 @ ws2" "hs = h # hs2"
      using Cons.prems(1) True by (auto split: sum.splits)
    obtain w where h: "ws1 = [(plugin_zone q0, w)]"
      "h = (''nacos['' @ plugin_zone q0 @ '']'', nacos_zone_handler (plugin_authority fa sn q0) (catalogs w))"
      using load_plugin_nacos [OF l] Cons.prems(2) True by auto
    show ?thesis
    proof (cases "holds_name fa sn name q0")
      case True
      with r h show ?thesis by (intro exI [of _ q0] exI [of _ w] exI [of _ "[]"] exI [of _ hs2]) simp
    next
      case False
      with True Cons.prems(2) have "\<not> zone_of (na_origin (plugin_authority fa sn q0)) name" by (simp add: holds_name_def)
      then have s: "\<forall>t info. zh_lookup (snd h) name t info = CF_Skip" by (simp add: h nacos_zone_handler_def nacos_skips)
      let ?named = "\<lambda>q w. (''nacos['' @ plugin_zone q @ '']'', nacos_zone_handler (plugin_authority fa sn q) (catalogs w))"
      obtain q w' xs ys where q: "q \<in> set (pre @ [p])" "holds_name fa sn name q" "(plugin_zone q, w') \<in> set ws2"
        and hs2: "hs2 = xs @ ?named q w' # ys" "list_all (\<lambda>(n, h). \<forall>t info. zh_lookup h name t info = CF_Skip) xs"
        using Cons.IH [OF rest] Cons.prems(2,3) by auto
      have "hs = (h # xs) @ ?named q w' # ys" using r hs2 by simp
      moreover have "list_all (\<lambda>(n, h). \<forall>t info. zh_lookup h name t info = CF_Skip) (h # xs)" using hs2 s by (cases h) simp
      moreover have "q \<in> set ((q0 # pre) @ [p])" "(plugin_zone q, w') \<in> set ws" using q r by auto
      ultimately show ?thesis using q(2) by blast
    qed
  qed
qed

lemma resolve_first:
  assumes "chain_abs hs = xs @ (n, h) # ys" and "list_all (\<lambda>(n, h). zh_lookup h name t info = CF_Skip) xs"
    and "zh_lookup h name t info \<noteq> CF_Skip"
  shows "rr_outcome (fst (resolve hs name t info)) = zh_lookup h name t info \<and>
    rr_handler_name (fst (resolve hs name t info)) = Some n \<and>
    rr_authoritative (fst (resolve hs name t info)) = is_authoritative (zone_type h)"
proof -
  obtain as e bs where hs: "hs = as @ e # bs" and as: "chain_abs as = xs" and e: "nh_name e = n" "nh_handler e = h"
    using assms(1) unfolding chain_abs_def by (auto simp: map_eq_append_conv map_eq_Cons_conv)
  have "list_all (\<lambda>h. zh_lookup (nh_handler h) name t info = CF_Skip) as"
    using assms(2) as by (auto simp: chain_abs_def list.pred_map comp_def list_all_iff)
  with assms(3) e show ?thesis
    by (auto simp: hs resolve_skip_append Let_def split: control_flow.splits prod.splits)
qed

lemma zone_name_resolved:
  fixes hs :: "'i named_handler list"
  assumes build: "build_authority_chain lib (make_nacos fa sn catalogs) (pre @ p # post) = Inr (ws, chain)"
    and abs: "chain_abs hs = chain_abs chain" and pre: "\<forall>q \<in> set pre. pl_enabled q \<longrightarrow> pl_kind q = Nacos" and p: "holds_name fa sn name p"
  obtains q w where "q \<in> set (pre @ [p])" "holds_name fa sn name q" "(plugin_zone q, w) \<in> set ws"
    "\<And>t info. rr_outcome (fst (resolve hs name t info)) = nacos_lookup (plugin_authority fa sn q) (catalogs w) name t info"
    "\<And>t info. rr_handler_name (fst (resolve hs name t info)) = Some (''nacos['' @ plugin_zone q @ '']'')"
    "\<And>t info. rr_authoritative (fst (resolve hs name t info))"
proof -
  obtain ns where l: "load_plugins lib (make_nacos fa sn catalogs) 0 (pre @ p # post) = Inr (ws, ns)" and c: "chain = chain_new ns"
    using build by (auto simp: build_authority_chain_def split: sum.splits if_splits)
  obtain q w xs ys where q: "q \<in> set (pre @ [p])" "holds_name fa sn name q" "(plugin_zone q, w) \<in> set ws"
    and ns: "ns = xs @ (''nacos['' @ plugin_zone q @ '']'', nacos_zone_handler (plugin_authority fa sn q) (catalogs w)) # ys"
    and skip: "list_all (\<lambda>(n, h). \<forall>t info. zh_lookup h name t info = CF_Skip) xs"
    using load_plugins_first [OF l pre p] by blast
  let ?h = "nacos_zone_handler (plugin_authority fa sn q) (catalogs w) :: 'i zone_handler"
  have "chain_abs hs = ns" using abs by (simp add: c chain_abs_def chain_new_def comp_def split_beta)
  moreover have "list_all (\<lambda>(n, h). zh_lookup h name t info = CF_Skip) xs" for t and info :: "'i option"
    using skip by (auto simp: list_all_iff)
  moreover have "zh_lookup ?h name t info \<noteq> CF_Skip" for t and info :: "'i option"
    using q(2) by (simp add: nacos_zone_handler_def nacos_skips holds_name_def)
  ultimately have r: "rr_outcome (fst (resolve hs name t info)) = zh_lookup ?h name t info \<and>
      rr_handler_name (fst (resolve hs name t info)) = Some (''nacos['' @ plugin_zone q @ '']'') \<and>
      rr_authoritative (fst (resolve hs name t info)) = is_authoritative (zone_type ?h)" for t and info :: "'i option"
    using resolve_first [of hs xs "''nacos['' @ plugin_zone q @ '']''" ?h ys name t info] ns by blast
  show thesis
    by (rule that [OF q]) (use r in \<open>simp_all add: nacos_zone_handler_def is_authoritative_def\<close>)
qed

section \<open>What the client is told\<close>

lemma rotation_set: "set (fst (rotation_apply b c rs)) = set rs"
  by (simp add: rotation_apply_def Let_def)

text \<open>The first response of a request whose lookup was answered by an owner of the zone.\<close>

lemma first_response:
  assumes "rq_info rq = Some ri" and "resolve (hs_chain st) (ri_name ri) (ri_type ri) (Some ri) = (rr, ch)"
    and "rr_outcome rr = CF_Continue x" and "rr_authoritative rr"
  shows "\<exists>r ok rest. filter is_sent (fst (snd (handle_request hk (assembled xdp rot mws) rq st))) = Ev_sent r ok # rest \<and>
    md_authoritative (rs_metadata r) \<and> \<not> md_recursion_available (rs_metadata r) \<and>
    (case x of Inr l \<Rightarrow> md_code (rs_metadata r) = NoError \<and> set (rs_answers r) = set (take_answer_records l)
             | Inl e \<Rightarrow> md_code (rs_metadata r) = response_code_for_lookup_error e \<and> rs_answers r = [])"
proof -
  obtain info ev oc c where a: "answer hk (assembled xdp rot mws) rq rr (hs_cursor st) = (info, ev, oc, c)" by (metis prod_cases4)
  have b: "run_before 0 (hc_before (assembled xdp rot mws)) rq = (map Ev_before [0..<length mws], False)"
    using run_before_all [of "hc_before (assembled xdp rot mws)" rq 0] by simp
  have e: "fst (snd (handle_request hk (assembled xdp rot mws) rq st)) = map Ev_before [0..<length mws] @ ev @ finish (length mws) oc"
    using assms(1,2) b a by (simp add: handle_request_def)
  have f: "filter is_sent (map Ev_before ks) = []" "filter is_sent (finish n oc) = []" for ks n
    by (auto simp: finish_def event_kinds filter_empty_conv)
  have "filter is_sent ev = ev" using answer_events [OF a] by (simp add: list_all_iff filter_id_conv)
  then have s: "filter is_sent (fst (snd (handle_request hk (assembled xdp rot mws) rq st))) = ev" by (simp add: e f)
  have "\<exists>r ok rest. ev = Ev_sent r ok # rest \<and> md_authoritative (rs_metadata r) \<and> \<not> md_recursion_available (rs_metadata r) \<and>
    (case x of Inr l \<Rightarrow> md_code (rs_metadata r) = NoError \<and> set (rs_answers r) = set (take_answer_records l)
             | Inl e \<Rightarrow> md_code (rs_metadata r) = response_code_for_lookup_error e \<and> rs_answers r = [])"
  proof (cases x)
    case (Inl err)
    with a assms(3) obtain info' where "send_error hk rq 0 (response_code_for_lookup_error err) (rr_authoritative rr) (rr_soa rr) = (info', ev)"
      by (auto simp: answer_def answer_negative_def Let_def split: prod.splits)
    from send_error_sent [OF this] assms(4) Inl show ?thesis
      by (auto simp: error_response_def error_metadata_def)
  next
    case (Inr l)
    with a assms(3) have p: "answer_positive hk (assembled xdp rot mws) rq rr l (hs_cursor st) = (info, ev, oc, c)"
      by (simp add: answer_def)
    let ?recs = "fst (rotation_apply (hc_rotate (assembled xdp rot mws)) (hs_cursor st) (take_answer_records l))"
    have "\<exists>ok rest. ev = Ev_sent \<lparr>rs_metadata = answer_metadata hk rq (rr_authoritative rr), rs_answers = ?recs, rs_soa = []\<rparr> ok # rest"
      using p by (auto simp: answer_positive_def Let_def split: prod.splits if_splits)
    with assms(4) Inr show ?thesis by (auto simp: answer_metadata_def rotation_set)
  qed
  with s show ?thesis by simp
qed

text \<open>C23. Names of a Nacos zone stay inside: take the chain that start-up builds from the plugin section, in any state the
  requests have brought it to, and a question whose name lies in the zone of an enabled Nacos plugin that has only Nacos
  plugins before it. The answer is that of the first Nacos plugin whose zone holds the name, from its own catalog,
  whatever native or forwarding resolvers follow; the first response sent is authoritative and does not offer
  recursion; and its answers are exactly the records the catalog's instances give.\<close>

theorem zone_names_stay_inside:
  assumes "build_authority_chain lib (make_nacos fa sn catalogs) (pre @ p # post) = Inr (ws, chain)"
    and "chain_abs (hs_chain st) = chain_abs chain" and "\<forall>q \<in> set pre. pl_enabled q \<longrightarrow> pl_kind q = Nacos"
    and "rq_info rq = Some ri" and "holds_name fa sn (ri_name ri) p"
  shows "\<exists>q w x r ok rest. q \<in> set (pre @ [p]) \<and> holds_name fa sn (ri_name ri) q \<and> (plugin_zone q, w) \<in> set ws \<and>
    nacos_lookup (plugin_authority fa sn q) (catalogs w) (ri_name ri) (ri_type ri) (Some ri) = CF_Continue x \<and>
    filter is_sent (fst (snd (handle_request hk (assembled xdp rot mws) rq st))) = Ev_sent r ok # rest \<and>
    md_authoritative (rs_metadata r) \<and> \<not> md_recursion_available (rs_metadata r) \<and>
    (case x of Inr l \<Rightarrow> md_code (rs_metadata r) = NoError \<and> set (rs_answers r) = set (take_answer_records l)
             | Inl e \<Rightarrow> md_code (rs_metadata r) = response_code_for_lookup_error e \<and> rs_answers r = [])"
proof -
  obtain q w where q: "q \<in> set (pre @ [p])" "holds_name fa sn (ri_name ri) q" "(plugin_zone q, w) \<in> set ws"
    and o: "rr_outcome (fst (resolve (hs_chain st) (ri_name ri) t i)) = nacos_lookup (plugin_authority fa sn q) (catalogs w) (ri_name ri) t i"
    and a: "rr_authoritative (fst (resolve (hs_chain st) (ri_name ri) t i))" for t i
    by (rule zone_name_resolved [OF assms(1-3,5)]) blast
  obtain x where x: "nacos_lookup (plugin_authority fa sn q) (catalogs w) (ri_name ri) (ri_type ri) (Some ri) = CF_Continue x"
    using nacos_continues [of "plugin_authority fa sn q" "ri_name ri" "catalogs w" "ri_type ri" "Some ri"] q(2)
    by (auto simp: holds_name_def)
  obtain rr ch where r: "resolve (hs_chain st) (ri_name ri) (ri_type ri) (Some ri) = (rr, ch)" by force
  have "rr_outcome rr = CF_Continue x" "rr_authoritative rr"
    using o [of "ri_type ri" "Some ri"] a [of "ri_type ri" "Some ri"] x r by simp_all
  from first_response [OF assms(4) r this] q x show ?thesis by blast
qed

text \<open>The zone \<open>z\<close> of one Nacos plugin before a forwarding resolver.\<close>

definition sample_zone :: plugin_config where
  "sample_zone = (default_plugin Nacos)\<lparr>pl_group := Some ''g'', pl_namespace := Some ''n'', pl_dns_zone := Some ''z''\<rparr>"

definition sample_catalogs :: "nat \<Rightarrow> bytes \<Rightarrow> catalog_answer" where
  "sample_catalogs w s = Instances [\<lparr>ci_ip = IpV4 [10, 0, 0, 1], ci_port = 80, ci_healthy = True\<rparr>]"

definition sample_question :: request_info where
  "sample_question = \<lparr>ri_name = [[97], [103], [110], [122]], ri_type = RT_A, ri_class = 1\<rparr>"

lemma sample_zone_answer:
  "nacos_lookup (plugin_authority (\<lambda>_. Some [[122]]) (\<lambda>_. []) sample_zone) (sample_catalogs w) (ri_name sample_question)
     (ri_type sample_question) (info :: request_info option) =
   CF_Continue (Inr (Section [\<lparr>rr_name = ri_name sample_question, rr_ttl = pl_ttl sample_zone, rr_data = RD_A [10, 0, 0, 1]\<rparr>]))"
proof -
  have n: "service_name_from_name [[97], [103], [110], [122]] [[122]] [103] [110] = Some [97]" by code_simp
  have g: "str_bytes ''g'' = [103]" "str_bytes ''n'' = [110]" by code_simp+
  have z: "zone_of [[122]] [[97], [103], [110], [122]]" by (simp add: zone_of_def suffix_def)
  show ?thesis
    using z n by (simp add: nacos_lookup_def plugin_authority_def plugin_zone_def nacos_authority_new_def nacos_answer_def sample_zone_def
        sample_catalogs_def sample_question_def default_plugin_def to_dns_records_def map_filter_simps Let_def g or_else_def
        lower_label_def to_ascii_lowercase_def)
qed

theorem zone_names_stay_inside_witness:
  "\<exists>ws chain r ok rest.
     build_authority_chain no_libraries (make_nacos (\<lambda>_. Some [[122]]) (\<lambda>_. []) sample_catalogs) [sample_zone, default_plugin Forward] =
       Inr (ws, chain) \<and>
     filter is_sent (fst (snd (handle_request sample_hickory (assembled False True all_middlewares)
       (sample_request\<lparr>rq_info := Some sample_question\<rparr>) \<lparr>hs_chain = chain, hs_cursor = 0\<rparr>))) = Ev_sent r ok # rest \<and>
     md_authoritative (rs_metadata r) \<and> \<not> md_recursion_available (rs_metadata r) \<and> md_code (rs_metadata r) = NoError \<and>
     rr_data ` set (rs_answers r) = {RD_A [10, 0, 0, 1]}"
proof -
  let ?fa = "\<lambda>_. Some [[122]]" and ?sn = "\<lambda>_. []" and ?rq = "sample_request\<lparr>rq_info := Some sample_question\<rparr>"
  have "\<not> isl (forward_new no_libraries default_upstream (plugin_opts (default_plugin Forward)) :: (chain_error, request_info zone_handler) result)"
    by code_simp
  then obtain h :: "request_info zone_handler"
    where f: "forward_new no_libraries default_upstream (plugin_opts (default_plugin Forward)) = Inr h"
    by (metis sum.collapse(2))
  have d: "pl_enabled (default_plugin k)" "pl_kind (default_plugin k) = k" "pl_upstream (default_plugin k) = None"
    "pl_service_pattern (default_plugin k) = None" for k by (simp_all add: default_plugin_def)
  have l: "lib_watcher no_libraries u v x y = Some 0" for u v x y by (simp add: no_libraries_def)
  obtain ws chain where b: "build_authority_chain no_libraries (make_nacos ?fa ?sn sample_catalogs) ([] @ sample_zone # [default_plugin Forward]) =
      Inr (ws, chain :: request_info named_handler list)"
    by (simp add: build_authority_chain_def load_plugin_def sample_zone_def d l f Let_def)
  let ?st = "\<lparr>hs_chain = chain, hs_cursor = 0\<rparr>"
  have h: "holds_name ?fa ?sn (ri_name sample_question) sample_zone"
    by (simp add: holds_name_def sample_zone_def default_plugin_def sample_question_def plugin_authority_def nacos_authority_new_def
        zone_of_def suffix_def lower_label_def to_ascii_lowercase_def Let_def)
  have q: "rq_info ?rq = Some sample_question" and a: "chain_abs (hs_chain ?st) = chain_abs chain" by simp_all
  from zone_names_stay_inside [OF b a _ q h, of sample_hickory False True all_middlewares]
  obtain w x r ok rest
    where x: "nacos_lookup (plugin_authority ?fa ?sn sample_zone) (sample_catalogs w) (ri_name sample_question) (ri_type sample_question)
        (Some sample_question) = CF_Continue x"
      and r: "filter is_sent (fst (snd (handle_request sample_hickory (assembled False True all_middlewares) ?rq ?st))) = Ev_sent r ok # rest"
        "md_authoritative (rs_metadata r)" "\<not> md_recursion_available (rs_metadata r)"
        "case x of Inr l \<Rightarrow> md_code (rs_metadata r) = NoError \<and> set (rs_answers r) = set (take_answer_records l)
           | Inl e \<Rightarrow> md_code (rs_metadata r) = response_code_for_lookup_error e \<and> rs_answers r = []"
    by auto
  have "x = Inr (Section [\<lparr>rr_name = ri_name sample_question, rr_ttl = pl_ttl sample_zone, rr_data = RD_A [10, 0, 0, 1]\<rparr>])"
    using x by (simp add: sample_zone_answer)
  with r(4) have c: "md_code (rs_metadata r) = NoError" "rr_data ` set (rs_answers r) = {RD_A [10, 0, 0, 1]}"
    by (simp_all add: take_answer_records_def)
  show ?thesis using b r c
    by (intro exI [of _ ws] exI [of _ chain] exI [of _ r] exI [of _ ok] exI [of _ rest]) simp
qed

section \<open>Zones of an accepted configuration\<close>




















end
