(* ===== verification/Fast_Path.thy ===== *)
theory Fast_Path
  imports Request_Middlewares
begin

text \<open>
  The fast path as a concurrent system: request tasks of the server, the cache map they share through the middleware
  (\<open>doggy-dns-xdp/src/middleware/xdp_cache.rs\<close>), the kernel program that answers from it, and the
  monotonic clock. A task answers its request, later runs the cache hook, which reads the clock and computes the
  entry, and later still, when it holds the lock of the map, writes it; other tasks, the kernel and the clock
  move in between. One step is atomic because the code makes it so: a send, a hook up to its
  lock, an update under the lock, a run of the program on one frame.
\<close>

section \<open>The hook up to its lock\<close>

datatype hook_step = Hook_return "xdp_cache_log list" | Hook_insert cache_key cache_value

definition hook_entry :: "u64 \<Rightarrow> u64 \<Rightarrow> query_info option \<Rightarrow> request_outcome \<Rightarrow> hook_step option" where
  "hook_entry neg_ttl now_ns info oc =
     (if response_code oc \<noteq> NoError \<and> response_code oc \<noteq> NXDomain then Some (Hook_return [])
      else case response_bytes oc of
        None \<Rightarrow> Some (Hook_return [])
      | Some resp \<Rightarrow>
          (case info of
             None \<Rightarrow> Some (Hook_return [Warn_no_request_info])
           | Some qi \<Rightarrow> map_option (\<lambda>(key, value). Hook_insert key value)
               (compute_cache_entry (qi_name qi) (qi_type qi) (qi_class qi)
                  (response_code oc) resp (min_answer_ttl oc) neg_ttl now_ns)))"

definition hook_write :: "(cache_key \<Rightarrow> bool) \<Rightarrow> bool \<Rightarrow> cache_key \<Rightarrow> cache_value \<Rightarrow> xdp_cache_state \<Rightarrow> xdp_cache_state" where
  "hook_write evict insert_ok key value s =
     (if insert_ok then s\<lparr>xc_map := lru_insert evict key value (xc_map s)\<rparr>
      else s\<lparr>xc_logs := xc_logs s @ [Warn_insert_failed]\<rparr>)"

text \<open>Run without interruption, the two halves are the hook.\<close>

lemma hook_halves:
  "xdp_after_request evict insert_ok neg_ttl now_ns info oc s =
     map_option (\<lambda>h. case h of Hook_return ls \<Rightarrow> s\<lparr>xc_logs := xc_logs s @ ls\<rparr>
                             | Hook_insert k v \<Rightarrow> hook_write evict insert_ok k v s)
       (hook_entry neg_ttl now_ns info oc)"
  by (auto simp: xdp_after_request_def hook_entry_def hook_write_def map_conv_bind_option split: option.split bind_split)

section \<open>The system\<close>

datatype task =
    Tk_request request
  | Tk_hook request request_outcome
  | Tk_insert cache_key cache_value
  | Tk_done

record deployment =
  dp_hickory :: hickory
  dp_rotate :: bool
  dp_middlewares :: "middleware_kind list"
  dp_names :: names
  dp_negative_ttl :: u64
  dp_adjust :: "bytes \<Rightarrow> int \<Rightarrow> bytes option"

text \<open>\<open>sy_sent\<close> is the history of the responses handed to the socket, with the time of the send.\<close>

record system =
  sy_now :: u64
  sy_maps :: xdp_maps
  sy_logs :: "xdp_cache_log list"
  sy_tasks :: "task list"
  sy_sent :: "(u64 \<times> request \<times> response) list"

definition sent_responses :: "handler_event list \<Rightarrow> response list" where
  "sent_responses evs = concat (map (\<lambda>ev. case ev of Ev_sent r _ \<Rightarrow> [r] | _ \<Rightarrow> []) evs)"

definition request_events :: "deployment \<Rightarrow> request_info handler_state \<Rightarrow> request \<Rightarrow> handler_event list" where
  "request_events D st rq = fst (snd (handle_request (dp_hickory D)
     (assembled True (dp_rotate D) (dp_middlewares D)) rq st))"

text \<open>The state of the handler is whatever the chain holds when the task resolves its name. A key builder that
  overruns its buffer panics and ends the task.\<close>

inductive sys_step :: "deployment \<Rightarrow> system \<Rightarrow> system \<Rightarrow> bool" for D where
  Arrive: "sys_step D s (s\<lparr>sy_tasks := sy_tasks s @ [Tk_request rq]\<rparr>)"
| Answer: "i < length (sy_tasks s) \<Longrightarrow> sy_tasks s ! i = Tk_request rq \<Longrightarrow> evs = request_events D st rq \<Longrightarrow>
    Ev_finish oc \<in> set evs \<Longrightarrow>
    sys_step D s (s\<lparr>sy_tasks := (sy_tasks s)[i := Tk_hook rq oc],
      sy_sent := sy_sent s @ map (\<lambda>r. (sy_now s, rq, r)) (sent_responses evs)\<rparr>)"
| Skip: "i < length (sy_tasks s) \<Longrightarrow> sy_tasks s ! i = Tk_hook rq oc \<Longrightarrow> Mw_xdp_cache \<notin> set (dp_middlewares D) \<Longrightarrow>
    sys_step D s (s\<lparr>sy_tasks := (sy_tasks s)[i := Tk_done]\<rparr>)"
| Hook: "i < length (sy_tasks s) \<Longrightarrow> sy_tasks s ! i = Tk_hook rq oc \<Longrightarrow> Mw_xdp_cache \<in> set (dp_middlewares D) \<Longrightarrow>
    hook_entry (dp_negative_ttl D) (sy_now s) (query_info_of (dp_names D) rq) oc = Some (Hook_insert k v) \<Longrightarrow>
    sys_step D s (s\<lparr>sy_tasks := (sy_tasks s)[i := Tk_insert k v]\<rparr>)"
| Return: "i < length (sy_tasks s) \<Longrightarrow> sy_tasks s ! i = Tk_hook rq oc \<Longrightarrow> Mw_xdp_cache \<in> set (dp_middlewares D) \<Longrightarrow>
    hook_entry (dp_negative_ttl D) (sy_now s) (query_info_of (dp_names D) rq) oc = Some (Hook_return ls) \<Longrightarrow>
    sys_step D s (s\<lparr>sy_tasks := (sy_tasks s)[i := Tk_done], sy_logs := sy_logs s @ ls\<rparr>)"
| Panic: "i < length (sy_tasks s) \<Longrightarrow> sy_tasks s ! i = Tk_hook rq oc \<Longrightarrow> Mw_xdp_cache \<in> set (dp_middlewares D) \<Longrightarrow>
    hook_entry (dp_negative_ttl D) (sy_now s) (query_info_of (dp_names D) rq) oc = None \<Longrightarrow>
    sys_step D s (s\<lparr>sy_tasks := (sy_tasks s)[i := Tk_done]\<rparr>)"
| Insert: "i < length (sy_tasks s) \<Longrightarrow> sy_tasks s ! i = Tk_insert k v \<Longrightarrow>
    c = hook_write evict insert_ok k v \<lparr>xc_map = DNS_CACHE (sy_maps s), xc_logs = sy_logs s\<rparr> \<Longrightarrow>
    sys_step D s (s\<lparr>sy_tasks := (sy_tasks s)[i := Tk_done],
      sy_maps := (sy_maps s)\<lparr>DNS_CACHE := xc_map c\<rparr>, sy_logs := xc_logs c\<rparr>)"
| Kernel: "dns_xdp (dp_adjust D) (sy_now s) (sy_maps s) f = Some (action, f', logs, m') \<Longrightarrow>
    sys_step D s (s\<lparr>sy_maps := m'\<rparr>)"
| Tick: "sy_now s \<le> t \<Longrightarrow> sys_step D s (s\<lparr>sy_now := t\<rparr>)"

abbreviation sys_run :: "deployment \<Rightarrow> system \<Rightarrow> system \<Rightarrow> bool" where
  "sys_run D \<equiv> (sys_step D)\<^sup>*\<^sup>*"

text \<open>A process that has just started. The map is pinned and reused, so it may hold what an earlier process left.\<close>

definition sys_init :: "u64 \<Rightarrow> xdp_maps \<Rightarrow> system" where
  "sys_init now m = \<lparr>sy_now = now, sy_maps = m, sy_logs = [], sy_tasks = [], sy_sent = []\<rparr>"

section \<open>What backs an entry\<close>

definition entry_ttl :: "deployment \<Rightarrow> response \<Rightarrow> u64" where
  "entry_ttl D r = (if md_code (rs_metadata r) = NXDomain then dp_negative_ttl D
     else ucast (case min_ttl_from_records (rs_answers r) of Some t \<Rightarrow> t | None \<Rightarrow> (ucast (dp_negative_ttl D) :: u32)))"

text \<open>The outcome of a task that was answered: its bytes encode a response sent for this request.\<close>

definition outcome_backed :: "deployment \<Rightarrow> system \<Rightarrow> request \<Rightarrow> request_outcome \<Rightarrow> bool" where
  "outcome_backed D s rq oc = (\<forall>b. response_bytes oc = Some b \<longrightarrow> (\<exists>t0 r. (t0, rq, r) \<in> set (sy_sent s) \<and> t0 \<le> sy_now s \<and>
     md_code (rs_metadata r) = response_code oc \<and> min_answer_ttl oc = min_ttl_from_records (rs_answers r) \<and> length b \<le> 512 \<and>
     emit (dp_hickory D) r (max_message_size (rq_protocol rq) (rq_max_payload rq)) = Some b))"

text \<open>An entry is backed by a response sent at \<open>t0\<close> when its hook read the clock at some \<open>t1\<close> since then.\<close>

definition entry_backed :: "deployment \<Rightarrow> system \<Rightarrow> cache_key \<Rightarrow> cache_value \<Rightarrow> bool" where
  "entry_backed D s k v = (\<exists>t0 t1 rq r qi b. (t0, rq, r) \<in> set (sy_sent s) \<and> t0 \<le> t1 \<and> t1 \<le> sy_now s \<and>
     query_info_of (dp_names D) rq = Some qi \<and> make_cache_key (qi_name qi) (qi_type qi) (qi_class qi) = Some k \<and>
     emit (dp_hickory D) r (max_message_size (rq_protocol rq) (rq_max_payload rq)) = Some b \<and>
     md_code (rs_metadata r) \<in> {NoError, NXDomain} \<and> is_negative v = (md_code (rs_metadata r) = NXDomain) \<and>
     cache_value_wf v \<and> unat (resp_len v) = length b \<and> take (length b) (resp_data v) = b \<and>
     expires_at v = t1 + entry_ttl D r * 1000000000)"

definition task_ok :: "deployment \<Rightarrow> system \<Rightarrow> task \<Rightarrow> bool" where
  "task_ok D s t = (case t of
       Tk_hook rq oc \<Rightarrow> outcome_backed D s rq oc
     | Tk_insert k v \<Rightarrow> entry_backed D s k v
     | _ \<Rightarrow> True)"

definition sys_inv :: "deployment \<Rightarrow> (cache_key \<Rightarrow> cache_value option) \<Rightarrow> system \<Rightarrow> bool" where
  "sys_inv D c0 s = (list_all (task_ok D s) (sy_tasks s) \<and>
     (\<forall>k v. DNS_CACHE (sy_maps s) k = Some v \<longrightarrow> entry_backed D s k v \<or> c0 k = Some v))"

text \<open>Both kinds of evidence only need the history and the clock, and both only grow.\<close>

lemma backed_mono:
  assumes "set (sy_sent s) \<subseteq> set (sy_sent s')" and "sy_now s \<le> sy_now s'"
  shows "outcome_backed D s rq oc \<Longrightarrow> outcome_backed D s' rq oc" "entry_backed D s k v \<Longrightarrow> entry_backed D s' k v"
    "task_ok D s t \<Longrightarrow> task_ok D s' t"
proof -
  show o: "outcome_backed D s rq oc \<Longrightarrow> outcome_backed D s' rq oc" for rq oc
    using assms unfolding outcome_backed_def by (meson order_trans subsetD)
  show e: "entry_backed D s k v \<Longrightarrow> entry_backed D s' k v" for k v
    using assms unfolding entry_backed_def by (meson order_trans subsetD)
  show "task_ok D s t \<Longrightarrow> task_ok D s' t"
    using o e by (auto simp: task_ok_def split: task.splits)
qed

lemma sys_inv_update:
  assumes "sys_inv D c0 s" and "set (sy_sent s) \<subseteq> set (sy_sent s')" and "sy_now s \<le> sy_now s'"
    and "\<And>t. t \<in> set (sy_tasks s') \<Longrightarrow> t \<in> set (sy_tasks s) \<or> task_ok D s' t"
    and "\<And>k v. DNS_CACHE (sy_maps s') k = Some v \<Longrightarrow> DNS_CACHE (sy_maps s) k = Some v \<or> entry_backed D s' k v"
  shows "sys_inv D c0 s'"
  using assms(1,4,5) backed_mono [OF assms(2,3)] unfolding sys_inv_def list_all_iff by blast

lemma in_update: "t \<in> set (ts[i := t']) \<Longrightarrow> t \<in> set ts \<or> t = t'"
  using set_update_subset_insert by fastforce

lemma sent_responses_iff: "r \<in> set (sent_responses evs) \<longleftrightarrow> (\<exists>ok. Ev_sent r ok \<in> set evs)"
  by (force simp: sent_responses_def split: handler_event.splits)

lemma answered_backed:
  assumes "Ev_finish oc \<in> set (request_events D st rq)" and "sy_sent s' = h @ map (\<lambda>r. (sy_now s', rq, r)) (sent_responses (request_events D st rq))"
  shows "outcome_backed D s' rq oc"
  unfolding outcome_backed_def
proof (intro allI impI)
  fix b
  assume "response_bytes oc = Some b"
  from finished_bytes [OF assms(1) [unfolded request_events_def] this] obtain r ok where
    "Ev_sent r ok \<in> set (request_events D st rq)" "md_code (rs_metadata r) = response_code oc" "length b \<le> 512"
    "emit (dp_hickory D) r (max_message_size (rq_protocol rq) (rq_max_payload rq)) = Some b"
    "min_answer_ttl oc = min_ttl_from_records (rs_answers r)"
    by (auto simp: bytes_ok_def request_events_def)
  then show "\<exists>t0 r. (t0, rq, r) \<in> set (sy_sent s') \<and> t0 \<le> sy_now s' \<and>
     md_code (rs_metadata r) = response_code oc \<and> min_answer_ttl oc = min_ttl_from_records (rs_answers r) \<and> length b \<le> 512 \<and>
     emit (dp_hickory D) r (max_message_size (rq_protocol rq) (rq_max_payload rq)) = Some b"
    using assms(2) sent_responses_iff [of r] by (intro exI [of _ "sy_now s'"] exI [of _ r]) auto
qed

lemma compute_cache_entry_facts:
  assumes "compute_cache_entry qname qtype qclass code resp min_ttl neg_ttl now_ns = Some (k, v)" and "length resp \<le> 512"
  shows "make_cache_key qname qtype qclass = Some k" "cache_value_wf v" "is_negative v = (code = NXDomain)"
    "unat (resp_len v) = length resp" "take (length resp) (resp_data v) = resp"
    "expires_at v = now_ns + (if code = NXDomain then neg_ttl
        else ucast (case min_ttl of Some t \<Rightarrow> t | None \<Rightarrow> (ucast neg_ttl :: u32))) * 1000000000"
  using assms from_response_data [of resp] MAX_RESPONSE_SIZE_def
  by (auto simp: compute_cache_entry_def Let_def new_negative_def new_positive_def split: if_splits bind_splits)

lemma hooked_backed:
  assumes "outcome_backed D s rq oc"
    and "hook_entry (dp_negative_ttl D) (sy_now s) (query_info_of (dp_names D) rq) oc = Some (Hook_insert k v)"
  shows "entry_backed D s k v"
proof -
  obtain qi b where q: "response_code oc \<in> {NoError, NXDomain}" "query_info_of (dp_names D) rq = Some qi" "response_bytes oc = Some b"
    and c: "compute_cache_entry (qi_name qi) (qi_type qi) (qi_class qi) (response_code oc) b (min_answer_ttl oc)
      (dp_negative_ttl D) (sy_now s) = Some (k, v)"
    using assms(2) by (auto simp: hook_entry_def split: if_splits option.splits)
  from assms(1) q(3) obtain t0 r where r: "(t0, rq, r) \<in> set (sy_sent s)" "t0 \<le> sy_now s" "md_code (rs_metadata r) = response_code oc"
    "min_answer_ttl oc = min_ttl_from_records (rs_answers r)" "length b \<le> 512"
    "emit (dp_hickory D) r (max_message_size (rq_protocol rq) (rq_max_payload rq)) = Some b"
    unfolding outcome_backed_def by blast
  from compute_cache_entry_facts [OF c r(5)] q r show ?thesis
    unfolding entry_backed_def entry_ttl_def
    by (intro exI [of _ t0] exI [of _ "sy_now s"] exI [of _ rq] exI [of _ r] exI [of _ qi] exI [of _ b]) simp
qed

lemma dns_xdp_cache: "dns_xdp adjust now m f = Some (action, f', logs, m') \<Longrightarrow> DNS_CACHE m' = DNS_CACHE m \<and> XDP_CONFIG m' = XDP_CONFIG m"
  by (auto simp: dns_xdp_def record_outcome_def split: prod.splits option.splits bind_splits)

lemma sys_step_inv: "sys_step D s s' \<Longrightarrow> sys_inv D c0 s \<Longrightarrow> sys_inv D c0 s'"
proof (induction rule: sys_step.induct)
  case (Arrive s rq)
  then show ?case by (rule sys_inv_update) (auto simp: task_ok_def)
next
  case (Answer i s rq evs st oc)
  let ?s = "s\<lparr>sy_tasks := (sy_tasks s)[i := Tk_hook rq oc],
      sy_sent := sy_sent s @ map (\<lambda>r. (sy_now s, rq, r)) (sent_responses evs)\<rparr>"
  have "task_ok D ?s (Tk_hook rq oc)" unfolding task_ok_def task.case
    by (rule answered_backed [where st = st]) (use Answer in simp_all)
  then show ?case by (intro sys_inv_update [OF Answer(5)]) (auto dest: in_update)
next
  case (Hook i s rq oc k v)
  let ?s = "s\<lparr>sy_tasks := (sy_tasks s)[i := Tk_insert k v]\<rparr>"
  have "task_ok D s (Tk_hook rq oc)" using Hook by (auto simp: sys_inv_def list_all_length)
  then have "entry_backed D s k v" using hooked_backed Hook by (simp add: task_ok_def)
  then have "task_ok D ?s (Tk_insert k v)" using backed_mono(2) [of s ?s D k v] by (simp add: task_ok_def)
  then show ?case by (intro sys_inv_update [OF Hook(5)]) (auto dest: in_update)
next
  case (Insert i s k v c evict insert_ok)
  let ?s = "s\<lparr>sy_tasks := (sy_tasks s)[i := Tk_done],
      sy_maps := (sy_maps s)\<lparr>DNS_CACHE := xc_map c\<rparr>, sy_logs := xc_logs c\<rparr>"
  let ?P = "\<lambda>k v. DNS_CACHE (sy_maps s) k = Some v \<or> entry_backed D ?s k v"
  have "task_ok D s (Tk_insert k v)" using Insert by (auto simp: sys_inv_def list_all_length)
  then have "?P k v" using backed_mono(2) [of s ?s D k v] by (simp add: task_ok_def)
  then have "?P k' w" if "xc_map c k' = Some w" for k' w
    using dns_cache.insert_invariant [of "DNS_CACHE (sy_maps s)" ?P k v evict k' w] Insert(3) that
    by (auto simp: hook_write_def split: if_splits)
  then show ?case by (intro sys_inv_update [OF Insert(4)]) (auto simp: task_ok_def dest: in_update)
next
  case (Kernel s f action f' logs m')
  then show ?case using dns_xdp_cache [OF Kernel(1)] by (intro sys_inv_update [OF Kernel(2)]) auto
next
  case (Tick s t)
  then show ?case by (intro sys_inv_update [OF Tick(2)]) auto
qed (erule sys_inv_update; auto simp: task_ok_def dest: in_update)+

lemma sys_run_inv: "sys_run D (sys_init t0 m0) s \<Longrightarrow> sys_inv D (DNS_CACHE m0) s"
proof (induction rule: rtranclp_induct)
  case base
  show ?case by (simp add: sys_inv_def sys_init_def)
qed (rule sys_step_inv)

section \<open>No stale answers\<close>

lemma qtype_class_of_inject: "qtype_class_of t c = qtype_class_of t' c' \<longleftrightarrow> t = t' \<and> c = c'"
proof
  assume e: "qtype_class_of t c = qtype_class_of t' c'"
  have high: "\<not> bit w (n + 16)" for w :: u16 and n by (simp add: impossible_bit)
  have "bit t n = bit t' n" "bit c n = bit c' n" if "n < 16" for n
    using arg_cong [OF e, of "\<lambda>w. bit w (n + 16)"] arg_cong [OF e, of "\<lambda>w. bit w n"] that
    by (simp_all add: qtype_class_of_def bit_simps high)
  then show "t = t' \<and> c = c'" by (auto intro!: bit_word_eqI)
qed simp

lemma make_cache_key_class:
  assumes "make_cache_key n t c = Some k" and "make_cache_key n' t' c' = Some k"
  shows "t = t' \<and> c = c'"
  using assms qtype_class_of_inject [of t c t' c'] by (auto simp: make_cache_key_def Let_def split: option.splits bind_splits)

lemma expiry_at_most: "unat (t + ttl * 1000000000 :: u64) \<le> unat t + unat ttl * 1000000000"
proof -
  have "unat (t + ttl * 1000000000) \<le> unat t + unat (ttl * 1000000000)" by (simp add: unat_word_ariths)
  moreover have "unat (ttl * 1000000000) \<le> unat ttl * 1000000000" by (simp add: unat_word_ariths)
  ultimately show ?thesis by linarith
qed

lemma backed_cache_wf: "sys_inv D (DNS_CACHE m0) s \<Longrightarrow> cache_wf m0 \<Longrightarrow> cache_wf (sy_maps s)"
  unfolding sys_inv_def cache_wf_def entry_backed_def by blast

text \<open>C3. What the kernel answers is never stale, however the tasks, the kernel and the clock interleave: whenever the
  program answers a query frame, the entry it used has not expired, and either it was already in the pinned map when this
  process started, or there is a response that this process handed to the socket earlier for a question with the same
  key, type and class, such that the reply is that response under the client's transaction id (for an NXDOMAIN, the
  negative reply), and less than the smallest TTL of its answers (for an NXDOMAIN, and without answers, the
  configured time) has passed since its hook ran, which was after the send.\<close>

theorem no_stale_answers:
  assumes run: "sys_run D (sys_init t_start m0) s" and wf: "cache_wf m0" and frame: "query_frame_ok (sy_maps s) h q"
    and resize: "\<And>f delta f1. dp_adjust D f delta = Some f1 \<Longrightarrow> adjusted f delta f1"
    and tx: "dns_xdp (dp_adjust D) (sy_now s) (sy_maps s) (hdr_bytes h @ msg_bytes q @ pad) = Some (XDP_TX, out, logs, m')"
  shows "\<exists>k v pad'. make_cache_key (m_name q) (m_qtype q) (m_qclass q) = Some k \<and> DNS_CACHE (sy_maps s) k = Some v \<and>
    sy_now s < expires_at v \<and> (DNS_CACHE m0 k = Some v \<or>
    (\<exists>t0 t1 rq r qi b. (t0, rq, r) \<in> set (sy_sent s) \<and> t0 \<le> t1 \<and> t1 \<le> sy_now s \<and>
      unat (sy_now s) < unat t1 + unat (entry_ttl D r) * 1000000000 \<and>
      query_info_of (dp_names D) rq = Some qi \<and> make_cache_key (qi_name qi) (qi_type qi) (qi_class qi) = Some k \<and>
      qi_type qi = m_qtype q \<and> qi_class qi = m_qclass q \<and> md_code (rs_metadata r) \<in> {NoError, NXDomain} \<and>
      emit (dp_hickory D) r (max_message_size (rq_protocol rq) (rq_max_payload rq)) = Some b \<and>
      out = (if md_code (rs_metadata r) = NXDomain
        then hdr_bytes (reply_hdr h (length (negative_reply q))) @ negative_reply q @ pad'
        else hdr_bytes (reply_hdr h (length b)) @ ([hi8 (m_txid q), lo8 (m_txid q)] @ drop 2 b) @ pad')))"
proof -
  have inv: "sys_inv D (DNS_CACHE m0) s" by (rule sys_run_inv [OF run])
  obtain k where k: "make_cache_key (m_name q) (m_qtype q) (m_qclass q) = Some k"
    using frame make_cache_key_eq by (auto simp: query_frame_ok_def)
  obtain v pad' where v: "DNS_CACHE (sy_maps s) k = Some v" "sy_now s < expires_at v"
    and out: "out = (if is_negative v then hdr_bytes (reply_hdr h (length (negative_reply q))) @ negative_reply q @ pad'
      else hdr_bytes (reply_hdr h (unat (resp_len v))) @ positive_reply v (m_txid q) @ pad')"
    by (rule dns_xdp_transmits [OF frame k backed_cache_wf [OF inv wf] resize tx]) (auto intro: that)
  show ?thesis
  proof (cases "DNS_CACHE m0 k = Some v")
    case False
    with inv v obtain t0 t1 rq r qi b where e: "(t0, rq, r) \<in> set (sy_sent s)" "t0 \<le> t1" "t1 \<le> sy_now s"
      "query_info_of (dp_names D) rq = Some qi" "make_cache_key (qi_name qi) (qi_type qi) (qi_class qi) = Some k"
      "emit (dp_hickory D) r (max_message_size (rq_protocol rq) (rq_max_payload rq)) = Some b"
      "md_code (rs_metadata r) \<in> {NoError, NXDomain}" "is_negative v = (md_code (rs_metadata r) = NXDomain)"
      "unat (resp_len v) = length b" "take (length b) (resp_data v) = b" "expires_at v = t1 + entry_ttl D r * 1000000000"
      unfolding sys_inv_def entry_backed_def by blast
    have "unat (sy_now s) < unat t1 + unat (entry_ttl D r) * 1000000000"
      using v(2) expiry_at_most [of t1 "entry_ttl D r"] by (simp add: e(11) word_less_nat_alt)
    moreover have "positive_reply v (m_txid q) = [hi8 (m_txid q), lo8 (m_txid q)] @ drop 2 b"
      using e(9,10) by (simp add: positive_reply_def)
    ultimately show ?thesis using e v k out make_cache_key_class [OF e(5) k]
      by (intro exI [of _ k] exI [of _ v] exI [of _ pad'] conjI disjI2 exI [of _ t0] exI [of _ t1] exI [of _ rq] exI [of _ r]
          exI [of _ qi] exI [of _ b]) simp_all
  qed (use k v in blast)
qed

text \<open>A server whose one authority answers every name with an address.\<close>

definition replay_hickory :: hickory where
  "replay_hickory = \<lparr>response_from_request = (\<lambda>m. m), emit = (\<lambda>r n. Some (replicate 20 5)), send_ok = (\<lambda>k r. True)\<rparr>"

definition replay_server :: "request_info handler_state" where
  "replay_server = \<lparr>hs_chain = chain_new [(''native'',
     native_authority (\<lambda>n t. Inr [\<lparr>rr_name = n, rr_ttl = 60, rr_data = RD_A [1, 2, 3, 4]\<rparr>]))], hs_cursor = 0\<rparr>"

definition sample_deployment :: deployment where
  "sample_deployment = \<lparr>dp_hickory = replay_hickory, dp_rotate = True, dp_middlewares = all_middlewares, dp_names = sample_names,
     dp_negative_ttl = 30, dp_adjust = sample_adjust\<rparr>"

abbreviation empty_maps :: xdp_maps where
  "empty_maps \<equiv> (sample_maps (sample_value True))\<lparr>DNS_CACHE := Map.empty\<rparr>"

text \<open>One request is answered at time 5 and its entry written at once; by time 1000 the clock has moved on.\<close>

definition sample_stored :: "cache_value \<Rightarrow> system" where
  "sample_stored v = \<lparr>sy_now = 1000, sy_maps = empty_maps\<lparr>DNS_CACHE := [sample_key \<mapsto> v]\<rparr>, sy_logs = [], sy_tasks = [Tk_done],
     sy_sent = map (\<lambda>r. (5, sample_request, r)) (sent_responses (request_events sample_deployment replay_server sample_request))\<rparr>"

lemma sample_stored_run:
  assumes "v = new_positive (replicate 20 5) 60000000005"
  shows "sys_run sample_deployment (sys_init 5 empty_maps) (sample_stored v)"
proof -
  let ?D = sample_deployment and ?oc = "outcome_success ''native'' 1 (Some (replicate 20 5)) (Some 60)"
  let ?s = "\<lambda>t ts sent. \<lparr>sy_now = t, sy_maps = empty_maps, sy_logs = [], sy_tasks = ts, sy_sent = sent\<rparr>"
  let ?h = "sy_sent (sample_stored v)"
  have fin: "list_ex (\<lambda>e. e = Ev_finish ?oc) (request_events ?D replay_server sample_request)" by code_simp
  have entry: "hook_entry 30 5 (query_info_of sample_names sample_request) ?oc =
      Some (Hook_insert sample_key (new_positive (replicate 20 5) 60000000005))" by code_simp
  have "sys_step ?D (sys_init 5 empty_maps) (?s 5 [Tk_request sample_request] [])"
    using sys_step.Arrive [of ?D "sys_init 5 empty_maps" sample_request] by (simp add: sys_init_def)
  moreover have "sys_step ?D (?s 5 [Tk_request sample_request] []) (?s 5 [Tk_hook sample_request ?oc] ?h)"
    using sys_step.Answer [of 0 "?s 5 [Tk_request sample_request] []" sample_request _ ?D replay_server ?oc] fin
    by (simp add: sample_stored_def list_ex_iff)
  moreover have "sys_step ?D (?s 5 [Tk_hook sample_request ?oc] ?h) (?s 5 [Tk_insert sample_key v] ?h)"
    using sys_step.Hook [of 0 "?s 5 [Tk_hook sample_request ?oc] ?h" sample_request ?oc ?D sample_key v] entry
    by (simp add: sample_deployment_def assms)
  moreover have "sys_step ?D (?s 5 [Tk_insert sample_key v] ?h) ((sample_stored v)\<lparr>sy_now := 5\<rparr>)"
    using sys_step.Insert [of 0 "?s 5 [Tk_insert sample_key v] ?h" sample_key v _ "\<lambda>_. False" True ?D]
    by (simp add: sample_stored_def hook_write_def lru_insert_def fun_upd_def cong: if_cong)
  moreover have "sys_step ?D ((sample_stored v)\<lparr>sy_now := 5\<rparr>) (sample_stored v)"
    using sys_step.Tick [of "(sample_stored v)\<lparr>sy_now := 5\<rparr>" 1000 ?D] by (simp add: sample_stored_def)
  ultimately show ?thesis by (meson rtranclp.rtrancl_into_rtrancl rtranclp.rtrancl_refl)
qed

theorem no_stale_answers_witness:
  "\<exists>s pad'. sys_run sample_deployment (sys_init 5 empty_maps) s \<and> sy_now s = 1000 \<and>
     map_option (\<lambda>(a, out, _). (a, out)) (dns_xdp sample_adjust 1000 (sy_maps s) (hdr_bytes sample_hdr @ msg_bytes sample_msg @ [])) =
       Some (XDP_TX, hdr_bytes (reply_hdr sample_hdr 20) @ ([0xAB, 0xCD] @ replicate 18 5) @ pad')"
proof -
  define v where "v = new_positive (replicate 20 5) 60000000005"
  let ?f = "hdr_bytes sample_hdr @ msg_bytes sample_msg @ []" and ?s = "sample_stored v"
  have run: "sys_run sample_deployment (sys_init 5 empty_maps) ?s" using v_def by (rule sample_stored_run)
  have q: "query_frame_ok (sy_maps ?s) sample_hdr sample_msg"
    using sample_facts(1) [of "sample_value True"] by (simp add: query_frame_ok_def sample_stored_def)
  have "map_option fst (dns_xdp sample_adjust 1000 (sy_maps (sample_stored (new_positive (replicate 20 5) 60000000005))) ?f) = Some XDP_TX"
    by code_simp
  then obtain out logs m' where tx: "dns_xdp sample_adjust 1000 (sy_maps ?s) ?f = Some (XDP_TX, out, logs, m')"
    by (auto simp: v_def)
  have [simp]: "dp_adjust sample_deployment = sample_adjust" "dp_hickory sample_deployment = replay_hickory" "sy_now ?s = 1000"
    by (simp_all add: sample_deployment_def sample_stored_def)
  have code: "list_all (\<lambda>(t, rq, r). md_code (rs_metadata r) = NoError) (sy_sent ?s)" unfolding sample_stored_def system.simps by code_simp
  have txid: "[hi8 (m_txid sample_msg), lo8 (m_txid sample_msg)] = [0xAB, 0xCD]" by code_simp
  from no_stale_answers [of sample_deployment 5 empty_maps ?s sample_hdr sample_msg "[]" out logs m'] run q tx
  obtain t0 rq r b pad' where r: "(t0, rq, r) \<in> set (sy_sent ?s)" "emit replay_hickory r (max_message_size (rq_protocol rq) (rq_max_payload rq)) = Some b"
    "out = (if md_code (rs_metadata r) = NXDomain
        then hdr_bytes (reply_hdr sample_hdr (length (negative_reply sample_msg))) @ negative_reply sample_msg @ pad'
        else hdr_bytes (reply_hdr sample_hdr (length b)) @ ([hi8 (m_txid sample_msg), lo8 (m_txid sample_msg)] @ drop 2 b) @ pad')"
    by (auto simp: cache_wf_def sample_adjust_adjusted)
  have "md_code (rs_metadata r) = NoError" using r(1) code by (auto simp: list_all_iff)
  moreover have "b = replicate 20 5" using r(2) by (simp add: replay_hickory_def)
  ultimately have "out = hdr_bytes (reply_hdr sample_hdr 20) @ ([0xAB, 0xCD] @ replicate 18 5) @ pad'"
    using r(3) txid by simp
  with run tx show ?thesis by (intro exI [of _ ?s] exI [of _ pad']) simp
qed

end
