(* ===== verification/Otlp_Profile_Task.thy ===== *)
theory Otlp_Profile_Task
  imports Otlp_Runtime
begin

text \<open>
  The profiler at run time (\<open>doggy-dns-observability/src/profiles/mod.rs\<close>): the stop signal between the runtime and the
  collecting thread, one collection, and the loop that posts what was collected. The stop signal is a flag under a
  mutex with a condition variable; its two threads run access by access, in any interleaving with each other,
  the clock and spurious wake-ups. The pprof profiler, the protobuf encoder and the HTTP client are arguments.
\<close>

section \<open>The stop signal, access by access\<close>

datatype party = Waiter | Stopper

text \<open>Where the two threads stand. \<open>W_lock\<close> is also where a woken waiter takes the mutex again; between \<open>W_check\<close> and
  \<open>W_park\<close> the waiter holds it, and so does the stopper between \<open>S_locked\<close> and \<open>S_notified\<close>.\<close>

datatype wait_pc = W_begin | W_lock | W_check | W_left | W_park nat | W_sleep nat | W_done bool
datatype stop_pc = S_begin | S_locked | S_set | S_notified | S_done

record stopper =
  sp_stopped :: bool
  sp_holder :: "party option"
  sp_now :: nat
  sp_duration :: nat
  sp_deadline :: nat
  sp_wait :: wait_pc
  sp_stop :: stop_pc
  sp_seen :: "(bool \<times> nat) list"

definition stopper_new :: "nat \<Rightarrow> nat \<Rightarrow> stopper" where
  "stopper_new now duration = \<lparr>sp_stopped = False, sp_holder = None, sp_now = now, sp_duration = duration, sp_deadline = 0,
     sp_wait = W_begin, sp_stop = S_begin, sp_seen = []\<rparr>"

text \<open>One access of the waiting thread; \<^term>\<open>None\<close> is a thread that is blocked or has returned. A poisoned mutex is taken all
  the same, so the lock has no error. \<open>sp_seen\<close> is the history of what the loop condition read.\<close>

definition wait_step :: "stopper \<Rightarrow> stopper option" where
  "wait_step s = (case sp_wait s of
       W_begin \<Rightarrow> Some (s\<lparr>sp_deadline := sp_now s + sp_duration s, sp_wait := W_lock\<rparr>)
     | W_lock \<Rightarrow> if sp_holder s = None then Some (s\<lparr>sp_holder := Some Waiter, sp_wait := W_check\<rparr>) else None
     | W_check \<Rightarrow> if sp_stopped s
         then Some (s\<lparr>sp_holder := None, sp_wait := W_done True, sp_seen := sp_seen s @ [(True, sp_deadline s - sp_now s)]\<rparr>)
         else Some (s\<lparr>sp_wait := W_left\<rparr>)
     | W_left \<Rightarrow> let remaining = sp_deadline s - sp_now s; s' = s\<lparr>sp_seen := sp_seen s @ [(False, remaining)]\<rparr> in
         if remaining = 0 then Some (s'\<lparr>sp_holder := None, sp_wait := W_done False\<rparr>)
         else Some (s'\<lparr>sp_wait := W_park remaining\<rparr>)
     | W_park remaining \<Rightarrow> Some (s\<lparr>sp_holder := None, sp_wait := W_sleep (sp_now s + remaining)\<rparr>)
     | W_sleep until \<Rightarrow> if until \<le> sp_now s then Some (s\<lparr>sp_wait := W_lock\<rparr>) else None
     | W_done _ \<Rightarrow> None)"

definition wake :: "wait_pc \<Rightarrow> wait_pc" where
  "wake pc = (case pc of W_sleep _ \<Rightarrow> W_lock | other \<Rightarrow> other)"

definition stop_step :: "stopper \<Rightarrow> stopper option" where
  "stop_step s = (case sp_stop s of
       S_begin \<Rightarrow> if sp_holder s = None then Some (s\<lparr>sp_holder := Some Stopper, sp_stop := S_locked\<rparr>) else None
     | S_locked \<Rightarrow> Some (s\<lparr>sp_stopped := True, sp_stop := S_set\<rparr>)
     | S_set \<Rightarrow> Some (s\<lparr>sp_wait := wake (sp_wait s), sp_stop := S_notified\<rparr>)
     | S_notified \<Rightarrow> Some (s\<lparr>sp_holder := None, sp_stop := S_done\<rparr>)
     | S_done \<Rightarrow> None)"

text \<open>A schedule: who moves next. A thread that cannot move stays where it is.\<close>

datatype actor = Run_waiter | Run_stopper | Spurious_wake | Pass_time nat

definition act :: "actor \<Rightarrow> stopper \<Rightarrow> stopper" where
  "act a s = (case a of
       Run_waiter \<Rightarrow> (case wait_step s of Some s' \<Rightarrow> s' | None \<Rightarrow> s)
     | Run_stopper \<Rightarrow> (case stop_step s of Some s' \<Rightarrow> s' | None \<Rightarrow> s)
     | Spurious_wake \<Rightarrow> s\<lparr>sp_wait := wake (sp_wait s)\<rparr>
     | Pass_time n \<Rightarrow> s\<lparr>sp_now := sp_now s + n\<rparr>)"

abbreviation schedule :: "actor list \<Rightarrow> stopper \<Rightarrow> stopper" where
  "schedule \<equiv> fold act"

text \<open>What the loop of \<open>wait\<close> returns for a history of what it read: a stop requested, or the time left.\<close>

fun stopper_wait :: "(bool \<times> nat) list \<Rightarrow> bool option" where
  "stopper_wait [] = None"
| "stopper_wait ((stopped, remaining) # wakes) =
     (if stopped then Some True else if remaining = 0 then Some False else stopper_wait wakes)"

section \<open>Collecting and exporting profiles\<close>

record pprof_symbol =
  pp_name :: string
  pp_sys_name :: string
  pp_filename :: string
  pp_lineno :: u32
  pp_addr :: "u64 option"

text \<open>A start before the epoch has no distance from it.\<close>

record pprof_report =
  rp_data :: "((pprof_symbol list list \<times> string) \<times> int) list"
  rp_start_nanos :: "nat option"
  rp_duration_nanos :: nat
  rp_frequency :: int

definition to_sample :: "(pprof_symbol list list \<times> string) \<times> int \<Rightarrow> profile_sample" where
  "to_sample = (\<lambda>((frames, thread), n). \<lparr>
     smp_frames = map (\<lambda>frame. \<lparr>fr_symbols = map (\<lambda>s. \<lparr>sym_name = pp_name s, sym_system_name = pp_sys_name s,
        sym_filename = pp_filename s, sym_line = uint (pp_lineno s),
        sym_address = (case pp_addr s of Some a \<Rightarrow> a | None \<Rightarrow> 0)\<rparr>) frame\<rparr>) frames,
     smp_count = n, smp_thread_name = Some thread\<rparr>)"

text \<open>One collection: the profiler may not start, the wait ends in a stop, or the report may not build. On other systems
  there is no profiler.\<close>

definition collect_profile ::
  "bool \<Rightarrow> bool \<Rightarrow> pprof_report option \<Rightarrow> (string, collected_profile option) result" where
  "collect_profile started stopped report =
     (if \<not> started then Inl ''failed to start pprof profiler''
      else if stopped then Inr None
      else (case report of
              None \<Rightarrow> Inl ''failed to build pprof report''
            | Some r \<Rightarrow> Inr (Some \<lparr>cp_samples = map to_sample (rp_data r),
                cp_time_unix_nano = of_nat (case rp_start_nanos r of Some t \<Rightarrow> t | None \<Rightarrow> 0),
                cp_duration_nano = of_nat (rp_duration_nanos r), cp_frequency = rp_frequency r\<rparr>)))"

definition collect_profile_unsupported :: "(string, collected_profile option) result" where
  "collect_profile_unsupported = Inl ''CPU profiles are only supported on Linux and macOS''"

datatype post_result = Post_answered nat "string option" | Post_error

text \<open>What the task sees on one tick: the collection's result, or \<^term>\<open>None\<close> when the blocking task
  itself failed; the clock when the request is built; and what the post came to.\<close>

record tick =
  tk_collected :: "(string, collected_profile option) result option"
  tk_now :: u64
  tk_post :: post_result

datatype 'r task_effect =
    Posted string headers "'r export_request"
  | Warn_collect string
  | Warn_join
  | Debug_empty
  | Debug_exported nat string
  | Warn_rejected nat string string
  | Warn_export_failed string

definition is_success :: "nat \<Rightarrow> bool" where
  "is_success status = (200 \<le> status \<and> status < 300)"

definition export_effects ::
  "('r export_request \<Rightarrow> bytes) \<Rightarrow> exporter \<Rightarrow> 'r export_request \<Rightarrow> post_result \<Rightarrow> 'r task_effect list" where
  "export_effects encode x rq post = Posted (xp_url x) (xp_headers x) rq # [case post of
       Post_answered status body \<Rightarrow>
         if is_success status then Debug_exported (length (encode rq)) (xp_url x)
         else Warn_rejected status (take 512 (case body of Some b \<Rightarrow> b | None \<Rightarrow> [])) (xp_url x)
     | Post_error \<Rightarrow> Warn_export_failed (xp_url x)]"

text \<open>The task's loop: what it posts and logs, in order, and whether it stopped.\<close>

fun profile_task ::
  "('r export_request \<Rightarrow> bytes) \<Rightarrow> exporter \<Rightarrow> string \<Rightarrow> 'r \<Rightarrow> tick list \<Rightarrow> u64 \<Rightarrow> 'r task_effect list \<times> bool \<times> u64" where
  "profile_task encode x version res [] n = ([], False, n)"
| "profile_task encode x version res (t # ticks) n = (case tk_collected t of
       None \<Rightarrow> let (ef, stop, n') = profile_task encode x version res ticks n in (Warn_join # ef, stop, n')
     | Some (Inl e) \<Rightarrow> let (ef, stop, n') = profile_task encode x version res ticks n in (Warn_collect e # ef, stop, n')
     | Some (Inr None) \<Rightarrow> ([], True, n)
     | Some (Inr (Some c)) \<Rightarrow>
         if cp_samples c = [] then
           let (ef, stop, n') = profile_task encode x version res ticks n in (Debug_empty # ef, stop, n')
         else
           let (rq, n1) = build_export_request version (tk_now t) res c n;
               (ef, stop, n') = profile_task encode x version res ticks n1
           in (export_effects encode x rq (tk_post t) @ ef, stop, n'))"

section \<open>A stop is seen\<close>

text \<open>Inside the critical section; past the loop condition, where only a notification or the clock helps.\<close>

primrec waiter_inside :: "wait_pc \<Rightarrow> bool" where
  "waiter_inside W_begin = False" | "waiter_inside W_lock = False" | "waiter_inside W_check = True" | "waiter_inside W_left = True"
| "waiter_inside (W_park r) = True" | "waiter_inside (W_sleep u) = False" | "waiter_inside (W_done b) = False"

primrec past_check :: "wait_pc \<Rightarrow> bool" where
  "past_check W_begin = False" | "past_check W_lock = False" | "past_check W_check = False" | "past_check W_left = True"
| "past_check (W_park r) = True" | "past_check (W_sleep u) = True" | "past_check (W_done b) = False"

definition stopper_inv :: "stopper \<Rightarrow> bool" where
  "stopper_inv s = (
     (sp_holder s = Some Waiter) = waiter_inside (sp_wait s) \<and>
     (sp_holder s = Some Stopper) = (sp_stop s \<in> {S_locked, S_set, S_notified}) \<and>
     sp_stopped s = (sp_stop s \<in> {S_set, S_notified, S_done}) \<and>
     (sp_stop s \<in> {S_notified, S_done} \<longrightarrow> \<not> past_check (sp_wait s)) \<and>
     (sp_wait s = W_left \<longrightarrow> \<not> sp_stopped s) \<and>
     stopper_wait (sp_seen s) = (case sp_wait s of W_done b \<Rightarrow> Some b | _ \<Rightarrow> None) \<and>
     (sp_wait s = W_done True \<longrightarrow> sp_stopped s) \<and> (sp_wait s = W_done False \<longrightarrow> sp_deadline s \<le> sp_now s))"

lemma stopper_wait_append:
  "stopper_wait (xs @ ys) = (case stopper_wait xs of Some b \<Rightarrow> Some b | None \<Rightarrow> stopper_wait ys)"
  by (induction xs rule: stopper_wait.induct) auto

lemma wait_step_inv: "stopper_inv s \<Longrightarrow> wait_step s = Some s' \<Longrightarrow> stopper_inv s'"
  by (cases "sp_wait s"; cases "sp_stop s")
    (clarsimp simp: stopper_inv_def wait_step_def Let_def stopper_wait_append split: if_splits)+

lemma stop_step_inv: "stopper_inv s \<Longrightarrow> stop_step s = Some s' \<Longrightarrow> stopper_inv s'"
  by (cases "sp_wait s"; cases "sp_stop s") (clarsimp simp: stopper_inv_def stop_step_def wake_def split: if_splits)+

lemma time_inv: "stopper_inv s \<Longrightarrow> stopper_inv (s\<lparr>sp_now := sp_now s + n\<rparr>)"
  by (auto simp: stopper_inv_def)

lemma wake_inv: "stopper_inv s \<Longrightarrow> stopper_inv (s\<lparr>sp_wait := wake (sp_wait s)\<rparr>)"
  by (cases "sp_wait s") (auto simp: stopper_inv_def wake_def)

lemma act_inv: "stopper_inv s \<Longrightarrow> stopper_inv (act a s)"
  by (cases a) (auto simp: act_def intro: wait_step_inv stop_step_inv time_inv wake_inv split: option.split)

lemma schedule_inv: "stopper_inv s \<Longrightarrow> stopper_inv (schedule as s)"
  by (induction as arbitrary: s) (auto simp: act_inv)

lemma inv_returned:
  assumes "stopper_inv s"
  shows "sp_wait s = W_done b \<Longrightarrow> stopper_wait (sp_seen s) = Some b" "sp_wait s = W_done False \<Longrightarrow> sp_deadline s \<le> sp_now s"
  using assms by (simp_all add: stopper_inv_def)

lemma stopper_new_inv: "stopper_inv (stopper_new now d)"
  by (auto simp: stopper_inv_def stopper_new_def)

text \<open>Accesses the waiter has left once the flag is up and everyone was notified.\<close>

definition accesses_left :: "stopper \<Rightarrow> nat" where
  "accesses_left s = (case sp_wait s of W_begin \<Rightarrow> 3 | W_lock \<Rightarrow> 2 | W_check \<Rightarrow> 1 | _ \<Rightarrow> 0)"

lemma holder_cases: "h = None \<or> h = Some Waiter \<or> h = Some Stopper"
  by (metis not_None_eq party.exhaust)

lemma stopped_waiter:
  assumes "stopper_inv s" and "sp_stop s = S_done"
  obtains "sp_wait s = W_begin" | "sp_wait s = W_lock" "sp_holder s = None" | "sp_wait s = W_check" | b where "sp_wait s = W_done b"
proof (cases "sp_wait s")
  case W_lock
  with assms have "sp_holder s \<noteq> Some Waiter" "sp_holder s \<noteq> Some Stopper" by (auto simp: stopper_inv_def)
  then have "sp_holder s = None" using holder_cases by blast
  with W_lock that show thesis by blast
qed (use assms that in \<open>auto simp: stopper_inv_def\<close>)

lemma act_stopped:
  assumes "stopper_inv s" and "sp_stop s = S_done"
  shows "sp_stop (act a s) = S_done \<and> accesses_left (act a s) = accesses_left s - (if a = Run_waiter then 1 else 0) \<and>
    (sp_wait (act a s) = W_done False \<longrightarrow> sp_wait s = W_done False)"
proof -
  have "sp_stopped s" using assms by (simp add: stopper_inv_def)
  with assms show ?thesis
    by (cases rule: stopped_waiter; cases a)
      (simp_all add: act_def wait_step_def stop_step_def wake_def accesses_left_def)
qed

lemma schedule_stopped:
  "stopper_inv s \<Longrightarrow> sp_stop s = S_done \<Longrightarrow> sp_stop (schedule bs s) = S_done \<and>
     accesses_left (schedule bs s) = accesses_left s - count_list bs Run_waiter \<and>
     (sp_wait (schedule bs s) = W_done False \<longrightarrow> sp_wait s = W_done False)"
proof (induction bs arbitrary: s)
  case (Cons b bs)
  show ?case using Cons.IH [of "act b s"] act_stopped [OF Cons.prems, of b] act_inv [OF Cons.prems(1), of b] by auto
qed simp

text \<open>C38. A stop is never lost: once \<open>stop\<close> has returned, the collecting thread is never blocked again, whatever the clock
  and spurious wake-ups do, and returns after at most three more accesses of its own, with true unless it had
  already timed out. What it returns is what its loop computes from what it read, it returns true only after a stop
  and false only after its deadline.\<close>

theorem stop_wakes_collector:
  assumes "sp_stop (schedule as (stopper_new now d)) = S_done" and "3 \<le> count_list bs Run_waiter"
  shows "\<exists>b. sp_wait (schedule (as @ bs) (stopper_new now d)) = W_done b \<and>
    stopper_wait (sp_seen (schedule (as @ bs) (stopper_new now d))) = Some b \<and>
    (b \<or> sp_wait (schedule as (stopper_new now d)) = W_done False \<and>
      sp_deadline (schedule as (stopper_new now d)) \<le> sp_now (schedule as (stopper_new now d)))"
proof -
  let ?s = "schedule as (stopper_new now d)"
  have i: "stopper_inv ?s" by (rule schedule_inv [OF stopper_new_inv])
  have j: "stopper_inv (schedule bs ?s)" by (rule schedule_inv [OF i])
  have "accesses_left ?s \<le> 3" by (simp add: accesses_left_def split: wait_pc.split)
  with schedule_stopped [OF i assms(1), of bs] assms(2)
  have l: "accesses_left (schedule bs ?s) = 0" "sp_stop (schedule bs ?s) = S_done"
    and f: "sp_wait (schedule bs ?s) = W_done False \<longrightarrow> sp_wait ?s = W_done False" by auto
  obtain b where b: "sp_wait (schedule bs ?s) = W_done b"
    by (rule stopped_waiter [OF j l(2)]) (use l(1) in \<open>simp_all add: accesses_left_def\<close>)
  have "b \<or> sp_wait ?s = W_done False \<and> sp_deadline ?s \<le> sp_now ?s"
    using f b inv_returned(2) [OF i] by (cases b) simp_all
  with b inv_returned(1) [OF j b] show ?thesis by simp
qed

theorem stop_wakes_collector_witness:
  "let before = [Run_waiter, Run_waiter, Run_waiter, Run_waiter, Run_waiter, Run_stopper, Run_stopper, Run_stopper, Run_stopper];
       after = [Run_waiter, Spurious_wake, Run_waiter, Pass_time 1, Run_waiter] in
   sp_wait (schedule (take 5 before) (stopper_new 0 30)) = W_sleep 30 \<and> sp_wait (schedule (before @ after) (stopper_new 0 30)) = W_done True"
proof -
  let ?before = "[Run_waiter, Run_waiter, Run_waiter, Run_waiter, Run_waiter, Run_stopper, Run_stopper, Run_stopper, Run_stopper]"
  let ?after = "[Run_waiter, Spurious_wake, Run_waiter, Pass_time 1, Run_waiter]"
  have "sp_stop (schedule ?before (stopper_new 0 30)) = S_done" by code_simp
  moreover have "sp_wait (schedule ?before (stopper_new 0 30)) = W_lock" by code_simp
  moreover have "sp_wait (schedule (take 5 ?before) (stopper_new 0 30)) = W_sleep 30" by code_simp
  ultimately show ?thesis using stop_wakes_collector [of ?before 0 30 ?after] by auto
qed

text \<open>And the stopping thread is not starved: it waits only for a waiter inside its critical section, which leaves it within
  three accesses.\<close>

lemma leaves_park: "sp_wait s = W_park r \<Longrightarrow> sp_holder (act Run_waiter s) = None"
  by (simp add: act_def wait_step_def)

lemma leaves_left: "sp_wait s = W_left \<Longrightarrow> \<exists>n \<le> 1. sp_holder ((act Run_waiter ^^ Suc n) s) = None"
proof (cases "sp_deadline s - sp_now s = 0")
  case True
  assume "sp_wait s = W_left"
  with True have "sp_holder (act Run_waiter s) = None" by (simp add: act_def wait_step_def Let_def)
  then show ?thesis by (intro exI [of _ 0]) simp
next
  case False
  assume "sp_wait s = W_left"
  with False have "sp_wait (act Run_waiter s) = W_park (sp_deadline s - sp_now s)" by (simp add: act_def wait_step_def Let_def)
  from leaves_park [OF this] show ?thesis by (intro exI [of _ 1]) simp
qed

lemma leaves_check: "sp_wait s = W_check \<Longrightarrow> \<exists>n \<le> 2. sp_holder ((act Run_waiter ^^ Suc n) s) = None"
proof (cases "sp_stopped s")
  case True
  assume "sp_wait s = W_check"
  with True have "sp_holder (act Run_waiter s) = None" by (simp add: act_def wait_step_def)
  then show ?thesis by (intro exI [of _ 0]) simp
next
  case False
  assume "sp_wait s = W_check"
  with False have "sp_wait (act Run_waiter s) = W_left" by (simp add: act_def wait_step_def)
  from leaves_left [OF this] obtain n where "n \<le> 1" "sp_holder ((act Run_waiter ^^ Suc n) (act Run_waiter s)) = None" by blast
  then have "sp_holder ((act Run_waiter ^^ Suc (Suc n)) s) = None" by (simp add: funpow_swap1)
  with \<open>n \<le> 1\<close> show ?thesis by (intro exI [of _ "Suc n"]) simp
qed

lemma stop_not_starved:
  assumes "stopper_inv s" and "stop_step s = None" and "sp_stop s \<noteq> S_done"
  shows "\<exists>n \<le> 3. sp_holder ((act Run_waiter ^^ n) s) = None"
proof -
  have "sp_stop s = S_begin" "sp_holder s \<noteq> None" using assms(2,3) by (auto simp: stop_step_def split: stop_pc.splits if_splits)
  then have "sp_holder s = Some Waiter" using assms(1) holder_cases [of "sp_holder s"] by (auto simp: stopper_inv_def)
  then have "waiter_inside (sp_wait s)" using assms(1) by (simp add: stopper_inv_def)
  then consider "sp_wait s = W_check" | "sp_wait s = W_left" | r where "sp_wait s = W_park r"
    by (cases "sp_wait s") simp_all
  then obtain n where "n \<le> 2" "sp_holder ((act Run_waiter ^^ Suc n) s) = None"
  proof cases
    case 2
    with leaves_left that show thesis by (metis le_trans one_le_numeral)
  next
    case 3
    with leaves_park [of s] that [of 0] show thesis by simp
  qed (use leaves_check in blast)
  then show ?thesis by (intro exI [of _ "Suc n"]) simp
qed

section \<open>What the task posts\<close>

definition posted :: "'r task_effect list \<Rightarrow> 'r export_request list" where
  "posted ef = concat (map (\<lambda>e. case e of Posted _ _ rq \<Rightarrow> [rq] | _ \<Rightarrow> []) ef)"

lemma posted_simps [simp]:
  "posted [] = []" "posted (xs @ ys) = posted xs @ posted ys"
  "posted (e # ef) = (case e of Posted _ _ rq \<Rightarrow> [rq] | _ \<Rightarrow> []) @ posted ef"
  by (simp_all add: posted_def)

lemma posted_export [simp]: "posted (export_effects encode x rq post) = [rq]"
  by (simp add: export_effects_def split: post_result.split)

definition profile_id :: "'r export_request \<Rightarrow> bytes" where
  "profile_id rq = pr_profile_id (hd (rq_profiles rq))"

lemma build_export_request_id:
  "build_export_request version now res c n = (rq, n') \<Longrightarrow>
     profile_id rq = fst (new_profile_id now n) \<and> n' = n + 1"
  by (auto simp: build_export_request_def profile_id_def new_profile_id_def Let_def split: prod.splits)

lemma profile_task_ids:
  "profile_task encode x version res ticks n = (ef, stop, n') \<Longrightarrow>
     \<exists>ts. length ts = length (posted ef) \<and>
       map profile_id (posted ef) = map (\<lambda>i. fst (new_profile_id (ts ! i) (n + of_nat i))) [0..<length (posted ef)]"
proof (induction encode x version res ticks n arbitrary: ef stop n' rule: profile_task.induct)
  case (2 encode x version res t ticks n)
  consider (export) c where "tk_collected t = Some (Inr (Some c))" "cp_samples c \<noteq> []"
    | (skip) e ef0 where "profile_task encode x version res ticks n = (ef0, stop, n')" "ef = e # ef0"
        "e \<in> {Warn_join, Debug_empty} \<union> range Warn_collect"
        "tk_collected t = None \<or> (\<exists>e. tk_collected t = Some (Inl e)) \<or> (\<exists>c. tk_collected t = Some (Inr (Some c)) \<and> cp_samples c = [])"
    | (stop) "ef = []"
    using 2(5) by (auto split: option.splits sum.splits prod.splits if_splits)
  then show ?case
  proof cases
    case (export c)
    obtain rq n1 where b: "build_export_request version (tk_now t) res c n = (rq, n1)" by force
    obtain ef' stop' n2 where r: "profile_task encode x version res ticks n1 = (ef', stop', n2)" by (metis prod_cases3)
    have p: "posted ef = rq # posted ef'" using 2(5) export b r by auto
    note id = build_export_request_id [OF b]
    obtain ts where ts: "length ts = length (posted ef')"
      "map profile_id (posted ef') = map (\<lambda>i. fst (new_profile_id (ts ! i) (n1 + of_nat i))) [0..<length (posted ef')]"
      using 2(4) [OF export(1) refl refl export(2) b [symmetric] refl r] by auto
    show ?thesis
      by (rule exI [of _ "tk_now t # ts"])
        (use ts id in \<open>simp add: p map_upt_Suc ac_simps del: upt_Suc\<close>)
  next
    case (skip e ef0)
    then have "posted ef = posted ef0" by auto
    then show ?thesis using skip(1,4) 2(1-3) by auto
  qed simp
qed simp

text \<open>The identifiers of the profiles one task posts are pairwise different, whatever the clock did between
  them, for as long as the 64-bit sequence has not come round.\<close>

theorem profile_ids_never_repeat:
  assumes "profile_task encode x version res ticks n = (ef, stop, n')" and "length (posted ef) \<le> 2 ^ 64"
  shows "distinct (map profile_id (posted ef))"
proof -
  let ?n = "length (posted ef)"
  obtain ts where ids: "map profile_id (posted ef) = map (\<lambda>i. fst (new_profile_id (ts ! i) (n + of_nat i))) [0..<?n]"
    using profile_task_ids [OF assms(1)] by blast
  have "inj_on (\<lambda>i. fst (new_profile_id (ts ! i) (n + of_nat i))) {0..<?n}"
  proof (rule inj_onI)
    fix i j assume ij: "i \<in> {0..<?n}" "j \<in> {0..<?n}"
      and "fst (new_profile_id (ts ! i) (n + of_nat i)) = fst (new_profile_id (ts ! j) (n + of_nat j))"
    then have "n + of_nat i = n + of_nat j" using profile_ids_distinct by blast
    then have "(of_nat i :: u64) = of_nat j" by simp
    moreover have "i < 2 ^ LENGTH(64)" "j < 2 ^ LENGTH(64)" using ij assms(2) by auto
    ultimately show "i = j" by (metis of_nat_inverse)
  qed
  then show ?thesis by (simp add: ids distinct_map)
qed

lemma stopped_task_exports_nothing:
  "tk_collected t = Some (Inr None) \<Longrightarrow>
   profile_task encode x version res (ticks @ t # rest) n = profile_task encode x version res (ticks @ [t]) n"
  by (induction encode x version res ticks n rule: profile_task.induct)
    (auto split: option.splits sum.splits prod.splits)

text \<open>A collection that was stopped ends the task; one that fails, on a system without a profiler at every tick, is a warning
  and nothing else.\<close>

lemma unsupported_task:
  "\<forall>t \<in> set ticks. tk_collected t = Some collect_profile_unsupported \<Longrightarrow>
   profile_task encode x version res ticks n =
     (replicate (length ticks) (Warn_collect ''CPU profiles are only supported on Linux and macOS''), False, n)"
  by (induction ticks) (auto simp: collect_profile_unsupported_def)

lemma stopped_collection: "stopper_wait seen = Some True \<Longrightarrow> collect_profile True (stopper_wait seen = Some True) report = Inr None"
  by (simp add: collect_profile_def)

end
