(* ===== verification/Basic_Debug.thy ===== *)
theory Basic_Debug
  imports Basic_Config
begin

text \<open>
  The hand-written \<open>Debug\<close> printers of \<open>crates/doggy-dns-basic/src/observability.rs\<close>, which keep secrets out of the
  logs. A printed value is a tree, as the formatter builds it; the printers of the inner sections are the
  derived ones.
\<close>

datatype debug_value =
    D_struct string "(string \<times> debug_value) list"
  | D_bool bool
  | D_num int
  | D_f64 f64
  | D_str string
  | D_variant string
  | D_none
  | D_some debug_value
  | D_list "debug_value list"
  | D_map "(string \<times> debug_value) list"

definition debug_option :: "('a \<Rightarrow> debug_value) \<Rightarrow> 'a option \<Rightarrow> debug_value" where
  "debug_option f x = (case x of None \<Rightarrow> D_none | Some y \<Rightarrow> D_some (f y))"

definition debug_backend :: "observability_backend \<Rightarrow> debug_value" where
  "debug_backend b = D_variant (case b of OpenObserve \<Rightarrow> ''OpenObserve'' | OtelCollector \<Rightarrow> ''OtelCollector''
     | Vector_Backend \<Rightarrow> ''Vector'' | Custom \<Rightarrow> ''Custom'')"

definition debug_protocol :: "observability_protocol \<Rightarrow> debug_value" where
  "debug_protocol p = D_variant ''HttpProtobuf''"

definition debug_temporality :: "metrics_temporality \<Rightarrow> debug_value" where
  "debug_temporality t = D_variant (case t of Cumulative \<Rightarrow> ''Cumulative'' | Delta \<Rightarrow> ''Delta'')"

definition debug_logs :: "logs_config \<Rightarrow> debug_value" where
  "debug_logs c = D_struct ''LogsConfig'' [(''enabled'', D_bool (logs_enabled c)), (''level'', D_str (logs_level c)),
     (''stdout'', D_bool (logs_stdout c)), (''endpoint'', debug_option D_str (logs_endpoint c))]"

definition debug_metrics :: "metrics_config \<Rightarrow> debug_value" where
  "debug_metrics c = D_struct ''MetricsConfig'' [(''enabled'', D_bool (metrics_enabled c)),
     (''interval_secs'', D_num (uint (metrics_interval_secs c))), (''temporality'', debug_temporality (metrics_temporality c)),
     (''endpoint'', debug_option D_str (metrics_endpoint c))]"

definition debug_traces :: "traces_config \<Rightarrow> debug_value" where
  "debug_traces c = D_struct ''TracesConfig'' [(''enabled'', D_bool (traces_enabled c)), (''sample_ratio'', D_f64 (sample_ratio c)),
     (''max_queue_size'', D_num (uint (max_queue_size c))), (''max_export_batch_size'', D_num (uint (max_export_batch_size c))),
     (''scheduled_delay_ms'', D_num (uint (scheduled_delay_ms c))), (''endpoint'', debug_option D_str (traces_endpoint c))]"

definition debug_profiles :: "profiles_config \<Rightarrow> debug_value" where
  "debug_profiles c = D_struct ''ProfilesConfig'' [(''enabled'', D_bool (profiles_enabled c)),
     (''interval_secs'', D_num (uint (profiles_interval_secs c))), (''duration_secs'', D_num (uint (profiles_duration_secs c))),
     (''frequency_hz'', D_num (sint (frequency_hz c))), (''endpoint'', debug_option D_str (profiles_endpoint c))]"

definition debug_basic_auth :: "basic_auth_config \<Rightarrow> debug_value" where
  "debug_basic_auth a = D_struct ''BasicAuthConfig'' [(''username'', D_str (ba_username a)), (''password'', D_str ''***'')]"

definition debug_observability :: "observability_config \<Rightarrow> debug_value" where
  "debug_observability c = D_struct ''ObservabilityConfig''
     [(''enabled'', D_bool (ob_enabled c)), (''backend'', debug_backend (ob_backend c)), (''endpoint'', D_str (ob_endpoint c)),
      (''protocol'', debug_protocol (ob_protocol c)), (''service_name'', debug_option D_str (ob_service_name c)),
      (''environment'', debug_option D_str (ob_environment c)), (''timeout_secs'', D_num (uint (ob_timeout_secs c))),
      (''header_names'', D_list (map (D_str \<circ> fst) (ob_headers c))),
      (''basic_auth'', debug_option debug_basic_auth (ob_basic_auth c)),
      (''resource_attributes'', D_map (map (\<lambda>(k, v). (k, D_str v)) (ob_resource_attributes c))),
      (''logs'', debug_logs (ob_logs c)), (''metrics'', debug_metrics (ob_metrics c)), (''traces'', debug_traces (ob_traces c)),
      (''profiles'', debug_profiles (ob_profiles c))]"

section \<open>What is hidden\<close>

text \<open>A section without its secrets: the values of the headers and the password.\<close>

definition without_secrets :: "observability_config \<Rightarrow> observability_config" where
  "without_secrets c = c\<lparr>ob_headers := map (\<lambda>(k, _). (k, [])) (ob_headers c),
     ob_basic_auth := map_option (\<lambda>a. a\<lparr>ba_password := []\<rparr>) (ob_basic_auth c)\<rparr>"

lemma debug_option_inj: "(\<And>x y. f x = f y \<longleftrightarrow> g x = g y) \<Longrightarrow> debug_option f a = debug_option f b \<longleftrightarrow> map_option g a = map_option g b"
  by (cases a; cases b) (simp_all add: debug_option_def)

lemma debug_option_str [simp]: "debug_option D_str a = debug_option D_str b \<longleftrightarrow> a = b"
  using debug_option_inj [of D_str "\<lambda>x. x" a b] by (simp add: option.map_ident)

lemma num_inj [simp]: "D_num (uint (a :: u64)) = D_num (uint b) \<longleftrightarrow> a = b" "D_num (sint (c :: i32)) = D_num (sint d) \<longleftrightarrow> c = d"
proof -
  show "D_num (uint a) = D_num (uint b) \<longleftrightarrow> a = b" using word_uint_eq_iff [of a b] by simp
  have "sint c = sint d \<longleftrightarrow> c = d" by (auto intro: signed_word_eqI)
  then show "D_num (sint c) = D_num (sint d) \<longleftrightarrow> c = d" by simp
qed

lemma debug_sections [simp]:
  "debug_backend b = debug_backend b' \<longleftrightarrow> b = b'" "debug_temporality t = debug_temporality t' \<longleftrightarrow> t = t'"
  "debug_logs l = debug_logs l' \<longleftrightarrow> l = l'" "debug_metrics m = debug_metrics m' \<longleftrightarrow> m = m'"
  "debug_traces tr = debug_traces tr' \<longleftrightarrow> tr = tr'" "debug_profiles p = debug_profiles p' \<longleftrightarrow> p = p'"
proof -
  show "debug_backend b = debug_backend b' \<longleftrightarrow> b = b'" by (cases b; cases b') (simp_all add: debug_backend_def)
  show t: "debug_temporality t = debug_temporality t' \<longleftrightarrow> t = t'" for t t' by (cases t; cases t') (simp_all add: debug_temporality_def)
  show "debug_logs l = debug_logs l' \<longleftrightarrow> l = l'" by (cases l; cases l') (auto simp: debug_logs_def)
  show "debug_metrics m = debug_metrics m' \<longleftrightarrow> m = m'" by (cases m; cases m') (auto simp: debug_metrics_def t simp del: debug_value.inject(3))
  show "debug_traces tr = debug_traces tr' \<longleftrightarrow> tr = tr'" by (cases tr; cases tr') (auto simp: debug_traces_def simp del: debug_value.inject(3))
  show "debug_profiles p = debug_profiles p' \<longleftrightarrow> p = p'" by (cases p; cases p') (auto simp: debug_profiles_def simp del: debug_value.inject(3))
qed

lemma map_same: "(\<And>x y. f x = f y \<longleftrightarrow> g x = g y) \<Longrightarrow> map f xs = map f ys \<longleftrightarrow> map g xs = map g ys"
proof (induction xs arbitrary: ys)
  case (Cons x xs)
  then show ?case by (cases ys) simp_all
qed simp

lemma header_names_inj:
  fixes xs ys :: "(string \<times> string) list"
  shows "map (D_str \<circ> fst) xs = map (D_str \<circ> fst) ys \<longleftrightarrow> map (\<lambda>(k, _). (k, [] :: string)) xs = map (\<lambda>(k, _). (k, [])) ys"
  by (rule map_same) auto

text \<open>Printing the telemetry section hides its secrets and nothing else: two sections print the same exactly when they
  differ at most in the values of their headers and in the password.\<close>

theorem debug_hides_secrets:
  "debug_observability c = debug_observability c' \<longleftrightarrow> without_secrets c = without_secrets c'"
proof -
  have basic_auth: "debug_basic_auth x = debug_basic_auth y \<longleftrightarrow> x\<lparr>ba_password := []\<rparr> = y\<lparr>ba_password := []\<rparr>" for x y
    by (cases x; cases y) (simp add: debug_basic_auth_def)
  have a: "debug_option debug_basic_auth x = debug_option debug_basic_auth y \<longleftrightarrow>
      map_option (\<lambda>a. a\<lparr>ba_password := []\<rparr>) x = map_option (\<lambda>a. a\<lparr>ba_password := []\<rparr>) y" for x y
    by (rule debug_option_inj) (rule basic_auth)
  have r: "map (\<lambda>(k, v). (k, D_str v)) xs = map (\<lambda>(k, v). (k, D_str v)) ys \<longleftrightarrow> xs = ys" for xs ys
    by (rule inj_map_eq_map) (auto simp: inj_on_def)
  have p: "x = (y :: observability_protocol)" for x y by (cases x; cases y) simp
  show ?thesis
    by (cases c; cases c') (auto simp: debug_observability_def without_secrets_def a r header_names_inj debug_protocol_def p
      simp del: debug_value.inject(3))
qed

end
