(* ===== verification/Control_Tools.thy ===== *)
theory Control_Tools
  imports Basic_Debug Startup
begin

text \<open>
  What the control plane answers (\<open>crates/doggy-dns-control/src/server.rs\<close> and \<open>transport.rs\<close>): the declared tools
  and their handlers, the server information, the two probes, and a request from its route to its body. The MCP
  protocol of the \<open>rmcp\<close> crate is an argument that is given the server's handlers and nothing else of the
  server. The process state the live signals read is of any type.
\<close>

section \<open>The MCP server\<close>

record 's doggy_mcp_server =
  srv_state :: mcp_state
  srv_live :: "'s live_state"

definition mcp_server_new :: "mcp_state \<Rightarrow> 's live_state \<Rightarrow> 's doggy_mcp_server" where
  "mcp_server_new state live = \<lparr>srv_state = state, srv_live = live\<rparr>"

record tool =
  tool_name :: string
  tool_description :: string
  tool_title :: string
  read_only_hint :: bool
  destructive_hint :: bool
  idempotent_hint :: bool
  open_world_hint :: bool

definition get_status_tool :: tool where
  "get_status_tool = \<lparr>tool_name = ''get_status'',
     tool_description = ''Return this doggy-dns instance's identity, version, uptime and enabled protocols.'',
     tool_title = ''Get DNS instance status'', read_only_hint = True, destructive_hint = False, idempotent_hint = True,
     open_world_hint = False\<rparr>"

definition list_plugins_tool :: tool where
  "list_plugins_tool = \<lparr>tool_name = ''list_plugins'',
     tool_description = ''List all configured DNS authority plugins in evaluation order.'',
     tool_title = ''List DNS plugins'', read_only_hint = True, destructive_hint = False, idempotent_hint = True,
     open_world_hint = False\<rparr>"

definition get_config_tool :: tool where
  "get_config_tool = \<lparr>tool_name = ''get_config'',
     tool_description = ''Return the doggy-dns TOML configuration file with sensitive values redacted.'',
     tool_title = ''Get redacted configuration'', read_only_hint = True, destructive_hint = False, idempotent_hint = True,
     open_world_hint = False\<rparr>"

definition get_runtime_status_tool :: tool where
  "get_runtime_status_tool = \<lparr>tool_name = ''get_runtime_status'',
     tool_description = ''Return live runtime signals (per-zone subscription counts, fast-path state) sampled at call time.'',
     tool_title = ''Get live runtime signals'', read_only_hint = True, destructive_hint = False, idempotent_hint = True,
     open_world_hint = False\<rparr>"

text \<open>The router lists what was declared; the order in which the crate lists the tools is not observed here.\<close>

definition tool_declarations :: "tool list" where
  "tool_declarations = [get_status_tool, list_plugins_tool, get_config_tool, get_runtime_status_tool]"

definition get_runtime_status :: "'s \<Rightarrow> 's doggy_mcp_server \<Rightarrow> json" where
  "get_runtime_status s srv = live_snapshot s (srv_live srv)"

text \<open>The libraries the handlers call and the clock at the call.\<close>

record tool_env =
  te_now :: int
  te_rfc3339 :: "int \<Rightarrow> string"
  te_show_error :: "redact_error \<Rightarrow> string"

text \<open>The handler a tool's name routes to; a handler only reads, so a call is the value it answers.\<close>

definition call_tool :: "tool_env \<Rightarrow> 's \<Rightarrow> 's doggy_mcp_server \<Rightarrow> string \<Rightarrow> json option" where
  "call_tool te s srv name =
     (if name = tool_name get_status_tool then Some (get_status (te_rfc3339 te) (te_now te) (srv_state srv))
      else if name = tool_name list_plugins_tool then Some (list_plugins (srv_state srv))
      else if name = tool_name get_config_tool then Some (get_config (te_show_error te) (srv_state srv))
      else if name = tool_name get_runtime_status_tool then Some (get_runtime_status s srv)
      else None)"

record server_info =
  si_name :: string
  si_version :: string
  si_tools :: bool
  si_instructions :: string

definition get_info :: "string \<Rightarrow> server_info" where
  "get_info version = \<lparr>si_name = ''doggy-dns-control'', si_version = version, si_tools = True,
     si_instructions = ''Read-only introspection of a doggy-dns instance.''\<rparr>"

section \<open>Requests\<close>

datatype 'a http_answer =
    Json_ok json
  | Text_status nat string
  | Mcp_answer 'a

definition healthz :: json where
  "healthz = json_object [(''status'', J_String ''ok'')] []"

definition readyz :: "'s \<Rightarrow> 's live_state \<Rightarrow> json" where
  "readyz s live = live_snapshot s live"

text \<open>\<open>mcp\<close> is the protocol service: the allowed hosts, the server information, the declared tools, their
  handlers, and the request it is asked to serve.\<close>

type_synonym ('r, 'a) mcp_service =
  "string list \<Rightarrow> server_info \<Rightarrow> tool list \<Rightarrow> (string \<Rightarrow> json option) \<Rightarrow> 'r \<Rightarrow> 'a"

definition answer_request ::
  "('r, 'a) mcp_service \<Rightarrow> string \<Rightarrow> tool_env \<Rightarrow> control_config \<Rightarrow> 's doggy_mcp_server \<Rightarrow> 's \<Rightarrow> string \<Rightarrow> string option \<Rightarrow> 'r \<Rightarrow>
     'a http_answer" where
  "answer_request mcp version te c srv s path auth req = (case route c path auth of
       To_mcp \<Rightarrow> Mcp_answer (mcp (ctl_allowed_hosts c) (get_info version) tool_declarations (call_tool te s srv) req)
     | Healthz \<Rightarrow> Json_ok healthz
     | Readyz \<Rightarrow> Json_ok (readyz s (srv_live srv))
     | Unauthorized \<Rightarrow> Text_status 401 ''{\"error\":\"unauthorized\"}''
     | Not_found \<Rightarrow> Text_status 404 [])"

text \<open>\<open>serve\<close>: the requests that arrive before the cancellation, each in the process state of its moment; \<^term>\<open>None\<close> is the
  token firing.\<close>

fun serve ::
  "('r, 'a) mcp_service \<Rightarrow> string \<Rightarrow> tool_env \<Rightarrow> control_config \<Rightarrow> 's doggy_mcp_server \<Rightarrow>
     ('s \<times> string \<times> string option \<times> 'r) option list \<Rightarrow> 'a http_answer list" where
  "serve mcp version te c srv [] = []"
| "serve mcp version te c srv (None # events) = []"
| "serve mcp version te c srv (Some (s, path, auth, req) # events) =
     answer_request mcp version te c srv s path auth req # serve mcp version te c srv events"

section \<open>The listener\<close>

definition BIND_RETRY_INTERVAL :: nat where
  "BIND_RETRY_INTERVAL = 10"

text \<open>A handle of a started listener: its address and how its task ends.\<close>

record control_plane_handle =
  cp_addr :: "ip_addr \<times> u16"
  cp_join :: "(unit, unit) result"

definition wait :: "control_plane_handle \<Rightarrow> (unit, unit) result" where
  "wait h = cp_join h"

datatype start_error = Bad_address | Bind_failed | No_local_addr

text \<open>\<open>start\<close> binds once: \<open>bind_to\<close> is the listener or an error, \<open>local_addr\<close> what the listener reports, \<open>task\<close> how the
  task that serves it ends.\<close>

definition start ::
  "(ip_addr \<times> u16 \<Rightarrow> 'l option) \<Rightarrow> ('l \<Rightarrow> (ip_addr \<times> u16) option) \<Rightarrow> ('l \<Rightarrow> (unit, unit) result) \<Rightarrow> control_config \<Rightarrow>
     (start_error, control_plane_handle) result" where
  "start bind_to local_addr task c = (case socket_addr (ctl_listen_addr c) (ctl_port c) of
       None \<Rightarrow> Inl Bad_address
     | Some addr \<Rightarrow>
         (case bind_to addr of
            None \<Rightarrow> Inl Bind_failed
          | Some listener \<Rightarrow>
              (case local_addr listener of
                 None \<Rightarrow> Inl No_local_addr
               | Some addr \<Rightarrow> Inr \<lparr>cp_addr = addr, cp_join = task listener\<rparr>)))"

section \<open>Secrets stay inside\<close>

text \<open>Two documents that are the same but for strings directly under documented keys.\<close>

fun toml_agree :: "bool \<Rightarrow> toml_value \<Rightarrow> toml_value \<Rightarrow> bool"
and table_agree :: "(string \<times> toml_value) list \<Rightarrow> (string \<times> toml_value) list \<Rightarrow> bool"
and items_agree :: "toml_value list \<Rightarrow> toml_value list \<Rightarrow> bool" where
  "toml_agree s (T_String a) v = (case v of T_String b \<Rightarrow> s \<or> a = b | _ \<Rightarrow> False)"
| "toml_agree s (T_Table kvs) v = (case v of T_Table kvs' \<Rightarrow> table_agree kvs kvs' | _ \<Rightarrow> False)"
| "toml_agree s (T_Array xs) v = (case v of T_Array xs' \<Rightarrow> items_agree xs xs' | _ \<Rightarrow> False)"
| "toml_agree s u v = (u = v)"
| "table_agree [] kvs' = (kvs' = [])"
| "table_agree ((k, v) # kvs) kvs' =
     (case kvs' of (k', v') # rest \<Rightarrow> k' = k \<and> toml_agree (documented_key k) v v' \<and> table_agree kvs rest | [] \<Rightarrow> False)"
| "items_agree [] xs' = (xs' = [])"
| "items_agree (x # xs) xs' = (case xs' of x' # rest \<Rightarrow> toml_agree False x x' \<and> items_agree xs rest | [] \<Rightarrow> False)"

lemma redact_agree:
  "toml_agree s u v \<Longrightarrow> \<not> (s \<and> is_string u) \<Longrightarrow> redact_value path u = redact_value path v"
  "table_agree kvs kvs' \<Longrightarrow> redact_table path kvs = redact_table path kvs'"
  "items_agree xs xs' \<Longrightarrow> redact_items path i xs = redact_items path i xs'"
proof (induction s u v and kvs kvs' and xs xs' arbitrary: path and path and path i
    rule: toml_agree_table_agree_items_agree.induct)
  case (6 k v kvs kvs')
  then obtain v' rest where r: "kvs' = (k, v') # rest" "toml_agree (documented_key k) v v'" "table_agree kvs rest"
    by (auto split: list.splits)
  have "redact_table path kvs = redact_table path rest" using 6(2) r by blast
  moreover have "redact_value (child_path path k) v = redact_value (child_path path k) v'" if "\<not> (documented_key k \<and> is_string v)"
    using 6(1) r that by blast
  ultimately show ?case using r(2) by (cases v; cases v') (auto simp: r(1) is_sensitive_documented)
qed (auto split: toml_value.splits list.splits)

text \<open>A configuration without its secrets: the token of the control plane and those of the telemetry section.\<close>

definition public_config :: "doggy_dns_config \<Rightarrow> doggy_dns_config" where
  "public_config c = c\<lparr>cfg_observability := without_secrets (cfg_observability c),
     cfg_control := (cfg_control c)\<lparr>ctl_token := map_option (\<lambda>_. []) (ctl_token (cfg_control c))\<rparr>\<rparr>"

text \<open>A client that knows the token.\<close>

definition bearer :: "doggy_dns_config \<Rightarrow> string option" where
  "bearer c = map_option (\<lambda>t. ''Bearer '' @ t) (ctl_token (cfg_control c))"

text \<open>What a client with the token is answered by the control plane that \<open>main\<close> starts from a configuration and the text of
  its file; nothing when there is no listener.\<close>

definition control_session ::
  "('r, 'a) mcp_service \<Rightarrow> (ip_addr \<times> u16 \<Rightarrow> string) \<Rightarrow> process \<Rightarrow> string \<Rightarrow> tool_env \<Rightarrow> 's live_state \<Rightarrow> (bool \<times> bool) list \<Rightarrow> doggy_dns_config \<Rightarrow> string \<Rightarrow> ('s \<times> string \<times> 'r) option list \<Rightarrow>
     'a http_answer list option" where
  "control_session mcp show_addr ps version te live attempts c raw reqs =
     (case start_control_plane show_addr ps version raw c attempts of
        Some (state, _, Some True, _) \<Rightarrow>
          Some (serve mcp version te (cfg_control c) (mcp_server_new state live)
            (map (map_option (\<lambda>(s, path, req). (s, path, bearer c, req))) reqs))
      | _ \<Rightarrow> None)"

lemma serve_same:
  assumes "\<And>s path req. answer_request mcp version te c srv s path auth req = answer_request mcp version te c' srv s path auth' req"
  shows "serve mcp version te c srv (map (map_option (\<lambda>(s, path, req). (s, path, auth, req))) reqs) =
    serve mcp version te c' srv (map (map_option (\<lambda>(s, path, req). (s, path, auth', req))) reqs)"
proof (induction reqs)
  case (Cons r reqs)
  with assms show ?case by (cases r) auto
qed simp

text \<open>C36. The control plane keeps the secrets it is documented to keep: two configurations that differ only in the control token and
  in the secrets of the telemetry section, and whose files differ only in strings directly under a key that is one of
  the seven names of the \<open>README.md\<close> in any letter case, give a client with the token the same answers to every sequence of
  requests on every path, whatever the protocol service makes of the tools.\<close>

theorem control_plane_keeps_secrets:
  assumes "public_config c = public_config c'"
    and "ps_from_str ps raw = Some doc" and "ps_from_str ps raw' = Some doc'" and "toml_agree False doc doc'"
  shows "control_session mcp show_addr ps version te live attempts c raw reqs =
    control_session mcp show_addr ps version te live attempts c' raw' reqs"
proof -
  have cap: "capture (ps_from_str ps) pretty raw = capture (ps_from_str ps) pretty raw'" for pretty
    using redact_agree(1) [OF assms(4), of "[]"] by (simp add: capture_def redact_toml_def assms(2,3))
  note same = arg_cong [OF assms(1)]
  have f: "ctl_enabled (cfg_control c) = ctl_enabled (cfg_control c')" "ctl_listen_addr (cfg_control c) = ctl_listen_addr (cfg_control c')"
    "ctl_port (cfg_control c) = ctl_port (cfg_control c')" "ctl_allowed_hosts (cfg_control c) = ctl_allowed_hosts (cfg_control c')"
    "ctl_endpoints (cfg_control c) = ctl_endpoints (cfg_control c')" "cfg_server c = cfg_server c'" "cfg_plugins c = cfg_plugins c'"
    "ctl_token (cfg_control c) = None \<longleftrightarrow> ctl_token (cfg_control c') = None"
    using same [of "\<lambda>c. ctl_enabled (cfg_control c)"] same [of "\<lambda>c. ctl_listen_addr (cfg_control c)"]
      same [of "\<lambda>c. ctl_port (cfg_control c)"] same [of "\<lambda>c. ctl_allowed_hosts (cfg_control c)"]
      same [of "\<lambda>c. ctl_endpoints (cfg_control c)"] same [of cfg_server] same [of cfg_plugins]
      same [of "\<lambda>c. ctl_token (cfg_control c) = None"] by (simp_all add: public_config_def)
  have r: "route (cfg_control c) path (bearer c) = route (cfg_control c') path (bearer c')" for path
    using f(5,8) by (auto simp: route_def bearer_def has_endpoint_def split: option.splits)
  have st: "start_control_plane show_addr ps version raw c attempts = start_control_plane show_addr ps version raw' c' attempts"
    by (simp add: start_control_plane_def start_retrying_def enabled_protocols_def build_state_def from_parts_def f cap)
  have "serve mcp version te (cfg_control c) srv (map (map_option (\<lambda>(s, path, req). (s, path, bearer c, req))) reqs) =
      serve mcp version te (cfg_control c') srv (map (map_option (\<lambda>(s, path, req). (s, path, bearer c', req))) reqs)" for srv
    by (rule serve_same) (simp add: answer_request_def r f(4) split: http_response.split)
  with st show ?thesis by (simp add: control_session_def split: option.split bool.split prod.split)
qed

definition token_config :: "string \<Rightarrow> doggy_dns_config" where
  "token_config t = (default_config ''0.0.0.0'' 53)\<lparr>cfg_control := default_control\<lparr>ctl_enabled := True, ctl_token := Some t\<rparr>\<rparr>"

definition token_file :: "string \<Rightarrow> toml_value option" where
  "token_file raw = Some (T_Table [(''control'', T_Table [(''token'', T_String raw)])])"

definition show_config :: "(unit, json option) mcp_service" where
  "show_config hosts info tools call r = call ''get_config''"

definition no_env :: tool_env where
  "no_env = \<lparr>te_now = 0, te_rfc3339 = \<lambda>_. [], te_show_error = \<lambda>_. []\<rparr>"

abbreviation token_session :: "string \<Rightarrow> json option http_answer list option" where
  "token_session t \<equiv> control_session show_config (\<lambda>_. [])
     \<lparr>ps_from_str = token_file, ps_to_string = \<lambda>v. if v = T_Table [] then None else Some ''shown'', ps_hostname = ''host'',
      ps_pid = 7, ps_now = 0\<rparr> ''1'' no_env []
     [(True, False)] (token_config t) t [Some ((), ''/mcp'', ()), Some ((), ''/healthz'', ()), None]"

theorem control_plane_keeps_secrets_witness:
  "token_session ''alpha'' = token_session ''beta'' \<and> \<not> Option.is_none (token_session ''beta'')"
proof
  show "token_session ''alpha'' = token_session ''beta''"
    by (rule control_plane_keeps_secrets) (simp_all add: public_config_def token_config_def token_file_def, code_simp)
  show "\<not> Option.is_none (token_session ''beta'')" by code_simp
qed

end
