(* ===== verification/Program_Main.thy ===== *)
theory Program_Main
  imports Startup Otlp_Runtime
begin

text \<open>
  The whole program: \<open>main\<close> and \<open>async_main\<close> of \<open>src/main.rs\<close> from the command line to the exit, over the components
  they assemble, and the stand-in for builds without the fast path (\<open>src/xdp/stub.rs\<close>). What the outside decides
  (files, environment, kernel, libraries, how the run ends) is one record. A value that goes out of scope is
  dropped: an early return shuts the telemetry down as the last call of a normal run does.
\<close>

section \<open>Builds without the fast path\<close>

definition stub_enabled :: "unit \<Rightarrow> bool" where
  "stub_enabled x = False"

definition stub_init :: "doggy_dns_config \<Rightarrow> middleware_kind list \<Rightarrow> unit \<times> middleware_kind list" where
  "stub_init c mws = ((), mws)"

definition stub_start_stats :: "unit \<Rightarrow> bool \<Rightarrow> unit option" where
  "stub_start_stats x metrics = None"

text \<open>The stub is the real module with the fast path switched off in the configuration: the same middlewares, nothing to
  log, no poller, and the same answer to whether the fast path is there.\<close>

lemma stub_is_disabled:
  assumes "\<not> xdp_enabled (cfg_xdp c)"
  shows "xdp_init h (cfg_xdp c) port mws = Some (None, snd (stub_init c mws), []) \<and>
    start_stats None metrics = Some (None, stub_start_stats () metrics \<noteq> None, []) \<and>
    xdp_enabled_flag None = stub_enabled (fst (stub_init c mws))"
  using assms by (simp add: xdp_init_def stub_init_def start_stats_def stub_start_stats_def xdp_enabled_flag_def stub_enabled_def)

section \<open>The world of a run\<close>

record ('i, 'c) world =
  wd_args :: "string list"
  wd_read :: "string \<Rightarrow> string option"
  wd_from_str :: "string \<Rightarrow> toml_value option"
  wd_to_string :: "toml_value \<Rightarrow> string option"
  wd_try_into :: "toml_value \<Rightarrow> doggy_dns_config option"
  wd_env :: "string \<Rightarrow> string option"
  wd_host :: host
  wd_sdk :: sdk
  wd_cores :: "'c list"
  wd_runtime :: bool
  wd_xdp :: xdp_host
  wd_libs :: libraries
  wd_nacos :: "'i nacos_maker"
  wd_kernel :: kernel
  wd_show_addr :: "ip_addr \<times> u16 \<Rightarrow> string"
  wd_node :: node
  wd_started_at :: int
  wd_attempts :: "(bool \<times> bool) list"
  wd_sigterm :: bool
  wd_stop :: stop_cause
  wd_drain :: "bool option"
  wd_poller_end :: "bool option"
  wd_control_end :: "bool option"

datatype exit_reason =
    Exit_ok
  | Exit_load load_config_error
  | Exit_telemetry runtime_error
  | Exit_affinity u64
  | Exit_runtime
  | Exit_chain chain_error
  | Exit_listen server_error
  | Exit_server
  | Exit_panic

datatype main_event =
    Life life_event
  | Reported telemetry_log
  | Listening "(listener \<times> i32 \<times> (ip_addr \<times> u16)) list"
  | Control mcp_state
  | Run run_event

definition config_path :: "string list \<Rightarrow> string" where
  "config_path args = (if 1 < length args then args ! 1 else ''config/doggy-dns.toml'')"

definition world_process :: "('i, 'c) world \<Rightarrow> process" where
  "world_process w = \<lparr>ps_from_str = wd_from_str w, ps_to_string = wd_to_string w, ps_hostname = detect_hostname (wd_node w) (wd_env w),
     ps_pid = nd_pid (wd_node w),
     ps_now = wd_started_at w\<rparr>"

text \<open>A process that cannot register its handler of SIGTERM panics, when it already listens.\<close>

definition async_main ::
  "('i, 'c) world \<Rightarrow> doggy_dns_config \<Rightarrow> string \<Rightarrow> bool \<Rightarrow> main_event list \<times> exit_reason" where
  "async_main w c content metrics = (case async_start (wd_xdp w) (wd_libs w) (wd_nacos w) metrics c of
       None \<Rightarrow> ([], Exit_panic)
     | Some (Inl e) \<Rightarrow> ([], Exit_chain e)
     | Some (Inr st) \<Rightarrow>
         (case build_server (wd_kernel w) (cfg_server c) of
            (sv, Inl e) \<Rightarrow> ([], Exit_listen e)
          | (sv, Inr _) \<Rightarrow>
              let control = start_control_plane (wd_show_addr w) (world_process w) CARGO_PKG_VERSION content c (wd_attempts w);
                  front = Listening (sv_listeners sv) # (case control of Some (s, _) \<Rightarrow> [Control s] | None \<Rightarrow> [])
              in if \<not> wd_sigterm w then (front, Exit_panic)
              else let (evs, ok) = async_finish (wd_stop w) (wd_drain w) (if su_poller st then Some (wd_poller_end w) else None)
                    (if control \<noteq> None then Some (wd_control_end w) else None)
              in (front @ map Run evs, if ok then Exit_ok else Exit_server)))"

abbreviation world_load :: "('i, 'c) world \<Rightarrow> (load_config_error, doggy_dns_config \<times> string) result" where
  "world_load w \<equiv> load_config (wd_read w) (wd_from_str w) (wd_try_into w) (wd_env w) (wd_host w) (config_path (wd_args w))"

abbreviation world_init ::
  "('i, 'c) world \<Rightarrow> doggy_dns_config \<Rightarrow> (runtime_error \<times> observability, observability \<times> sub_layers \<times> telemetry_log list) result" where
  "world_init w c \<equiv> observability_init (wd_sdk w) (wd_node w) (wd_env w) c (mw_log_format (cfg_middleware c))"

abbreviation world_affinity :: "('i, 'c) world \<Rightarrow> doggy_dns_config \<Rightarrow> (u64, nat \<Rightarrow> 'c option) result" where
  "world_affinity w c \<equiv> (case cpu_affinity (cfg_server c) of Some a \<Rightarrow> configure_cpu_affinity (wd_cores w) a | None \<Rightarrow> Inr (\<lambda>_. None))"

definition main_program :: "('i, 'c) world \<Rightarrow> main_event list \<times> exit_reason" where
  "main_program w = (
     case world_load w of
       Inl e \<Rightarrow> ([], Exit_load e)
     | Inr (c, content) \<Rightarrow>
     (case world_init w c of
       Inl (e, ob) \<Rightarrow> (map Life (fst (shutdown_runtime ob)), Exit_telemetry e)
     | Inr (ob, _, report) \<Rightarrow>
     (case world_affinity w c of
       Inl i \<Rightarrow> (map Reported report @ map Life (fst (shutdown_runtime ob)), Exit_affinity i)
     | Inr _ \<Rightarrow>
     if \<not> wd_runtime w then (map Reported report @ map Life (fst (shutdown_runtime ob)), Exit_runtime)
     else
       let (spawned, ob1) = spawn_profiles ob;
           (evs, ex) = async_main w c content (o_metrics ob1);
           (closing, ob2) = shutdown_runtime ob1;
           dropped = (if ex = Exit_ok then fst (shutdown_runtime ob2) else [])
       in (map Reported report @ map Life spawned @ evs @ map Life (closing @ dropped), ex))))"

section \<open>How a run ends\<close>

lemma load_config_valid:
  assumes "load_config read from_str try_into env h path = Inr (c, content)"
  shows "validate_config h c = Inr ()" "read path = Some content"
  using assms by (auto simp: load_config_def parse_config_def split: option.splits sum.splits)

lemma validated_sections:
  assumes "validate_config h c = Inr ()"
  shows "passes (validate_server h (cfg_server c))" "passes (validate_plugins (cfg_plugins c))"
    "passes (validate_observability h (cfg_observability c))" "passes (validate_control (cfg_control c))"
  using assms by (simp_all add: validate_config_def check_simps)

lemma validated_chain_error:
  "passes (validate_plugins ps) \<Longrightarrow> build_authority_chain lib mk ps = Inl e \<Longrightarrow> \<not> own_error e"
  using load_plugins_ok [of ps lib mk 0 e] plugins_pass [of ps] forward_new_ok [OF _ default_upstream_ok, of lib _ e]
  by (auto simp: build_authority_chain_def default_upstream_def split: if_splits sum.splits)

lemma validated_control_starts:
  "passes (validate_control (cfg_control c)) \<Longrightarrow>
     start_control_plane show ps version content c attempts = None \<longleftrightarrow> \<not> ctl_enabled (cfg_control c)"
  by (auto simp: start_control_plane_def start_retrying_def validate_control_def check_simps Let_def split: option.splits)

definition life_of :: "main_event list \<Rightarrow> life_event list" where
  "life_of tr = List.map_filter (\<lambda>e. case e of Life l \<Rightarrow> Some l | _ \<Rightarrow> None) tr"

lemma life_of_simps [simp]:
  "life_of [] = []" "life_of (xs @ ys) = life_of xs @ life_of ys" "life_of (map Life ls) = ls" "life_of (map Reported rs) = []"
  by (induction ls) (simp_all add: life_of_def map_filter_def comp_def)

lemma async_main_no_life: "async_main w c content metrics = (evs, ex) \<Longrightarrow> e \<in> set evs \<Longrightarrow> e \<noteq> Life l"
  by (auto simp: async_main_def Let_def split: option.splits sum.splits prod.splits if_splits)

lemma life_of_async_main:
  assumes "async_main w c content metrics = (evs, ex)"
  shows "life_of evs = []"
proof -
  have "filter (\<lambda>e. (case e of Life l \<Rightarrow> Some l | _ \<Rightarrow> None) \<noteq> None) evs = []"
    using async_main_no_life [OF assms] by (auto simp: filter_empty_conv split: main_event.splits)
  then show ?thesis by (simp add: life_of_def map_filter_def)
qed

text \<open>The middle of a run, between the telemetry's start and its end.\<close>

lemma main_program_after_init:
  assumes "world_load w = Inr (c, content)" and "world_init w c = Inr (ob, ly, report)" and "\<not> isl (world_affinity w c)" and "wd_runtime w"
    and "spawn_profiles ob = (spawned, ob1)" and "async_main w c content (o_metrics ob1) = (evs, ex)" and "shutdown_runtime ob1 = (closing, ob2)"
  shows "main_program w = (map Reported report @ map Life spawned @ evs @
    map Life (closing @ (if ex = Exit_ok then fst (shutdown_runtime ob2) else [])), ex)"
  using assms by (auto simp: main_program_def isl_def split: sum.splits)

lemma main_program_middle:
  assumes "world_load w = Inr (c, content)" and "world_init w c = Inr (ob, ly)" and "\<not> isl (world_affinity w c)" and "wd_runtime w"
  shows "(\<exists>l1 l2 l3. fst (main_program w) =
      map Reported l1 @ map Life l2 @ fst (async_main w c content (o_metrics (snd (spawn_profiles ob)))) @ map Life l3) \<and>
    snd (main_program w) = snd (async_main w c content (o_metrics (snd (spawn_profiles ob))))"
proof -
  obtain ls report where ly: "ly = (ls, report)" by (cases ly)
  obtain spawned ob1 where sp: "spawn_profiles ob = (spawned, ob1)" by force
  obtain evs ex where am: "async_main w c content (o_metrics ob1) = (evs, ex)" by force
  obtain closing ob2 where sd: "shutdown_runtime ob1 = (closing, ob2)" by force
  show ?thesis
    using main_program_after_init [OF assms(1) assms(2) [unfolded ly] assms(3,4) sp am sd] sp am
    by (metis fst_conv snd_conv)
qed

text \<open>The telemetry's side of a run: its events are those of a value on which some calls are made before it is dropped, also
  when its initialisation failed.\<close>

lemma main_program_life:
  assumes "world_load w = Inr (c, content)" and "left_behind (world_init w c) = ob"
  shows "\<exists>front closing calls. fst (main_program w) = front @ map Life closing \<and>
    life_of (fst (main_program w)) = whole_life calls ob \<and> (\<forall>s t. Life (Shut_down s t) \<notin> set front)"
proof -
  consider (early) report where "fst (main_program w) = map Reported report @ map Life (fst (shutdown_runtime ob))"
    | (run) ly report where "world_init w c = Inr (ob, ly, report)" "\<not> isl (world_affinity w c)" "wd_runtime w"
    using assms by (cases "world_init w c"; cases "world_affinity w c"; cases "wd_runtime w")
      (auto simp: main_program_def left_behind_def intro: that(1) [of "[]"] split: prod.splits)
  then show ?thesis
  proof cases
    case (early report)
    then have "fst (main_program w) = map Reported report @ map Life (whole_life [] ob)" by (simp add: whole_life_def split: prod.splits)
    then show ?thesis by (intro exI [of _ "map Reported report"] exI [of _ "whole_life [] ob"] exI [of _ "[]"]) auto
  next
    case (run ly report)
    obtain spawned ob1 where sp: "spawn_profiles ob = (spawned, ob1)" by force
    obtain evs ex where am: "async_main w c content (o_metrics ob1) = (evs, ex)" by force
    obtain closing ob2 where sd: "shutdown_runtime ob1 = (closing, ob2)" by force
    let ?dropped = "if ex = Exit_ok then fst (shutdown_runtime ob2) else []"
    let ?calls = "Call_spawn_profiles # (if ex = Exit_ok then [Call_shutdown] else [])"
    have m: "fst (main_program w) = (map Reported report @ map Life spawned @ evs) @ map Life (closing @ ?dropped)"
      using main_program_after_init [OF assms(1) run sp am sd] by simp
    have "whole_life ?calls ob = spawned @ closing @ ?dropped"
      by (simp add: whole_life_def sp sd split: prod.splits)
    then have "life_of (fst (main_program w)) = whole_life ?calls ob"
      by (simp add: m life_of_async_main [OF am])
    moreover have "Life (Shut_down s t) \<notin> set (map Reported report @ map Life spawned @ evs)" for s t
      using sp async_main_no_life [OF am] by (auto simp: spawn_profiles_def split: if_splits option.splits)
    ultimately show ?thesis using m by blast
  qed
qed

text \<open>C26. However a run ends once its configuration is loaded, the telemetry is closed properly: every provider that was
  built is shut down exactly once, with the configured timeout, after everything else the run did, and the profiler is
  stopped as often as it was started. This holds when the telemetry could only be built in part, on an error of the affinity, the
  runtime, the chain, the sockets or the server, and on a panic, as it does on a clean exit.\<close>

theorem run_closes_telemetry:
  assumes "world_load w = Inr (c, content)" and "left_behind (world_init w c) = ob"
  shows "\<exists>front closing. fst (main_program w) = front @ map Life closing \<and>
    (\<forall>s t. Life (Shut_down s t) \<notin> set front \<and>
       count_list closing (Shut_down s t) = of_bool (t = max (ob_timeout_secs (cfg_observability c)) 1 \<and> provider ob s \<noteq> None)) \<and>
    count_list (life_of (fst (main_program w))) Stopped_profiles = count_list (life_of (fst (main_program w))) Spawned_profiles"
proof -
  obtain front closing calls where m: "fst (main_program w) = front @ map Life closing"
    "life_of (fst (main_program w)) = whole_life calls ob" "\<forall>s t. Life (Shut_down s t) \<notin> set front"
    using main_program_life [OF assms] by blast
  have "count_list closing (Shut_down s t) = count_list (whole_life calls ob) (Shut_down s t)" for s t
  proof -
    have "Shut_down s t \<notin> set (life_of front)"
      using m(3) by (auto simp: life_of_def map_filter_def split: main_event.splits)
    then have "count_list (life_of front) (Shut_down s t) = 0" by (simp add: count_list_0_iff)
    then show ?thesis using m(2) [symmetric] by (simp add: m(1))
  qed
  with whole_life_counts [OF assms(2), of calls] m show ?thesis
    by (intro exI [of _ front] exI [of _ closing]) (simp del: not_None_eq)
qed

lemma async_main_chain:
  "(snd (async_main w c content metrics) = Exit_panic \<longrightarrow> \<not> wd_sigterm w) \<and>
   (snd (async_main w c content metrics) = Exit_chain e \<longrightarrow> build_authority_chain (wd_libs w) (wd_nacos w) (cfg_plugins c) = Inl e) \<and>
   ((\<exists>ls. Listening ls \<in> set (fst (async_main w c content metrics))) \<longleftrightarrow>
      \<not> isl (build_authority_chain (wd_libs w) (wd_nacos w) (cfg_plugins c)) \<and> \<not> isl (snd (build_server (wd_kernel w) (cfg_server c))))"
proof -
  obtain x logs where "async_start (wd_xdp w) (wd_libs w) (wd_nacos w) metrics c =
      Some (case build_authority_chain (wd_libs w) (wd_nacos w) (cfg_plugins c) of
       Inl e \<Rightarrow> Inl e
     | Inr (ws, chain) \<Rightarrow> Inr \<lparr>su_xdp = x,
         su_middlewares = build_middlewares (mw_logging (cfg_middleware c)) metrics @ (if x \<noteq> None then [Mw_xdp_cache] else []),
         su_poller = (metrics \<and> x \<noteq> None), su_watchers = ws, su_chain = chain, su_handler_xdp = (x \<noteq> None),
         su_rotate = rotate_answers (cfg_server c), su_live_attached = (x \<noteq> None), su_logs = logs\<rparr>)"
    using async_start_shape by blast
  moreover obtain sv r where "build_server (wd_kernel w) (cfg_server c) = (sv, r)" by force
  ultimately show ?thesis
    by (cases "build_authority_chain (wd_libs w) (wd_nacos w) (cfg_plugins c)"; cases r)
      (auto simp: async_main_def Let_def split: prod.splits if_splits)
qed

text \<open>C25. A run serves exactly when everything it needs is there: the configuration loads and is valid, the telemetry
  initialises, the affinity list and the runtime are accepted, the chain builds and the sockets bind. The fast path and
  the control plane have no say in it.\<close>

theorem run_serves_iff:
  "(\<exists>ls. Listening ls \<in> set (fst (main_program w))) \<longleftrightarrow>
   (\<exists>c content ob ly.
      world_load w = Inr (c, content) \<and>
      world_init w c = Inr (ob, ly) \<and>
      \<not> isl (world_affinity w c) \<and>
      wd_runtime w \<and>
      \<not> isl (build_authority_chain (wd_libs w) (wd_nacos w) (cfg_plugins c)) \<and>
      \<not> isl (snd (build_server (wd_kernel w) (cfg_server c))))"
  (is "?served \<longleftrightarrow> ?ready")
proof (cases "\<exists>c content ob ly.
      world_load w = Inr (c, content) \<and>
      world_init w c = Inr (ob, ly) \<and>
      \<not> isl (world_affinity w c) \<and> wd_runtime w")
  case True
  then obtain c content ob ly where a:
    "world_load w = Inr (c, content)"
    "world_init w c = Inr (ob, ly)"
    "\<not> isl (world_affinity w c)" "wd_runtime w"
    by blast
  obtain l1 l2 l3 where m: "fst (main_program w) =
      map Reported l1 @ map Life l2 @ fst (async_main w c content (o_metrics (snd (spawn_profiles ob)))) @ map Life l3"
    using main_program_middle [OF a] by blast
  have "?served \<longleftrightarrow> (\<exists>ls. Listening ls \<in> set (fst (async_main w c content (o_metrics (snd (spawn_profiles ob))))))"
    by (auto simp: m)
  with a async_main_chain [of w c content] show ?thesis by auto
next
  case False
  then have "\<not> ?served"
    by (fastforce simp: main_program_def isl_def Let_def split: sum.splits prod.splits if_splits)
  with False show ?thesis by blast
qed

text \<open>C27. Which errors a run can end with: a panic only when the handler of SIGTERM cannot be registered, never on a map handle
  taken twice; never an unusable log level, which validation excludes; and when the chain cannot be built, a library has
  refused.\<close>

theorem run_errors:
  assumes "\<forall>n \<in> {''trace'', ''debug'', ''info'', ''warn'', ''error''}. sdk_parse_level (wd_sdk w) n \<noteq> None"
  shows "(snd (main_program w) = Exit_panic \<longrightarrow> \<not> wd_sigterm w) \<and> snd (main_program w) \<noteq> Exit_telemetry (RT_log_level l) \<and>
    (snd (main_program w) = Exit_chain e \<longrightarrow> e = CE_resolver \<or> e = CE_watcher \<or> (\<exists>i. e = CE_pattern i))"
proof (cases "world_load w")
  case (Inr cc)
  obtain c content where l: "world_load w = Inr (c, content)"
    using Inr by (cases cc) simp
  note v = validated_sections [OF load_config_valid(1) [OF l]]
  have own: "e = CE_resolver \<or> e = CE_watcher \<or> (\<exists>i. e = CE_pattern i)"
    if "build_authority_chain (wd_libs w) (wd_nacos w) (cfg_plugins c) = Inl e"
    using validated_chain_error [OF v(2) that] by (cases e) (auto simp: own_error_def)
  show ?thesis
  proof (cases "world_init w c")
    case (Inl err)
    with l validated_log_level [OF assms v(3)] show ?thesis by (cases err) (auto simp: main_program_def)
  next
    case (Inr obl)
    obtain ob ly where i: "world_init w c = Inr (ob, ly)"
      using Inr by (cases obl) simp
    have r: "snd (async_main w c content m) \<noteq> Exit_telemetry x" for m x
      by (auto simp: async_main_def Let_def split: option.splits sum.splits prod.splits if_splits)
    show ?thesis
    proof (cases "\<not> isl (world_affinity w c) \<and> wd_runtime w")
      case True
      then have g: "\<not> isl (world_affinity w c)"
        "wd_runtime w" by simp_all
      show ?thesis
        using main_program_middle [OF l i g] async_main_chain [of w c content] own r by auto
    next
      case False
      with l i show ?thesis by (auto simp: main_program_def isl_def split: sum.splits prod.splits)
    qed
  qed
qed (simp add: main_program_def)

section \<open>A run\<close>

definition a_world :: "(unit, nat) world" where
  "a_world = \<lparr>wd_args = [''doggy-dns'', ''dns.toml''], wd_read = \<lambda>_. Some ''x'', wd_from_str = \<lambda>_. Some (T_Table []),
     wd_to_string = \<lambda>_. Some ''x'',
     wd_try_into = \<lambda>_. Some ((default_config ''127.0.0.1'' 53)\<lparr>cfg_observability := a_config\<rparr>), wd_env = \<lambda>_. None,
     wd_host = \<lparr>host_linux = True, host_macos = False, path_exists = \<lambda>_. True\<rparr>, wd_sdk = a_sdk, wd_cores = [0, 1], wd_runtime = True,
     wd_xdp = sample_host, wd_libs = no_libraries, wd_nacos = \<lambda>_ _ _ _ _. forward_authority (\<lambda>_ _. Inr []), wd_kernel = a_kernel,
     wd_show_addr = \<lambda>_. ''127.0.0.1:53'', wd_node = a_node, wd_started_at = 0, wd_attempts = [], wd_sigterm = True,
     wd_stop = Signal_received, wd_drain = Some True, wd_poller_end = Some True, wd_control_end = Some True\<rparr>"

theorem run_closes_telemetry_witness:
  "\<exists>front closing. fst (main_program a_world) = front @ map Life closing \<and> count_list closing (Shut_down Traces 10) = 1 \<and>
     Life (Shut_down Traces 10) \<notin> set front"
proof -
  let ?c = "(default_config ''127.0.0.1'' 53)\<lparr>cfg_observability := a_config\<rparr>"
  have "\<not> isl (world_load a_world)" by code_simp
  then have l: "world_load a_world = Inr (?c, ''x'')"
    by (auto simp: isl_def load_config_def parse_config_def a_world_def expand_env_in_value_def split: option.splits sum.splits)
  have p: "\<not> Option.is_none (provider (left_behind (world_init a_world ?c)) Traces)" by code_simp
  have t: "max (ob_timeout_secs a_config) 1 = 10" by code_simp
  from run_closes_telemetry [OF l refl] obtain front closing where f: "fst (main_program a_world) = front @ map Life closing"
    and c: "\<forall>s t. Life (Shut_down s t) \<notin> set front \<and> count_list closing (Shut_down s t) =
       of_bool (t = max (ob_timeout_secs (cfg_observability ?c)) 1 \<and> provider (left_behind (world_init a_world ?c)) s \<noteq> None)"
    by blast
  from c p t have "count_list closing (Shut_down Traces 10) = 1 \<and> Life (Shut_down Traces 10) \<notin> set front"
    by (simp add: Option.is_none_def del: not_None_eq)
  with f show ?thesis by blast
qed

theorem run_errors_witness: "snd (main_program a_world) \<noteq> Exit_panic"
  using run_errors [of a_world undefined undefined] by (simp add: a_world_def a_sdk_def)

end
