(* ===== verification/Spec2Isabelle.thy ===== *)
theory Spec2Isabelle
  imports Xdp_Layout Xdp_Build Xdp_Stats Zone_Routing Fast_Path Otlp_Profile_Task Control_Tools Program_Main
begin

text \<open>
  \<^bold>\<open>The program.\<close> doggy-dns is a DNS server. A query reaches the network card first, where an eBPF program
  (\<open>xdp/doggy-dns-xdp-ebpf\<close>) looks the question up in a map shared with userspace and answers it in place when a live
  entry is there. Everything else goes to the userspace handler (\<open>doggy-dns-core\<close>), which runs its middlewares, asks a
  chain of authorities (\<open>doggy-dns-plugin\<close>: native and forwarding resolvers; \<open>doggy-dns-nacos\<close>: zones served from a Nacos
  registry), sends the response, and offers its bytes to the cache middleware (\<open>doggy-dns-xdp\<close>) that writes the map
  entry. Around that path stand the configuration (\<open>doggy-dns-basic\<close>), the telemetry (\<open>doggy-dns-observability\<close>), the
  control plane (\<open>doggy-dns-control\<close>) and the binary that assembles them (\<open>src/main.rs\<close>).

  \<^bold>\<open>Conventions.\<close> Machine integers are words of their width (\<^typ>\<open>u8\<close> to \<^typ>\<open>u64\<close>); \<open>i64\<close> counters and clocks are
  \<^typ>\<open>int\<close> with saturation and wrap-around written out. Memory is a byte list with partial reads and writes, so
  \<^term>\<open>None\<close> is an access the code does not own. A Rust string is the list of its UTF-8 bytes as characters. \<open>Err\<close> is
  \<open>Inl\<close>, \<open>Ok\<close> is \<open>Inr\<close>. State is passed explicitly; visible effects (sends, log lines, system calls, map writes) are lists of
  events in order. A loop over a finite input is structural recursion; the scanners of \<open>Rust_Str\<close> and the packet loops
  recurse on what is left of the input, with a termination proof. There is no fuel: where the code waits for the outside
  world (a poller, a retried bind, a condition variable), the sequence of what it observes is the argument and \<^term>\<open>None\<close>
  is still waiting. Tasks that share state are interleaved one shared access at a time, by a step relation over the list of
  their program points or by a schedule that says who moves next.

  \<^bold>\<open>Theories.\<close>
  \<^item> \<open>Prelude\<close>, \<open>Byte_Words\<close>, \<open>Rust_Str\<close>: memory, byte order and SWAR words, the string operations of the standard library.
  \<^item> \<open>Xdp_Types\<close>, \<open>Xdp_Layout\<close>, \<open>Xdp_Hash\<close>: the map layout (\<open>types.rs\<close> of both crates) and that every field one
    side writes is the field of that name the other reads; the cache key of both sides (\<open>cache.rs\<close>, the question parser of the eBPF \<open>main.rs\<close>)
    and that the two sides agree on it.
  \<^item> \<open>Xdp_Program\<close>, \<open>Xdp_Reply\<close>: the packet path of the eBPF \<open>main.rs\<close>; memory safety on every frame, the exit code,
    counter and log lines of every path with their cause, and the contents and checksum of a reply.
  \<^item> \<open>Dns_Types\<close>, \<open>Xdp_Cache\<close>: the DNS data shared with the hickory library; \<open>middleware/xdp_cache.rs\<close> and the LRU map;
    provenance of every entry, and that what was stored is what the kernel sends.
  \<^item> \<open>Xdp_Stats\<close>, \<open>Xdp_Loader\<close>, \<open>Xdp_Build\<close>: the counter poller (\<open>stats.rs\<close>), which reports
    the growth of the per-CPU slots and no more, \<open>XdpManager::new\<close> (\<open>program.rs\<close>, \<open>pin.rs\<close>,
    \<open>interface.rs\<close>, \<open>kernel_log.rs\<close>) as event sequences, the drain of the kernel's log ring (\<open>bridge.rs\<close>), and when
    \<open>build.rs\<close> recompiles the eBPF object.
  \<^item> \<open>Authority_Chain\<close>: \<open>authority_chain.rs\<close> and the two built-in authorities; the chain refines a stateless specification,
    and the SOA cell under concurrent tasks, whose fetches may fail, is an inductive step relation.
  \<^item> \<open>Request_Handler\<close>: \<open>handler.rs\<close>; every request is booked once, every response is well formed, what reaches the cache
    is what was sent, rotation is fair.
  \<^item> \<open>Request_Middlewares\<close>: the logging, metrics and cache middlewares as the binary assembles them around the handler; what
    one request, and a run of requests, leaves in the logs, the metrics and the cache, each entry tied to a response that run sent.
  \<^item> \<open>Fast_Path\<close>: request tasks, cache, kernel and clock as one concurrent system, in which the hook's two halves are separate
    steps; every entry is backed by a response sent in this process or was in the pinned map at its start, and no answer
    of the kernel is stale.
  \<^item> \<open>Nacos_Mapping\<close>, \<open>Nacos_Watcher\<close>: names to services and back; backoff, choice of source, time limits on the SDK's
    replies, subscription ledger and the zone authority.
  \<^item> \<open>Nacos_Concurrent\<close>, \<open>Nacos_Client\<close>: the watcher's query one shared access at a time; alone it refines the sequential
    operation, and in parallel every interleaving keeps the ledger and the backoff sound and no query waits anywhere but in the
    subscribe call, which has no time limit. The service filter, the
    client's properties, the calls a query makes with their time limits, and \<open>config_watcher.rs\<close>.
  \<^item> \<open>Nacos_Zone\<close>: the zone authority on top of a catalog, and what each of its answers says of the registry and of an outage.
  \<^item> \<open>Zone_Routing\<close>: the Nacos authorities in the chain that start-up builds, under the request handler: a name of a Nacos zone
    is answered by the server itself, authoritatively, and never by the resolvers behind the zone; the zones of a
    validated configuration are distinct DNS names.
  \<^item> \<open>Ip_Parse\<close>, \<open>Basic_Env\<close>: the address parser of the standard library with \<open>net.rs\<close>, and \<open>env.rs\<close>.
  \<^item> \<open>Basic_Config\<close>, \<open>Basic_Debug\<close>, \<open>Basic_Validate\<close>: every configuration section with its defaults, the printers that mask
    its secrets, the checks of \<open>validate.rs\<close> in order, \<open>load.rs\<close>; what an accepted plugin section is.
  \<^item> \<open>Otlp_Endpoint\<close>, \<open>Otlp_Resource\<close>: endpoint precedence, header table, percent decoding (\<open>endpoint.rs\<close>, \<open>auth.rs\<close>); node
    identity and resource attributes (\<open>exposure.rs\<close>, \<open>resource.rs\<close>).
  \<^item> \<open>Otlp_Profiles\<close>, \<open>Otlp_Runtime\<close>, \<open>Otlp_Profile_Task\<close>: the profile dictionary and export request (\<open>profiles/convert.rs\<close>);
    providers, sampler, error spans, in-flight gauge and the life of the runtime; the profile task, its posts and logs, and
    the stop signal as two threads on a mutex and a condition variable (\<open>profiles/mod.rs\<close>).
  \<^item> \<open>Control_Plane\<close>, \<open>Control_Tools\<close>: redaction, live signals, snapshots and tools, routes, the retried bind; the declared
    tools, a request from its route to its body, and that no answer depends on a string stored under one of the
    key names its README documents as secret.
  \<^item> \<open>Server_Sockets\<close>, \<open>Startup\<close>: \<open>reuseport.rs\<close> and \<open>server.rs\<close> as system call traces, on Linux and elsewhere; the assembly in
    \<open>main.rs\<close> and \<open>xdp/linux.rs\<close>, where validation, chain, fast path and readiness report meet.
  \<^item> \<open>Program_Main\<close>: \<open>main\<close> and \<open>async_main\<close> from the arguments to the exit, with \<open>xdp/stub.rs\<close>; when a run serves, how
    it ends, and that it closes its telemetry.
  \<^item> This theory: that the kernel replays what a sequential run of the server sent.

  \<^bold>\<open>Interfaces.\<close> Six contracts are locales, each interpreted on the code's own definitions: a backend that
  always answers (\<open>Authority_Chain\<close>; the native, forward and Nacos lookups), a service catalog (\<open>Nacos_Zone\<close>; the watcher), an LRU map (\<open>Xdp_Cache\<close>; the shared DNS cache), a
  monotone counter (\<open>Xdp_Stats\<close>; the five kernel counters), a case-insensitive table (\<open>Otlp_Endpoint\<close>; the header map) and an
  interning table (\<open>Otlp_Profiles\<close>; strings, functions, locations, stacks and attributes). Client lemmas are proved
  once in the locale and reach the properties through the interpretations.

  \<^bold>\<open>Arguments.\<close> Third-party code is an argument of the definitions that call it: the hickory library (response
  metadata, encoding, sending, resolvers), the Nacos SDK, aya and the kernel (loading, attaching, map operations, system
  calls), the OpenTelemetry SDK, pprof, the TOML parser and printer, URL, header and base64 code, the HTTP server, regular
  expressions, TLS. Where a property needs something of them it is a hypothesis of the theorem, met by the concrete
  instance of its witness.

  \<^bold>\<open>Bounds.\<close> A decoded profile needs its tables within the non-negative \<open>i32\<close> range, which the code casts to
  without a check; profile identifiers are distinct for up to 2 to the 64 exports; a positive cache entry's expiry does
  not wrap for any 32-bit TTL, while a configured negative TTL can.

  \<^bold>\<open>What modelling showed.\<close> Two host names with one cache key (\<open>Xdp_Hash\<close>); a wrapping negative TTL (\<open>Xdp_Cache\<close>); an
  authoritative NXDOMAIN for a subscribed name during an outage (\<open>Nacos_Watcher\<close>); a subscribe call with no time limit on
  the query path (\<open>Nacos_Concurrent\<close>); after hooks without before hooks on a short circuit (\<open>Request_Handler\<close>); header secrets
  expanded twice and an endpoint that validation accepts and start-up refuses (\<open>Otlp_Endpoint\<close>); a blank host name that
  splits two attributes (\<open>Otlp_Resource\<close>); lists of secrets that redaction shows (\<open>Control_Plane\<close>); an unattached program
  reported as attached (\<open>Startup\<close>).

  \<^bold>\<open>Not modelled.\<close> The inside of third-party code: the tokio scheduler, its timers and the signal handlers, the HTTP
  server and the MCP protocol, the resolvers, the SDKs. Tracing spans and the fields of start-up log lines, which carry no
  state. The plugin factory trait, which nothing implements, the empty registry module and re-exports. Benches, tests
  and deployment files.
\<close>

section \<open>The fast path and the slow path\<close>

text \<open>The fast path replays the slow path: take any run of the server with the cache middleware, over any requests, with any
  evictions and failed inserts. If the cache it leaves holds a live positive entry of at least 17 bytes for the question of a
  later query frame, the kernel answers that frame with the bytes of a response that the server sent to some client in
  that run, for a question with the same key, under the new transaction id.\<close>

theorem kernel_replays_server:
  assumes "distinct mws" and "list_all name_fits qs" and "serve_all hk True rot mws qs (st, no_books) = Some (evss, st', ob)"
    and "DNS_CACHE m = xc_map (obs_cache ob)" and "query_frame_ok m h q"
    and "make_cache_key (m_name q) (m_qtype q) (m_qclass q) = Some k" and "DNS_CACHE m k = Some v"
    and "now < expires_at v" and "\<not> is_negative v" and "17 \<le> unat (resp_len v)"
    and "adjust (hdr_bytes h @ msg_bytes q @ pad) (int (unat (resp_len v)) - int (length (msg_bytes q))) = Some f1"
    and "adjusted (hdr_bytes h @ msg_bytes q @ pad) (int (unat (resp_len v)) - int (length (msg_bytes q))) f1"
  shows "\<exists>i e rq qi r ok resp pad'. i < length qs \<and> qs ! i = (e, rq) \<and> query_info_of (re_names e) rq = Some qi \<and>
    make_cache_key (qi_name qi) (qi_type qi) (qi_class qi) = Some k \<and> Ev_sent r ok \<in> set (evss ! i) \<and>
    md_code (rs_metadata r) \<noteq> NXDomain \<and>
    emit hk r (max_message_size (rq_protocol rq) (rq_max_payload rq)) = Some resp \<and>
    dns_xdp adjust now m (hdr_bytes h @ msg_bytes q @ pad) =
      Some (XDP_TX, hdr_bytes (reply_hdr h (length resp)) @ ([hi8 (m_txid q), lo8 (m_txid q)] @ drop 2 resp) @ pad', [],
            record_outcome Hit m)"
proof -
  from cache_stems_from [OF assms(1-3)] assms(4,7) obtain n where n: "n < length qs" "stems_from hk (qs ! n) (evss ! n) k v" by fastforce
  obtain e rq where q: "qs ! n = (e, rq)" by force
  with n obtain qi r ok resp where i: "query_info_of (re_names e) rq = Some qi"
      "make_cache_key (qi_name qi) (qi_type qi) (qi_class qi) = Some k"
      "Ev_sent r ok \<in> set (evss ! n)"
      "emit hk r (max_message_size (rq_protocol rq) (rq_max_payload rq)) = Some resp"
    and l: "unat (resp_len v) = length resp" "unat (resp_len v) \<le> 512"
    and v: "take (length resp) (resp_data v) = resp" "cache_value_wf v" "md_code (rs_metadata r) \<noteq> NXDomain"
    using assms(9) by (auto simp: stems_from_def)
  have "name_ok (m_name q)" using assms(5) by (simp add: query_frame_ok_def)
  from xdp_serve_positive [where adjust = adjust and pad = pad, OF assms(5) this refl assms(6,7) v(2) assms(8-10) l(2) assms(11,12)] obtain pad'
    where "dns_xdp adjust now m (hdr_bytes h @ msg_bytes q @ pad) =
      Some (XDP_TX, hdr_bytes (reply_hdr h (length resp)) @ positive_reply v (m_txid q) @ pad', [], record_outcome Hit m)"
    using l(1) by auto
  moreover have "positive_reply v (m_txid q) = [hi8 (m_txid q), lo8 (m_txid q)] @ drop 2 resp"
    using v(1) l(1) by (simp add: positive_reply_def)
  ultimately show ?thesis using n(1) q i v(3)
    by (intro exI [of _ n] exI [of _ e] exI [of _ rq] exI [of _ qi] exI [of _ r] exI [of _ ok] exI [of _ resp] exI [of _ pad']) simp
qed

text \<open>The run of one request.\<close>

abbreviation replay_run :: "(handler_event list list \<times> request_info handler_state \<times> observed) option" where
  "replay_run \<equiv> serve_all replay_hickory True True all_middlewares [(sample_env, sample_request)] (replay_server, no_books)"

theorem kernel_replays_server_witness:
  "\<exists>evss st ob pad'. replay_run = Some (evss, st, ob) \<and>
     dns_xdp sample_adjust 1000 (sample_maps (sample_value True)\<lparr>DNS_CACHE := xc_map (obs_cache ob)\<rparr>)
         (hdr_bytes sample_hdr @ msg_bytes sample_msg @ []) =
       Some (XDP_TX, hdr_bytes (reply_hdr sample_hdr 20) @ ([0xAB, 0xCD] @ replicate 18 5) @ pad', [],
             record_outcome Hit (sample_maps (sample_value True)\<lparr>DNS_CACHE := xc_map (obs_cache ob)\<rparr>))"
proof -
  have "map_option (\<lambda>(evss, st, ob). map_option (\<lambda>v. (is_negative v, unat (resp_len v), expires_at v)) (xc_map (obs_cache ob) sample_key))
      replay_run = Some (Some (False, 20, 60000000005))" by code_simp
  then obtain evss st ob v where run: "replay_run = Some (evss, st, ob)" and e: "xc_map (obs_cache ob) sample_key = Some v"
    and v: "\<not> is_negative v" "unat (resp_len v) = 20" "expires_at v = 60000000005" by auto
  let ?m = "sample_maps (sample_value True)\<lparr>DNS_CACHE := xc_map (obs_cache ob)\<rparr>"
  let ?f = "hdr_bytes sample_hdr @ msg_bytes sample_msg @ []"
  have q: "query_frame_ok ?m sample_hdr sample_msg"
    using sample_facts(1) [of "sample_value True"] by (simp add: query_frame_ok_def)
  obtain f1 where a: "sample_adjust ?f (int (unat (resp_len v)) - int (length (msg_bytes sample_msg))) = Some f1"
    by (auto simp: sample_adjust_def v(2) length_hdr [OF hdr_wf_of [OF q]] intro!: that)
  have key: "make_cache_key (m_name sample_msg) (m_qtype sample_msg) (m_qclass sample_msg) = Some sample_key"
    and fits: "list_all name_fits [(sample_env, sample_request)]"
    and txid: "[hi8 (m_txid sample_msg), lo8 (m_txid sample_msg)] = [0xAB, 0xCD]" by code_simp+
  from kernel_replays_server [where m = ?m and v = v and adjust = sample_adjust and pad = "[]" and now = 1000,
      OF _ fits run _ q key _ _ v(1) _ a sample_adjust_adjusted [OF a]] e v obtain resp pad' where
    "dns_xdp sample_adjust 1000 ?m ?f = Some (XDP_TX, hdr_bytes (reply_hdr sample_hdr (length resp)) @
       ([hi8 (m_txid sample_msg), lo8 (m_txid sample_msg)] @ drop 2 resp) @ pad', [], record_outcome Hit ?m)"
    "resp = replicate 20 5" by (auto simp: replay_hickory_def)
  with run txid show ?thesis by auto
qed

end
